theory Spec2Isabelle
  imports Complex_Main "HOL-Library.Sublist"
begin

section \<open>JavaScript values the storage utilities rely on\<close>

text \<open>
  The utilities of \<^verbatim>\<open>snapUtils\<close> compare addresses and hashes through
  \<^verbatim>\<open>num.toBigInt\<close> (which is \<^verbatim>\<open>BigInt(value)\<close>) and chain ids through
  \<^verbatim>\<open>Number(value)\<close>. Both are conversions of the language, not code of the
  repository; they are written out here on ASCII strings. A conversion that throws
  is a value of \<open>error\<close>; \<^verbatim>\<open>NaN\<close> is a value of \<open>jsnumber\<close>.
\<close>

datatype error = TypeError | SyntaxError | Error string

datatype jsnumber = NaN | Finite rat | PosInfinity | NegInfinity

definition is_white_space :: "char \<Rightarrow> bool" where
  "is_white_space c = (c \<in> set [CHR 0x09, CHR 0x0A, CHR 0x0B, CHR 0x0C, CHR 0x0D, CHR 0x20])"

definition trim :: "string \<Rightarrow> string" where
  "trim s = rev (dropWhile is_white_space (rev (dropWhile is_white_space s)))"

definition digit_value :: "char \<Rightarrow> int option" where
  "digit_value c =
     (let n = (of_char c :: int) in
      if 48 \<le> n \<and> n \<le> 57 then Some (n - 48)
      else if 97 \<le> n \<and> n \<le> 102 then Some (n - 87)
      else if 65 \<le> n \<and> n \<le> 70 then Some (n - 55)
      else None)"

fun digits_value :: "int \<Rightarrow> int \<Rightarrow> string \<Rightarrow> int option" where
  "digits_value b acc [] = Some acc"
| "digits_value b acc (c # cs) =
     (case digit_value c of
        None \<Rightarrow> None
      | Some d \<Rightarrow> if d < b then digits_value b (acc * b + d) cs else None)"

definition parse_digits :: "int \<Rightarrow> string \<Rightarrow> int option" where
  "parse_digits b s = (if s = [] then None else digits_value b 0 s)"

text \<open>The prefixes \<^verbatim>\<open>0x\<close>, \<^verbatim>\<open>0o\<close>, \<^verbatim>\<open>0b\<close> of a non-decimal integer literal.\<close>

definition radix_prefix :: "string \<Rightarrow> (int \<times> string) option" where
  "radix_prefix s =
     (case s of
        c0 # c1 # rest \<Rightarrow>
          if c0 \<noteq> CHR ''0'' then None
          else if c1 = CHR ''x'' \<or> c1 = CHR ''X'' then Some (16, rest)
          else if c1 = CHR ''o'' \<or> c1 = CHR ''O'' then Some (8, rest)
          else if c1 = CHR ''b'' \<or> c1 = CHR ''B'' then Some (2, rest)
          else None
      | _ \<Rightarrow> None)"

definition signed_digits :: "string \<Rightarrow> int option" where
  "signed_digits s =
     (case s of
        [] \<Rightarrow> None
      | c # rest \<Rightarrow>
          if c = CHR ''+'' then parse_digits 10 rest
          else if c = CHR ''-'' then map_option uminus (parse_digits 10 rest)
          else parse_digits 10 s)"

text \<open>
  \<^verbatim>\<open>num.toBigInt(str)\<close>: white space is trimmed, the empty string is \<open>0\<close>, a
  non-decimal literal carries no sign, anything else throws a \<^verbatim>\<open>SyntaxError\<close>
  (the value \<open>None\<close>).
\<close>

definition toBigInt :: "string \<Rightarrow> int option" where
  "toBigInt str =
     (let s = trim str in
      if s = [] then Some 0
      else case radix_prefix s of
             Some (b, ds) \<Rightarrow> parse_digits b ds
           | None \<Rightarrow> signed_digits s)"

text \<open>
  Rounding a rational to the nearest binary64 value, ties to even: the exponent \<open>e\<close>
  of the value, the exponent \<open>k\<close> of the unit in the last of its 53 bits (no smaller
  than that of the subnormal numbers), and the rounded multiple \<open>n\<close> of that unit. The
  result overflows when it reaches \<open>2 ^ 1024\<close>.
\<close>

definition pow2 :: "int \<Rightarrow> rat" where
  "pow2 e = (if 0 \<le> e then 2 ^ nat e else 1 / 2 ^ nat (- e))"

definition pow10 :: "int \<Rightarrow> rat" where
  "pow10 e = (if 0 \<le> e then 10 ^ nat e else 1 / 10 ^ nat (- e))"

function bit_length :: "int \<Rightarrow> int" where
  "bit_length n = (if n \<le> 0 then 0 else 1 + bit_length (n div 2))"
  by pat_completeness auto
termination
  by (relation "measure nat") auto

declare bit_length.simps [simp del]

definition floor_log2 :: "rat \<Rightarrow> int" where
  "floor_log2 a =
     (let (p, q) = quotient_of a;
          e0 = bit_length p - bit_length q
      in if pow2 e0 \<le> a then e0 else e0 - 1)"

definition round_half_even :: "rat \<Rightarrow> int" where
  "round_half_even m =
     (let f = \<lfloor>m\<rfloor>; r = m - of_int f
      in if 1 / 2 < r \<or> (r = 1 / 2 \<and> odd f) then f + 1 else f)"

definition to_binary64 :: "rat \<Rightarrow> jsnumber" where
  "to_binary64 q =
     (if q = 0 then Finite 0
      else
        let a = \<bar>q\<bar>;
            e = floor_log2 a;
            k = max e (- 1022) - 52;
            n = round_half_even (a / pow2 k)
        in if 1024 \<le> e \<or> (e = 1023 \<and> n = 2 ^ 53)
           then (if q < 0 then NegInfinity else PosInfinity)
           else Finite ((if q < 0 then - 1 else 1) * of_int n * pow2 k))"

definition is_digit :: "char \<Rightarrow> bool" where
  "is_digit c = (48 \<le> (of_char c :: int) \<and> (of_char c :: int) \<le> 57)"

definition is_exponent_indicator :: "char \<Rightarrow> bool" where
  "is_exponent_indicator c = (c = CHR ''e'' \<or> c = CHR ''E'')"

text \<open>An unsigned decimal literal: digits, an optional fraction, an optional exponent.\<close>

definition decimal_literal :: "string \<Rightarrow> rat option" where
  "decimal_literal s =
     (let mant = takeWhile (\<lambda>c. \<not> is_exponent_indicator c) s;
          expo = dropWhile (\<lambda>c. \<not> is_exponent_indicator c) s;
          ip = takeWhile is_digit mant;
          after = dropWhile is_digit mant;
          fp = (case after of
                  [] \<Rightarrow> Some []
                | c # ds \<Rightarrow> if c = CHR ''.'' \<and> list_all is_digit ds then Some ds else None);
          ex = (case expo of [] \<Rightarrow> Some 0 | _ # ds \<Rightarrow> signed_digits ds)
      in case (fp, ex) of
           (Some fd, Some k) \<Rightarrow>
             if ip = [] \<and> fd = [] then None
             else map_option (\<lambda>n. of_int n * pow10 (k - int (length fd)))
                    (parse_digits 10 (ip @ fd))
         | _ \<Rightarrow> None)"

definition unsigned_decimal :: "bool \<Rightarrow> string \<Rightarrow> jsnumber" where
  "unsigned_decimal neg s =
     (if s = ''Infinity'' then (if neg then NegInfinity else PosInfinity)
      else case decimal_literal s of
             None \<Rightarrow> NaN
           | Some q \<Rightarrow> to_binary64 (if neg then - q else q))"

text \<open>
  \<^verbatim>\<open>Number(str)\<close>: white space is trimmed, the empty string is \<open>0\<close>, a string
  that is no numeric literal is \<^verbatim>\<open>NaN\<close>, and the value of a literal is rounded to
  binary64.
\<close>

definition Number :: "string \<Rightarrow> jsnumber" where
  "Number str =
     (let s = trim str in
      if s = [] then Finite 0
      else case radix_prefix s of
             Some (b, ds) \<Rightarrow>
               (case parse_digits b ds of
                  None \<Rightarrow> NaN
                | Some n \<Rightarrow> to_binary64 (of_int n))
           | None \<Rightarrow>
               if hd s = CHR ''+'' then unsigned_decimal False (tl s)
               else if hd s = CHR ''-'' then unsigned_decimal True (tl s)
               else unsigned_decimal False s)"

text \<open>\<^verbatim>\<open>a === b\<close> on numbers: \<^verbatim>\<open>NaN\<close> equals nothing, itself included.\<close>

definition strict_equals :: "jsnumber \<Rightarrow> jsnumber \<Rightarrow> bool" where
  "strict_equals a b = (a \<noteq> NaN \<and> a = b)"

text \<open>
  \<^verbatim>\<open>a * b\<close> and \<^verbatim>\<open>a >= b\<close> on numbers: the product of two finite numbers is
  their exact product rounded to binary64, and a comparison with \<^verbatim>\<open>NaN\<close> is false.
\<close>

fun js_multiply :: "jsnumber \<Rightarrow> jsnumber \<Rightarrow> jsnumber" where
  "js_multiply NaN b = NaN"
| "js_multiply (Finite a) NaN = NaN"
| "js_multiply (Finite a) (Finite b) = to_binary64 (a * b)"
| "js_multiply (Finite a) PosInfinity =
     (if a = 0 then NaN else if a < 0 then NegInfinity else PosInfinity)"
| "js_multiply (Finite a) NegInfinity =
     (if a = 0 then NaN else if a < 0 then PosInfinity else NegInfinity)"
| "js_multiply PosInfinity NaN = NaN"
| "js_multiply PosInfinity (Finite b) =
     (if b = 0 then NaN else if b < 0 then NegInfinity else PosInfinity)"
| "js_multiply PosInfinity PosInfinity = PosInfinity"
| "js_multiply PosInfinity NegInfinity = NegInfinity"
| "js_multiply NegInfinity NaN = NaN"
| "js_multiply NegInfinity (Finite b) =
     (if b = 0 then NaN else if b < 0 then PosInfinity else NegInfinity)"
| "js_multiply NegInfinity PosInfinity = NegInfinity"
| "js_multiply NegInfinity NegInfinity = PosInfinity"

fun js_greater_equal :: "jsnumber \<Rightarrow> jsnumber \<Rightarrow> bool" where
  "js_greater_equal NaN b = False"
| "js_greater_equal (Finite a) NaN = False"
| "js_greater_equal (Finite a) (Finite b) = (b \<le> a)"
| "js_greater_equal (Finite a) PosInfinity = False"
| "js_greater_equal (Finite a) NegInfinity = True"
| "js_greater_equal PosInfinity NaN = False"
| "js_greater_equal PosInfinity (Finite b) = True"
| "js_greater_equal PosInfinity PosInfinity = True"
| "js_greater_equal PosInfinity NegInfinity = True"
| "js_greater_equal NegInfinity NaN = False"
| "js_greater_equal NegInfinity (Finite b) = False"
| "js_greater_equal NegInfinity PosInfinity = False"
| "js_greater_equal NegInfinity NegInfinity = True"

text \<open>Truthiness of an optional string, and \<^verbatim>\<open>a || b\<close> on such values.\<close>

definition truthy :: "string option \<Rightarrow> bool" where
  "truthy v = (case v of None \<Rightarrow> False | Some s \<Rightarrow> s \<noteq> [])"

definition js_or :: "string option \<Rightarrow> string option \<Rightarrow> string option" where
  "js_or a b = (if truthy a then a else b)"

text \<open>
  \<^verbatim>\<open>xs.find(p)\<close> with a predicate that may throw. The result names the element
  found and its position: the source keeps a reference to the stored element and
  assigns to its fields, which the model does at that position.
\<close>

fun find_ref :: "('a \<Rightarrow> error + bool) \<Rightarrow> 'a list \<Rightarrow> error + (nat \<times> 'a) option" where
  "find_ref p [] = Inr None"
| "find_ref p (x # xs) =
     (case p x of
        Inl e \<Rightarrow> Inl e
      | Inr b \<Rightarrow>
          if b then Inr (Some (0, x))
          else (case find_ref p xs of
                  Inl e \<Rightarrow> Inl e
                | Inr None \<Rightarrow> Inr None
                | Inr (Some (i, y)) \<Rightarrow> Inr (Some (Suc i, y))))"

definition found_value :: "error + (nat \<times> 'a) option \<Rightarrow> error + 'a option" where
  "found_value r = map_sum id (map_option snd) r"

section \<open>The document\<close>

text \<open>
  Modelled from the spec: the declarations of \<^verbatim>\<open>../types/snapState\<close>
  (\<^verbatim>\<open>AccContract\<close>, \<^verbatim>\<open>Network\<close>, \<^verbatim>\<open>Erc20Token\<close>, \<^verbatim>\<open>Transaction\<close>, \<^verbatim>\<open>SnapState\<close>,
  \<^verbatim>\<open>TransactionStatus\<close>) are not among the sources. The records carry the fields
  the utilities read and write and the attributes of the data model; a collection of
  the document may be absent. Timestamps and indices are integers.
\<close>

record AccContract =
  acc_addressSalt :: string
  acc_publicKey :: string
  acc_address :: string
  acc_addressIndex :: int
  acc_derivationPath :: string
  acc_deployTxnHash :: "string option"
  acc_chainId :: string

record Network =
  net_name :: string
  net_chainId :: string
  net_baseUrl :: string
  net_nodeUrl :: string
  net_voyagerUrl :: string
  net_accountClassHash :: string
  net_useOldAccounts :: "bool option"

record Erc20Token =
  tok_address :: string
  tok_name :: string
  tok_symbol :: string
  tok_decimals :: int
  tok_chainId :: string

record Transaction =
  txn_txnHash :: string
  txn_txnType :: string
  txn_chainId :: string
  txn_senderAddress :: string
  txn_contractAddress :: string
  txn_status :: string
  txn_executionStatus :: string
  txn_finalityStatus :: string
  txn_failureReason :: string
  txn_timestamp :: int

record SnapState =
  accContracts :: "AccContract list option"
  erc20Tokens :: "Erc20Token list option"
  networks :: "Network list option"
  transactions :: "Transaction list option"

definition ACCEPTED_ON_L2 :: string where
  "ACCEPTED_ON_L2 = ''ACCEPTED_ON_L2''"

definition ACCEPTED_ON_L1 :: string where
  "ACCEPTED_ON_L1 = ''ACCEPTED_ON_L1''"

text \<open>
  Modelled from the spec: \<^verbatim>\<open>toJson\<close> of \<^verbatim>\<open>./serializer\<close> is not among the
  sources. The utilities only compare two serializations; canonical equality is a
  deterministic, field-order-independent serialization compared for exact equality,
  which on records is equality of all fields.
\<close>

definition toJson_equal :: "'a \<Rightarrow> 'a \<Rightarrow> bool" where
  "toJson_equal a b = (a = b)"

section \<open>Record locators and document accessors\<close>

definition account_matches :: "int \<Rightarrow> string \<Rightarrow> AccContract \<Rightarrow> error + bool" where
  "account_matches bigIntAccountAddress chainId acc =
     (case toBigInt (acc_address acc) of
        None \<Rightarrow> Inl SyntaxError
      | Some v \<Rightarrow>
          Inr (v = bigIntAccountAddress
               \<and> strict_equals (Number (acc_chainId acc)) (Number chainId)))"

definition getAccount_ref ::
  "SnapState \<Rightarrow> string \<Rightarrow> string \<Rightarrow> error + (nat \<times> AccContract) option" where
  "getAccount_ref state accountAddress chainId =
     (case toBigInt accountAddress of
        None \<Rightarrow> Inl SyntaxError
      | Some bigIntAccountAddress \<Rightarrow>
          (case accContracts state of
             None \<Rightarrow> Inr None
           | Some accs \<Rightarrow> find_ref (account_matches bigIntAccountAddress chainId) accs))"

definition getAccount :: "SnapState \<Rightarrow> string \<Rightarrow> string \<Rightarrow> error + AccContract option" where
  "getAccount state accountAddress chainId =
     found_value (getAccount_ref state accountAddress chainId)"

text \<open>
  \<^verbatim>\<open>getAccounts\<close> reads \<^verbatim>\<open>state.accContracts.filter\<close> with no optional chaining:
  on an absent collection the property access throws a \<^verbatim>\<open>TypeError\<close>. The sort is
  the stable sort of the language on the comparator \<^verbatim>\<open>a.addressIndex - b.addressIndex\<close>.
\<close>

definition getAccounts :: "SnapState \<Rightarrow> string \<Rightarrow> error + AccContract list" where
  "getAccounts state chainId =
     (case accContracts state of
        None \<Rightarrow> Inl TypeError
      | Some accs \<Rightarrow>
          Inr (sort_key acc_addressIndex
                 (filter (\<lambda>acc. strict_equals (Number (acc_chainId acc)) (Number chainId))
                    accs)))"

definition network_matches :: "string \<Rightarrow> Network \<Rightarrow> bool" where
  "network_matches chainId network =
     (strict_equals (Number (net_chainId network)) (Number chainId)
      \<and> net_useOldAccounts network \<noteq> Some True)"

definition getNetwork_ref :: "SnapState \<Rightarrow> string \<Rightarrow> (nat \<times> Network) option" where
  "getNetwork_ref state chainId =
     (case networks state of
        None \<Rightarrow> None
      | Some ns \<Rightarrow>
          (case find_ref (\<lambda>n. Inr (network_matches chainId n)) ns of
             Inl e \<Rightarrow> None
           | Inr r \<Rightarrow> r))"

definition getNetwork :: "SnapState \<Rightarrow> string \<Rightarrow> Network option" where
  "getNetwork state chainId = map_option snd (getNetwork_ref state chainId)"

definition getNetworks :: "SnapState \<Rightarrow> Network list option" where
  "getNetworks state = networks state"

definition token_matches :: "int \<Rightarrow> string \<Rightarrow> Erc20Token \<Rightarrow> error + bool" where
  "token_matches bigIntTokenAddress chainId token =
     (case toBigInt (tok_address token) of
        None \<Rightarrow> Inl SyntaxError
      | Some v \<Rightarrow>
          Inr (v = bigIntTokenAddress
               \<and> strict_equals (Number (tok_chainId token)) (Number chainId)))"

definition getErc20Token_ref ::
  "SnapState \<Rightarrow> string \<Rightarrow> string \<Rightarrow> error + (nat \<times> Erc20Token) option" where
  "getErc20Token_ref state tokenAddress chainId =
     (case toBigInt tokenAddress of
        None \<Rightarrow> Inl SyntaxError
      | Some bigIntTokenAddress \<Rightarrow>
          (case erc20Tokens state of
             None \<Rightarrow> Inr None
           | Some tokens \<Rightarrow> find_ref (token_matches bigIntTokenAddress chainId) tokens))"

definition getErc20Token :: "SnapState \<Rightarrow> string \<Rightarrow> string \<Rightarrow> error + Erc20Token option" where
  "getErc20Token state tokenAddress chainId =
     found_value (getErc20Token_ref state tokenAddress chainId)"

text \<open>With optional chaining, an absent collection gives \<^verbatim>\<open>undefined\<close>, not a list.\<close>

definition getErc20Tokens :: "SnapState \<Rightarrow> string \<Rightarrow> Erc20Token list option" where
  "getErc20Tokens state chainId =
     map_option
       (filter (\<lambda>token. strict_equals (Number (tok_chainId token)) (Number chainId)))
       (erc20Tokens state)"

definition getEtherErc20Token :: "SnapState \<Rightarrow> string \<Rightarrow> Erc20Token option" where
  "getEtherErc20Token state chainId =
     (case erc20Tokens state of
        None \<Rightarrow> None
      | Some tokens \<Rightarrow>
          find (\<lambda>token. strict_equals (Number (tok_chainId token)) (Number chainId)
                        \<and> tok_symbol token = ''ETH'') tokens)"

definition transaction_matches :: "int \<Rightarrow> string \<Rightarrow> Transaction \<Rightarrow> error + bool" where
  "transaction_matches bigIntTxnHash chainId txn =
     (case toBigInt (txn_txnHash txn) of
        None \<Rightarrow> Inl SyntaxError
      | Some v \<Rightarrow>
          Inr (v = bigIntTxnHash
               \<and> strict_equals (Number (txn_chainId txn)) (Number chainId)))"

definition getTransaction_ref ::
  "SnapState \<Rightarrow> string \<Rightarrow> string \<Rightarrow> error + (nat \<times> Transaction) option" where
  "getTransaction_ref state txnHash chainId =
     (case toBigInt txnHash of
        None \<Rightarrow> Inl SyntaxError
      | Some bigIntTxnHash \<Rightarrow>
          (case transactions state of
             None \<Rightarrow> Inr None
           | Some txns \<Rightarrow> find_ref (transaction_matches bigIntTxnHash chainId) txns))"

definition getTransaction :: "SnapState \<Rightarrow> string \<Rightarrow> string \<Rightarrow> error + Transaction option" where
  "getTransaction state txnHash chainId =
     found_value (getTransaction_ref state txnHash chainId)"




section \<open>The transaction filter pipeline\<close>

text \<open>
  Modelled from the spec: \<^verbatim>\<open>./transaction/filter\<close> (\<^verbatim>\<open>filterTransactions\<close> and
  the six filter classes) is not among the sources. Each filter is one predicate on a
  transaction with an optional configuration, an unset configuration passing every
  transaction; the pipeline keeps the transactions that every filter accepts, in
  their order. A type or status configuration is a single value or a set of values.
\<close>

datatype 'a one_or_many = One 'a | Many "'a list"

fun config_values :: "'a one_or_many \<Rightarrow> 'a list" where
  "config_values (One v) = [v]"
| "config_values (Many vs) = vs"

datatype TxnFilter =
    ChainIdFilter jsnumber
  | TimestampFilter "int option"
  | SenderAddressFilter "int option"
  | ContractAddressFilter "int option"
  | TxnTypeFilter "string one_or_many option"
  | StatusFilter "string one_or_many option" "string one_or_many option"

definition member_of_config :: "string \<Rightarrow> string one_or_many option \<Rightarrow> bool" where
  "member_of_config v cfg =
     (case cfg of None \<Rightarrow> True | Some c \<Rightarrow> v \<in> set (config_values c))"

fun apply_filter :: "TxnFilter \<Rightarrow> Transaction \<Rightarrow> bool" where
  "apply_filter (ChainIdFilter chainId) txn =
     strict_equals (Number (txn_chainId txn)) chainId"
| "apply_filter (TimestampFilter None) txn = True"
| "apply_filter (TimestampFilter (Some minTimestamp)) txn =
     (minTimestamp \<le> txn_timestamp txn * 1000)"
| "apply_filter (SenderAddressFilter None) txn = True"
| "apply_filter (SenderAddressFilter (Some a)) txn =
     (toBigInt (txn_senderAddress txn) = Some a)"
| "apply_filter (ContractAddressFilter None) txn = True"
| "apply_filter (ContractAddressFilter (Some a)) txn =
     (toBigInt (txn_contractAddress txn) = Some a)"
| "apply_filter (TxnTypeFilter txnType) txn =
     member_of_config (txn_txnType txn) txnType"
| "apply_filter (StatusFilter finalityStatus executionStatus) txn =
     (member_of_config (txn_finalityStatus txn) finalityStatus
      \<and> member_of_config (txn_executionStatus txn) executionStatus)"

definition filterTransactions :: "Transaction list \<Rightarrow> TxnFilter list \<Rightarrow> Transaction list" where
  "filterTransactions txns filters =
     filter (\<lambda>txn. list_all (\<lambda>f. apply_filter f txn) filters) txns"

text \<open>
  \<^verbatim>\<open>address ? num.toBigInt(address) : undefined\<close>: an address that is
  \<^verbatim>\<open>undefined\<close> or empty leaves the filter unset.
\<close>

definition address_config :: "string option \<Rightarrow> error + int option" where
  "address_config address =
     (if truthy address
      then (case toBigInt (the address) of
              None \<Rightarrow> Inl SyntaxError
            | Some v \<Rightarrow> Inr (Some v))
      else Inr None)"

definition getTransactions ::
  "SnapState \<Rightarrow> string \<Rightarrow> string option \<Rightarrow> string option \<Rightarrow> string one_or_many option
     \<Rightarrow> string one_or_many option \<Rightarrow> string one_or_many option \<Rightarrow> int option
     \<Rightarrow> error + Transaction list" where
  "getTransactions state chainId senderAddress contractAddress txnType finalityStatus
       executionStatus minTimestamp =
     (case transactions state of
        None \<Rightarrow> Inr []
      | Some txns \<Rightarrow>
          (case address_config senderAddress of
             Inl e \<Rightarrow> Inl e
           | Inr sender \<Rightarrow>
               (case address_config contractAddress of
                  Inl e \<Rightarrow> Inl e
                | Inr contract \<Rightarrow>
                    Inr (filterTransactions txns
                           [ChainIdFilter (Number chainId),
                            TimestampFilter minTimestamp,
                            SenderAddressFilter sender,
                            ContractAddressFilter contract,
                            TxnTypeFilter txnType,
                            StatusFilter finalityStatus executionStatus]))))"

section \<open>The host and the mutating operations\<close>

text \<open>
  The host (\<^verbatim>\<open>wallet\<close> with \<^verbatim>\<open>snap_manageState\<close>, and the \<^verbatim>\<open>Mutex\<close>) is
  external. A \<open>host\<close> holds the persisted document and the trace of what one call
  after another did to it: taking and releasing the lock, and the two requests. The
  host always holds a document and its requests succeed; the calls are taken one at
  a time, so the lock is free when \<^verbatim>\<open>runExclusive\<close> asks for it.

  The source mutates the document it was given (or the one it fetched) in place; the
  model returns that document after the call. When the call throws, the result is
  the error.
\<close>

datatype event = LockAcquire | LockRelease | HostGet | HostUpdate SnapState

record host =
  persisted :: SnapState
  trace :: "event list"

definition log_event :: "event \<Rightarrow> host \<Rightarrow> host" where
  "log_event ev h = h\<lparr>trace := trace h @ [ev]\<rparr>"

definition runExclusive :: "host \<Rightarrow> (host \<Rightarrow> 'r \<times> host) \<Rightarrow> 'r \<times> host" where
  "runExclusive h body =
     (let (r, h') = body (log_event LockAcquire h) in (r, log_event LockRelease h'))"

text \<open>\<^verbatim>\<open>if (!state) state = await wallet.request({operation: 'get'})\<close>\<close>

definition fetch_state :: "SnapState option \<Rightarrow> host \<Rightarrow> SnapState \<times> host" where
  "fetch_state state h =
     (case state of
        None \<Rightarrow> (persisted h, log_event HostGet h)
      | Some s \<Rightarrow> (s, h))"

text \<open>\<^verbatim>\<open>await wallet.request({operation: 'update', newState: state})\<close>\<close>

definition request_update :: "SnapState \<Rightarrow> host \<Rightarrow> host" where
  "request_update newState h = log_event (HostUpdate newState) (h\<lparr>persisted := newState\<rparr>)"

definition or_empty :: "'a list option \<Rightarrow> 'a list" where
  "or_empty xs = (case xs of None \<Rightarrow> [] | Some ys \<Rightarrow> ys)"

definition merge_account :: "AccContract \<Rightarrow> AccContract \<Rightarrow> AccContract" where
  "merge_account storedAccount userAccount =
     storedAccount
       \<lparr>acc_addressSalt := acc_addressSalt userAccount,
        acc_addressIndex := acc_addressIndex userAccount,
        acc_derivationPath := acc_derivationPath userAccount,
        acc_publicKey := acc_publicKey userAccount,
        acc_deployTxnHash :=
          js_or (acc_deployTxnHash userAccount) (acc_deployTxnHash storedAccount)\<rparr>"

definition upsertAccount ::
  "AccContract \<Rightarrow> host \<Rightarrow> SnapState option \<Rightarrow> (error + SnapState) \<times> host" where
  "upsertAccount userAccount h state =
     runExclusive h (\<lambda>h0.
       let (s, h1) = fetch_state state h0
       in case getAccount_ref s (acc_address userAccount) (acc_chainId userAccount) of
            Inl e \<Rightarrow> (Inl e, h1)
          | Inr None \<Rightarrow>
              (let s' = s\<lparr>accContracts := Some (or_empty (accContracts s) @ [userAccount])\<rparr>
               in (Inr s', request_update s' h1))
          | Inr (Some (i, storedAccount)) \<Rightarrow>
              if toJson_equal storedAccount userAccount then (Inr s, h1)
              else
                (let s' = s\<lparr>accContracts :=
                             Some ((or_empty (accContracts s))
                                     [i := merge_account storedAccount userAccount])\<rparr>
                 in (Inr s', request_update s' h1)))"

definition merge_network :: "Network \<Rightarrow> Network \<Rightarrow> Network" where
  "merge_network storedNetwork network =
     storedNetwork
       \<lparr>net_name := net_name network,
        net_baseUrl := net_baseUrl network,
        net_nodeUrl := net_nodeUrl network,
        net_voyagerUrl := net_voyagerUrl network,
        net_accountClassHash := net_accountClassHash network\<rparr>"

definition upsertNetwork ::
  "Network \<Rightarrow> host \<Rightarrow> SnapState option \<Rightarrow> (error + SnapState) \<times> host" where
  "upsertNetwork network h state =
     runExclusive h (\<lambda>h0.
       let (s, h1) = fetch_state state h0
       in case getNetwork_ref s (net_chainId network) of
            None \<Rightarrow>
              (let s' = s\<lparr>networks := Some (or_empty (networks s) @ [network])\<rparr>
               in (Inr s', request_update s' h1))
          | Some (i, storedNetwork) \<Rightarrow>
              if toJson_equal storedNetwork network then (Inr s, h1)
              else
                (let s' = s\<lparr>networks :=
                             Some ((or_empty (networks s))
                                     [i := merge_network storedNetwork network])\<rparr>
                 in (Inr s', request_update s' h1)))"

definition merge_token :: "Erc20Token \<Rightarrow> Erc20Token \<Rightarrow> Erc20Token" where
  "merge_token storedErc20Token erc20Token =
     storedErc20Token
       \<lparr>tok_name := tok_name erc20Token,
        tok_symbol := tok_symbol erc20Token,
        tok_decimals := tok_decimals erc20Token\<rparr>"

definition upsertErc20Token ::
  "Erc20Token \<Rightarrow> host \<Rightarrow> SnapState option \<Rightarrow> (error + SnapState) \<times> host" where
  "upsertErc20Token erc20Token h state =
     runExclusive h (\<lambda>h0.
       let (s, h1) = fetch_state state h0
       in case getErc20Token_ref s (tok_address erc20Token) (tok_chainId erc20Token) of
            Inl e \<Rightarrow> (Inl e, h1)
          | Inr None \<Rightarrow>
              (let s' = s\<lparr>erc20Tokens := Some (or_empty (erc20Tokens s) @ [erc20Token])\<rparr>
               in (Inr s', request_update s' h1))
          | Inr (Some (i, storedErc20Token)) \<Rightarrow>
              if toJson_equal storedErc20Token erc20Token then (Inr s, h1)
              else
                (let s' = s\<lparr>erc20Tokens :=
                             Some ((or_empty (erc20Tokens s))
                                     [i := merge_token storedErc20Token erc20Token])\<rparr>
                 in (Inr s', request_update s' h1)))"

definition merge_transaction :: "Transaction \<Rightarrow> Transaction \<Rightarrow> Transaction" where
  "merge_transaction storedTxn txn =
     storedTxn
       \<lparr>txn_status := txn_status txn,
        txn_executionStatus := txn_executionStatus txn,
        txn_finalityStatus := txn_finalityStatus txn,
        txn_failureReason := txn_failureReason txn,
        txn_timestamp := txn_timestamp txn\<rparr>"

definition upsertTransaction ::
  "Transaction \<Rightarrow> host \<Rightarrow> SnapState option \<Rightarrow> (error + SnapState) \<times> host" where
  "upsertTransaction txn h state =
     runExclusive h (\<lambda>h0.
       let (s, h1) = fetch_state state h0
       in case getTransaction_ref s (txn_txnHash txn) (txn_chainId txn) of
            Inl e \<Rightarrow> (Inl e, h1)
          | Inr None \<Rightarrow>
              (let s' = s\<lparr>transactions := Some (or_empty (transactions s) @ [txn])\<rparr>
               in (Inr s', request_update s' h1))
          | Inr (Some (i, storedTxn)) \<Rightarrow>
              if toJson_equal storedTxn txn then (Inr s, h1)
              else
                (let s' = s\<lparr>transactions :=
                             Some ((or_empty (transactions s))
                                     [i := merge_transaction storedTxn txn])\<rparr>
                 in (Inr s', request_update s' h1)))"

text \<open>
  The body of \<^verbatim>\<open>txns.forEach\<close> in \<^verbatim>\<open>upsertTransactions\<close>: locate, then insert or
  merge, with no comparison of the stored and the incoming record. The batch is a
  list of values: its records are distinct objects, none of them an object of the
  document, so that a merge into a stored record changes no record of the batch.
\<close>

definition upsert_one :: "Transaction \<Rightarrow> SnapState \<Rightarrow> error + SnapState" where
  "upsert_one txn s =
     (case getTransaction_ref s (txn_txnHash txn) (txn_chainId txn) of
        Inl e \<Rightarrow> Inl e
      | Inr None \<Rightarrow> Inr (s\<lparr>transactions := Some (or_empty (transactions s) @ [txn])\<rparr>)
      | Inr (Some (i, storedTxn)) \<Rightarrow>
          Inr (s\<lparr>transactions :=
                   Some ((or_empty (transactions s))[i := merge_transaction storedTxn txn])\<rparr>))"

fun upsert_each :: "Transaction list \<Rightarrow> SnapState \<Rightarrow> error + SnapState" where
  "upsert_each [] s = Inr s"
| "upsert_each (txn # txns) s =
     (case upsert_one txn s of
        Inl e \<Rightarrow> Inl e
      | Inr s' \<Rightarrow> upsert_each txns s')"

definition upsertTransactions ::
  "Transaction list \<Rightarrow> host \<Rightarrow> SnapState option \<Rightarrow> (error + SnapState) \<times> host" where
  "upsertTransactions txns h state =
     runExclusive h (\<lambda>h0.
       let (s, h1) = fetch_state state h0
       in case upsert_each txns s of
            Inl e \<Rightarrow> (Inl e, h1)
          | Inr s' \<Rightarrow> (Inr s', request_update s' h1))"

text \<open>
  The predicate of the filter in \<^verbatim>\<open>removeAcceptedTransaction\<close>: what is kept.
  \<^verbatim>\<open>txn.timestamp * 1000 >= minTimeStamp\<close> multiplies and compares numbers: the
  timestamp, an integer-valued number that the record holds as an integer, is the
  number \<open>Finite (of_int (txn_timestamp txn))\<close>, and the cutoff is any number.
\<close>

definition timestamp_ms :: "Transaction \<Rightarrow> jsnumber" where
  "timestamp_ms txn = js_multiply (Finite (of_int (txn_timestamp txn))) (Finite 1000)"

definition kept_by_pruning :: "jsnumber \<Rightarrow> Transaction \<Rightarrow> bool" where
  "kept_by_pruning minTimeStamp txn =
     ((txn_finalityStatus txn \<noteq> ACCEPTED_ON_L2 \<and> txn_finalityStatus txn \<noteq> ACCEPTED_ON_L1)
      \<or> (txn_finalityStatus txn = ACCEPTED_ON_L2
          \<and> js_greater_equal (timestamp_ms txn) minTimeStamp))"

text \<open>
  \<^verbatim>\<open>state.transactions.filter\<close> has no optional chaining: on an absent
  collection it throws a \<^verbatim>\<open>TypeError\<close>, before any request to update.
\<close>

definition removeAcceptedTransaction ::
  "jsnumber \<Rightarrow> host \<Rightarrow> SnapState option \<Rightarrow> (error + SnapState) \<times> host" where
  "removeAcceptedTransaction minTimeStamp h state =
     runExclusive h (\<lambda>h0.
       let (s, h1) = fetch_state state h0
       in case transactions s of
            None \<Rightarrow> (Inl TypeError, h1)
          | Some txns \<Rightarrow>
              (let s' = s\<lparr>transactions := Some (filter (kept_by_pruning minTimeStamp) txns)\<rparr>
               in (Inr s', request_update s' h1)))"

definition updates :: "host \<Rightarrow> SnapState list" where
  "updates h = concat (map (\<lambda>ev. case ev of HostUpdate s \<Rightarrow> [s] | _ \<Rightarrow> []) (trace h))"

section \<open>Notions used to state the properties\<close>

text \<open>The document a mutating call works on: the one supplied, else the persisted one.\<close>

definition the_document :: "SnapState option \<Rightarrow> host \<Rightarrow> SnapState" where
  "the_document state h = (case state of None \<Rightarrow> persisted h | Some s \<Rightarrow> s)"

text \<open>Every transaction hash of the list is a literal that \<^verbatim>\<open>num.toBigInt\<close> accepts.\<close>

definition hashes_parse :: "Transaction list \<Rightarrow> bool" where
  "hashes_parse txns = list_all (\<lambda>t. toBigInt (txn_txnHash t) \<noteq> None) txns"

definition addresses_parse :: "string list \<Rightarrow> bool" where
  "addresses_parse keys = list_all (\<lambda>k. toBigInt k \<noteq> None) keys"

text \<open>
  An upsert called twice in succession with the same record writes back once: the
  first call returns a document and sends it to the host, and the second call,
  whether it is handed that document or fetches it, returns it unchanged and sends
  nothing.
\<close>

definition twice_writes_once ::
  "(host \<Rightarrow> SnapState option \<Rightarrow> (error + SnapState) \<times> host) \<Rightarrow> host \<Rightarrow> SnapState option \<Rightarrow> bool" where
  "twice_writes_once upsert h state =
     (case upsert h state of
        (Inl e, h1) \<Rightarrow> False
      | (Inr s1, h1) \<Rightarrow>
          updates h1 = updates h @ [s1]
          \<and> list_all
              (\<lambda>state2. fst (upsert h1 state2) = Inr s1
                        \<and> updates (snd (upsert h1 state2)) = updates h1)
              [None, Some s1])"

subsection \<open>Concrete documents\<close>

definition example_account :: "string \<Rightarrow> string \<Rightarrow> int \<Rightarrow> AccContract" where
  "example_account address chainId index =
     \<lparr>acc_addressSalt = ''0x7'', acc_publicKey = ''0x8'', acc_address = address,
      acc_addressIndex = index, acc_derivationPath = ''m/44/9004/0/0/'',
      acc_deployTxnHash = None, acc_chainId = chainId\<rparr>"

definition example_network :: "string \<Rightarrow> string \<Rightarrow> bool option \<Rightarrow> Network" where
  "example_network name chainId legacy =
     \<lparr>net_name = name, net_chainId = chainId, net_baseUrl = ''https://a'',
      net_nodeUrl = ''https://b'', net_voyagerUrl = ''https://c'',
      net_accountClassHash = ''0x9'', net_useOldAccounts = legacy\<rparr>"

definition example_token :: "string \<Rightarrow> string \<Rightarrow> Erc20Token" where
  "example_token address chainId =
     \<lparr>tok_address = address, tok_name = ''Ether'', tok_symbol = ''ETH'',
      tok_decimals = 18, tok_chainId = chainId\<rparr>"

definition example_transaction :: "string \<Rightarrow> string \<Rightarrow> string \<Rightarrow> string \<Rightarrow> int \<Rightarrow> Transaction" where
  "example_transaction txnHash chainId sender finality timestamp =
     \<lparr>txn_txnHash = txnHash, txn_txnType = ''invoke'', txn_chainId = chainId,
      txn_senderAddress = sender, txn_contractAddress = ''0x6'', txn_status = '''',
      txn_executionStatus = ''SUCCEEDED'', txn_finalityStatus = finality,
      txn_failureReason = '''', txn_timestamp = timestamp\<rparr>"

definition empty_document :: SnapState where
  "empty_document =
     \<lparr>accContracts = Some [], erc20Tokens = Some [], networks = Some [],
      transactions = Some []\<rparr>"

definition absent_document :: SnapState where
  "absent_document =
     \<lparr>accContracts = None, erc20Tokens = None, networks = None, transactions = None\<rparr>"

definition idle_host :: "SnapState \<Rightarrow> host" where
  "idle_host s = \<lparr>persisted = s, trace = []\<rparr>"

text \<open>One record of each kind, every key spelled in decimal.\<close>

definition example_document :: SnapState where
  "example_document =
     \<lparr>accContracts = Some [example_account ''1'' ''1'' 0],
      erc20Tokens = Some [example_token ''1'' ''1''],
      networks = Some [example_network ''devnet'' ''1'' None],
      transactions = Some [example_transaction ''1'' ''1'' ''0x5'' ''PENDING'' 10]\<rparr>"

text \<open>
  An upsert called twice in succession with the same record writes back twice: each
  of the two calls returns a document and sends it to the host.
\<close>

definition twice_writes_twice ::
  "(host \<Rightarrow> SnapState option \<Rightarrow> (error + SnapState) \<times> host) \<Rightarrow> host \<Rightarrow> SnapState option \<Rightarrow> bool" where
  "twice_writes_twice upsert h state =
     (case upsert h state of
        (Inl e, h1) \<Rightarrow> False
      | (Inr s1, h1) \<Rightarrow>
          updates h1 = updates h @ [s1]
          \<and> list_all
              (\<lambda>state2. case upsert h1 state2 of
                          (Inl e, h2) \<Rightarrow> False
                        | (Inr s2, h2) \<Rightarrow> updates h2 = updates h1 @ [s2])
              [None, Some s1])"


text \<open>
  The record \<open>u\<close> is one that \<^verbatim>\<open>getTransaction\<close> accepts when it is called with the
  hash and the chain id of \<open>t\<close>.
\<close>

definition same_transaction_key :: "Transaction \<Rightarrow> Transaction \<Rightarrow> bool" where
  "same_transaction_key t u =
     (case toBigInt (txn_txnHash t) of
        None \<Rightarrow> False
      | Some v \<Rightarrow> transaction_matches v (txn_chainId t) u = Inr True)"

text \<open>The fields of a transaction that a merge assigns, and those that it leaves.\<close>

definition same_merged_fields :: "Transaction \<Rightarrow> Transaction \<Rightarrow> bool" where
  "same_merged_fields r t =
     (txn_status r = txn_status t \<and> txn_executionStatus r = txn_executionStatus t
      \<and> txn_finalityStatus r = txn_finalityStatus t
      \<and> txn_failureReason r = txn_failureReason t \<and> txn_timestamp r = txn_timestamp t)"

definition same_kept_fields :: "Transaction \<Rightarrow> Transaction \<Rightarrow> bool" where
  "same_kept_fields r x =
     (txn_txnHash r = txn_txnHash x \<and> txn_txnType r = txn_txnType x
      \<and> txn_chainId r = txn_chainId x \<and> txn_senderAddress r = txn_senderAddress x
      \<and> txn_contractAddress r = txn_contractAddress x)"
section \<open>Basic facts\<close>

lemmas literal_defs =
  trim_def is_white_space_def radix_prefix_def parse_digits_def digit_value_def
  signed_digits_def

lemmas binary64_defs =
  to_binary64_def floor_log2_def bit_length.simps pow2_def round_half_even_def Let_def

lemmas number_defs =
  Number_def unsigned_decimal_def decimal_literal_def is_digit_def
  is_exponent_indicator_def pow10_def binary64_defs

lemma toBigInt_hex_one: "toBigInt ''0x1'' = Some 1"
  by (simp add: toBigInt_def literal_defs)

lemma toBigInt_dec_one: "toBigInt ''1'' = Some 1"
  by (simp add: toBigInt_def literal_defs)

lemma toBigInt_dec_two: "toBigInt ''2'' = Some 2"
  by (simp add: toBigInt_def literal_defs)

lemma toBigInt_hex_five: "toBigInt ''0x5'' = Some 5"
  by (simp add: toBigInt_def literal_defs)

lemma toBigInt_malformed: "toBigInt ''xyz'' = None"
  by (simp add: toBigInt_def literal_defs)

lemma Number_hex_one: "Number ''0x1'' = Finite 1"
  by (simp add: literal_defs number_defs)

lemma Number_dec_one: "Number ''1'' = Finite 1"
  by (simp add: literal_defs number_defs)

lemma Number_dec_two: "Number ''2'' = Finite 2"
  by (simp add: literal_defs number_defs)

lemma Number_empty: "Number [] = Finite 0"
  by (simp add: literal_defs number_defs)

lemma Number_dec_zero: "Number ''0'' = Finite 0"
  by (simp add: literal_defs number_defs)

lemma Number_malformed: "Number ''main'' = NaN"
  by (simp add: literal_defs number_defs)

lemmas literal_values =
  toBigInt_hex_one toBigInt_dec_one toBigInt_dec_two toBigInt_hex_five toBigInt_malformed
  Number_hex_one Number_dec_one Number_dec_two Number_empty Number_dec_zero Number_malformed

subsection \<open>Integers that binary64 holds exactly\<close>

lemma bit_length_bounds:
  "0 < n \<Longrightarrow> 0 < bit_length n \<and> 2 ^ nat (bit_length n - 1) \<le> n \<and> n < 2 ^ nat (bit_length n)"
proof (induction n rule: bit_length.induct)
  case (1 n)
  show ?case
  proof (cases "n div 2 = 0")
    case True
    with "1.prems" have "n = 1" by presburger
    then show ?thesis by (simp add: bit_length.simps)
  next
    case False
    with "1.prems" have pos: "0 < n div 2" by presburger
    let ?b = "bit_length (n div 2)"
    from "1.IH" pos "1.prems" have ih: "0 < ?b" "2 ^ nat (?b - 1) \<le> n div 2" "n div 2 < 2 ^ nat ?b"
      by simp_all
    have bl: "bit_length n = 1 + ?b" using "1.prems" by (subst bit_length.simps) simp
    have e1: "nat (1 + ?b - 1) = Suc (nat (?b - 1))" using ih(1) by simp
    have e2: "nat (1 + ?b) = Suc (nat ?b)" using ih(1) by simp
    have "2 * 2 ^ nat (?b - 1) \<le> n" using ih(2) by presburger
    moreover have "n < 2 * 2 ^ nat ?b" using ih(3) by presburger
    moreover have "nat ?b = Suc (nat (?b - 1))" using ih(1) by simp
    ultimately show ?thesis using ih(1) by (simp add: bl e1 e2)
  qed
qed

lemma round_half_even_of_int: "round_half_even (of_int z) = z"
  by (simp add: round_half_even_def)

lemma floor_log2_of_int:
  assumes "0 < n"
  shows "floor_log2 (of_int n) = bit_length n - 1"
proof -
  from bit_length_bounds [OF assms] have b: "0 < bit_length n" "2 ^ nat (bit_length n - 1) \<le> n"
    by simp_all
  have one: "bit_length 1 = 1" by (simp add: bit_length.simps)
  have "(2::rat) ^ nat (bit_length n - 1) \<le> of_int n"
    using b(2) by (metis of_int_le_iff of_int_numeral of_int_power)
  then show ?thesis
    using b(1) by (simp add: floor_log2_def one pow2_def)
qed

lemma to_binary64_exact_pos:
  assumes "0 < n" "n < 2 ^ 53"
  shows "to_binary64 (of_int n) = Finite (of_int n)"
    and "to_binary64 (- of_int n) = Finite (- of_int n)"
proof -
  from bit_length_bounds [OF assms(1)] have b: "0 < bit_length n" "2 ^ nat (bit_length n - 1) \<le> n"
    by simp_all
  have "\<not> 53 \<le> nat (bit_length n - 1)"
  proof
    assume "53 \<le> nat (bit_length n - 1)"
    then have "(2::int) ^ 53 \<le> 2 ^ nat (bit_length n - 1)"
      by (rule power_increasing) simp
    with b(2) assms(2) show False by linarith
  qed
  then have le: "bit_length n \<le> 53" by linarith
  define m where "m = nat (53 - bit_length n)"
  have k: "max (bit_length n - 1) (- 1022) - 52 = - int m" using b(1) le by (simp add: m_def)
  have p: "pow2 (- int m) = 1 / 2 ^ m" by (cases "m = 0") (simp_all add: pow2_def)
  have r: "round_half_even (of_int n / pow2 (- int m)) = n * 2 ^ m"
    using round_half_even_of_int [of "n * 2 ^ m"] by (simp add: p)
  have v: "of_int (n * 2 ^ m) * pow2 (- int m) = (of_int n :: rat)"
    by (simp add: p)
  have a: "\<bar>rat_of_int n\<bar> = of_int n" "\<bar>- rat_of_int n\<bar> = of_int n"
    using assms(1) by simp_all
  have e: "floor_log2 (of_int n) \<noteq> 1023" "\<not> 1024 \<le> floor_log2 (of_int n)"
    using le by (simp_all add: floor_log2_of_int [OF assms(1)])
  have nz: "rat_of_int n \<noteq> 0" "- rat_of_int n \<noteq> 0" "\<not> rat_of_int n < 0" "- rat_of_int n < 0"
    using assms(1) by simp_all
  show "to_binary64 (of_int n) = Finite (of_int n)"
    unfolding to_binary64_def Let_def a
    using nz e v by (simp add: floor_log2_of_int [OF assms(1)] k r)
  show "to_binary64 (- of_int n) = Finite (- of_int n)"
    unfolding to_binary64_def Let_def a
    using nz e v by (simp add: floor_log2_of_int [OF assms(1)] k r)
qed

lemma to_binary64_exact:
  assumes "\<bar>n\<bar> < 2 ^ 53"
  shows "to_binary64 (of_int n) = Finite (of_int n)"
proof -
  consider "n = 0" | "0 < n" | "n < 0" by linarith
  then show ?thesis
  proof cases
    case 1
    then show ?thesis by (simp add: to_binary64_def)
  next
    case 2
    with assms show ?thesis by (simp add: to_binary64_exact_pos(1))
  next
    case 3
    with assms have "0 < - n" "- n < 2 ^ 53" by simp_all
    from to_binary64_exact_pos(2) [OF this] show ?thesis by simp
  qed
qed

lemma floor_numeral_quotient:
  "\<lfloor>(numeral a :: rat) / numeral b\<rfloor> = numeral a div numeral b"
  using floor_divide_of_int_eq [of "numeral a" "numeral b", where ?'a = rat] by simp

lemma timestamp_ms_exact:
  "\<bar>txn_timestamp txn * 1000\<bar> < 2 ^ 53 \<Longrightarrow>
   timestamp_ms txn = Finite (of_int (txn_timestamp txn * 1000))"
  using to_binary64_exact [of "txn_timestamp txn * 1000"] by (simp add: timestamp_ms_def)

subsection \<open>Finding in a list\<close>

lemma accepted_distinct: "ACCEPTED_ON_L1 \<noteq> ACCEPTED_ON_L2"
  by (simp add: ACCEPTED_ON_L1_def ACCEPTED_ON_L2_def)

lemma find_ref_found:
  "find_ref p xs = Inr (Some (i, x)) \<Longrightarrow> i < length xs \<and> xs ! i = x \<and> p x = Inr True"
proof (induction xs arbitrary: i)
  case Nil
  then show ?case by simp
next
  case (Cons a xs)
  then show ?case
    by (auto split: sum.splits if_splits option.splits)
qed

lemma find_ref_none: "find_ref p xs = Inr None \<Longrightarrow> \<forall>x\<in>set xs. p x = Inr False"
  by (induction xs) (auto split: sum.splits if_splits option.splits)

lemma find_ref_append_hit:
  "find_ref p xs = Inr None \<Longrightarrow> p y = Inr True \<Longrightarrow>
   find_ref p (xs @ [y]) = Inr (Some (length xs, y))"
  by (induction xs) (auto split: sum.splits if_splits option.splits)

lemma find_ref_append_miss:
  "find_ref p xs = Inr None \<Longrightarrow> p y = Inr False \<Longrightarrow> find_ref p (xs @ [y]) = Inr None"
  by (induction xs) (auto split: sum.splits if_splits option.splits)

lemma find_ref_append_other:
  "p y = Inr False \<Longrightarrow> find_ref p (xs @ [y]) = find_ref p xs"
  by (induction xs) (auto split: sum.splits if_splits option.splits)

lemma find_ref_update_other:
  "i < length xs \<Longrightarrow> p (xs ! i) = Inr False \<Longrightarrow> p y = Inr False \<Longrightarrow>
   find_ref p (xs[i := y]) = find_ref p xs"
proof (induction xs arbitrary: i)
  case Nil
  then show ?case by simp
next
  case (Cons a xs)
  then show ?case
    by (cases i) (auto split: sum.splits if_splits option.splits)
qed

lemma find_ref_update_hit:
  "find_ref p xs = Inr (Some (i, x)) \<Longrightarrow> p y = Inr True \<Longrightarrow>
   find_ref p (xs[i := y]) = Inr (Some (i, y))"
proof (induction xs arbitrary: i)
  case Nil
  then show ?case by simp
next
  case (Cons a xs)
  then show ?case
    by (cases i) (auto split: sum.splits if_splits option.splits)
qed

lemma find_ref_no_error:
  "\<forall>x\<in>set xs. \<exists>b. p x = Inr b \<Longrightarrow> \<exists>r. find_ref p xs = Inr r"
proof (induction xs)
  case Nil
  then show ?case by simp
next
  case (Cons a xs)
  then obtain b r where "p a = Inr b" "find_ref p xs = Inr r" by auto
  then show ?case by (cases r) auto
qed

lemma find_ref_hit_exists:
  "x \<in> set xs \<Longrightarrow> p x = Inr True \<Longrightarrow> \<forall>y\<in>set xs. \<exists>b. p y = Inr b \<Longrightarrow>
   \<exists>i y. find_ref p xs = Inr (Some (i, y)) \<and> y \<in> set xs \<and> p y = Inr True"
proof (induction xs)
  case Nil
  then show ?case by simp
next
  case (Cons a xs)
  then obtain b where b: "p a = Inr b" by auto
  show ?case
  proof (cases b)
    case True
    with b show ?thesis by auto
  next
    case False
    with b Cons.prems have "x \<in> set xs" by auto
    with Cons obtain i y where "find_ref p xs = Inr (Some (i, y))" "y \<in> set xs" "p y = Inr True"
      by auto
    with b False show ?thesis by auto
  qed
qed

subsection \<open>The host\<close>

lemma updates_log_event [simp]:
  "updates (log_event ev h) = updates h @ (case ev of HostUpdate s \<Rightarrow> [s] | _ \<Rightarrow> [])"
  by (simp add: updates_def log_event_def)

lemma updates_request_update [simp]: "updates (request_update s h) = updates h @ [s]"
  by (simp add: request_update_def updates_def log_event_def)

lemma persisted_log_event [simp]: "persisted (log_event ev h) = persisted h"
  by (simp add: log_event_def)

lemma persisted_request_update [simp]: "persisted (request_update s h) = s"
  by (simp add: request_update_def)

lemma trace_log_event [simp]: "trace (log_event ev h) = trace h @ [ev]"
  by (simp add: log_event_def)

lemma trace_request_update [simp]: "trace (request_update s h) = trace h @ [HostUpdate s]"
  by (simp add: request_update_def log_event_def)

lemma fetch_state_fst [simp]: "fst (fetch_state state h) = the_document state h"
  by (simp add: fetch_state_def the_document_def split: option.splits)

lemma fetch_state_updates [simp]: "updates (snd (fetch_state state h)) = updates h"
  by (simp add: fetch_state_def split: option.splits)

lemma fetch_state_persisted [simp]: "persisted (snd (fetch_state state h)) = persisted h"
  by (simp add: fetch_state_def split: option.splits)

lemma fetch_state_trace [simp]:
  "trace (snd (fetch_state state h)) = trace h @ (if state = None then [HostGet] else [])"
  by (simp add: fetch_state_def split: option.splits)

lemma the_document_log_event [simp]:
  "the_document state (log_event ev h) = the_document state h"
  by (simp add: the_document_def split: option.splits)

lemma the_document_supplied [simp]: "the_document (Some s) h = s"
  by (simp add: the_document_def)

lemma the_document_fetched [simp]: "the_document None h = persisted h"
  by (simp add: the_document_def)

section \<open>Pruning\<close>

text \<open>
  C1 (as amended). On a document whose transaction collection is present,
  \<^verbatim>\<open>removeAcceptedTransaction\<close> removes exactly the transactions whose finality
  status is \<^verbatim>\<open>ACCEPTED_ON_L1\<close>, whatever their timestamp, and those whose finality
  status is \<^verbatim>\<open>ACCEPTED_ON_L2\<close> and for which \<^verbatim>\<open>timestamp * 1000 >= cutoff\<close> is
  false, product and comparison being those of binary64 numbers. A transaction
  accepted on L2 for which the comparison is true is kept, a transaction in no
  accepted state is kept whatever its age, the order of the kept ones is theirs, and
  the rest of the document is untouched. For a timestamp whose product with 1000 is
  below \<open>2 ^ 53\<close> in magnitude and an integer cutoff, the comparison is that of the
  integers: the record is removed exactly when the timestamp in milliseconds is
  below the cutoff.
\<close>

theorem removeAcceptedTransaction_prunes:
  assumes "transactions (the_document state h) = Some txns"
  shows "fst (removeAcceptedTransaction minTimeStamp h state) =
           Inr ((the_document state h)\<lparr>transactions :=
                  Some (filter (\<lambda>txn. \<not> (txn_finalityStatus txn = ACCEPTED_ON_L1
                                          \<or> (txn_finalityStatus txn = ACCEPTED_ON_L2
                                              \<and> \<not> js_greater_equal (timestamp_ms txn)
                                                    minTimeStamp)))
                          txns)\<rparr>)
         \<and> (\<forall>txn cutoff. \<bar>txn_timestamp txn * 1000\<bar> < 2 ^ 53
               \<longrightarrow> (js_greater_equal (timestamp_ms txn) (Finite (of_int cutoff))
                      \<longleftrightarrow> cutoff \<le> txn_timestamp txn * 1000))"
proof -
  have "kept_by_pruning minTimeStamp =
          (\<lambda>txn. \<not> (txn_finalityStatus txn = ACCEPTED_ON_L1
                    \<or> (txn_finalityStatus txn = ACCEPTED_ON_L2
                        \<and> \<not> js_greater_equal (timestamp_ms txn) minTimeStamp)))"
    using accepted_distinct by (auto simp: kept_by_pruning_def fun_eq_iff)
  then have "fst (removeAcceptedTransaction minTimeStamp h state) =
           Inr ((the_document state h)\<lparr>transactions :=
                  Some (filter (\<lambda>txn. \<not> (txn_finalityStatus txn = ACCEPTED_ON_L1
                                          \<or> (txn_finalityStatus txn = ACCEPTED_ON_L2
                                              \<and> \<not> js_greater_equal (timestamp_ms txn)
                                                    minTimeStamp)))
                          txns)\<rparr>)"
    using assms
    by (simp add: removeAcceptedTransaction_def runExclusive_def Let_def split_beta)
  moreover have "js_greater_equal (timestamp_ms txn) (Finite (of_int cutoff))
      \<longleftrightarrow> cutoff \<le> txn_timestamp txn * 1000"
    if "\<bar>txn_timestamp txn * 1000\<bar> < 2 ^ 53" for txn cutoff
    using timestamp_ms_exact [OF that] by (simp only: js_greater_equal.simps of_int_le_iff)
  ultimately show ?thesis
    by blast
qed

theorem removeAcceptedTransaction_prunes_witness:
  "transactions
     (the_document
        (Some (empty_document\<lparr>transactions :=
                 Some [example_transaction ''0x1'' ''1'' ''0x5'' ACCEPTED_ON_L2 50,
                       example_transaction ''0x2'' ''1'' ''0x5'' ACCEPTED_ON_L2 150,
                       example_transaction ''0x3'' ''1'' ''0x5'' ''PENDING'' 10]\<rparr>))
        (idle_host empty_document)) =
     Some [example_transaction ''0x1'' ''1'' ''0x5'' ACCEPTED_ON_L2 50,
           example_transaction ''0x2'' ''1'' ''0x5'' ACCEPTED_ON_L2 150,
           example_transaction ''0x3'' ''1'' ''0x5'' ''PENDING'' 10]
   \<and> fst (removeAcceptedTransaction (Finite 100000) (idle_host empty_document)
        (Some (empty_document\<lparr>transactions :=
                 Some [example_transaction ''0x1'' ''1'' ''0x5'' ACCEPTED_ON_L2 50,
                       example_transaction ''0x2'' ''1'' ''0x5'' ACCEPTED_ON_L2 150,
                       example_transaction ''0x3'' ''1'' ''0x5'' ''PENDING'' 10]\<rparr>))) =
     Inr (empty_document\<lparr>transactions :=
            Some [example_transaction ''0x2'' ''1'' ''0x5'' ACCEPTED_ON_L2 150,
                  example_transaction ''0x3'' ''1'' ''0x5'' ''PENDING'' 10]\<rparr>)"
proof -
  let ?old = "example_transaction ''0x1'' ''1'' ''0x5'' ACCEPTED_ON_L2 50"
  let ?recent = "example_transaction ''0x2'' ''1'' ''0x5'' ACCEPTED_ON_L2 150"
  let ?pending = "example_transaction ''0x3'' ''1'' ''0x5'' ''PENDING'' 10"
  let ?doc = "empty_document\<lparr>transactions := Some [?old, ?recent, ?pending]\<rparr>"
  have present: "transactions (the_document (Some ?doc) (idle_host empty_document))
      = Some [?old, ?recent, ?pending]"
    by simp
  note run = removeAcceptedTransaction_prunes [OF present, of "Finite 100000"]
  have small: "\<bar>txn_timestamp ?old * 1000\<bar> < 2 ^ 53" "\<bar>txn_timestamp ?recent * 1000\<bar> < 2 ^ 53"
    by (simp_all add: example_transaction_def)
  have cmp: "\<not> js_greater_equal (timestamp_ms ?old) (Finite 100000)"
    "js_greater_equal (timestamp_ms ?recent) (Finite 100000)"
    using run [THEN conjunct2, rule_format, OF small(1), of 100000]
      run [THEN conjunct2, rule_format, OF small(2), of 100000]
    by (simp_all add: example_transaction_def)
  have status: "txn_finalityStatus ?old = ACCEPTED_ON_L2"
    "txn_finalityStatus ?recent = ACCEPTED_ON_L2"
    "txn_finalityStatus ?pending \<noteq> ACCEPTED_ON_L2"
    "txn_finalityStatus ?pending \<noteq> ACCEPTED_ON_L1"
    by (simp_all add: example_transaction_def ACCEPTED_ON_L1_def ACCEPTED_ON_L2_def)
  from run [THEN conjunct1] present cmp status accepted_distinct show ?thesis
    by simp
qed

text \<open>
  A transaction accepted on L1 at 150 s is accepted and not older than the cutoff of
  100000 ms, and it is removed.
\<close>

theorem removeAcceptedTransaction_drops_recent_L1:
  "txn_finalityStatus (example_transaction ''0x4'' ''1'' ''0x5'' ACCEPTED_ON_L1 150) = ACCEPTED_ON_L1
   \<and> 100000 \<le> txn_timestamp (example_transaction ''0x4'' ''1'' ''0x5'' ACCEPTED_ON_L1 150) * 1000
   \<and> fst (removeAcceptedTransaction (Finite 100000) (idle_host empty_document)
        (Some (empty_document\<lparr>transactions :=
                 Some [example_transaction ''0x4'' ''1'' ''0x5'' ACCEPTED_ON_L1 150]\<rparr>))) =
     Inr (empty_document\<lparr>transactions := Some []\<rparr>)"
  using accepted_distinct
  by (simp add: removeAcceptedTransaction_def runExclusive_def fetch_state_def Let_def
      kept_by_pruning_def example_transaction_def)

text \<open>
  Beyond \<open>2 ^ 53\<close> the product is rounded: at 72057594037931 s the timestamp in
  milliseconds is 72057594037931000, eight below the cutoff 72057594037931008, the
  binary64 product is the cutoff itself, and the record is kept.
\<close>

lemma removeAcceptedTransaction_rounds_product:
  "72057594037931 * 1000 < (72057594037931008 :: int)
   \<and> timestamp_ms (example_transaction ''0x1'' ''1'' ''0x5'' ACCEPTED_ON_L2 72057594037931)
       = Finite 72057594037931008
   \<and> fst (removeAcceptedTransaction (Finite 72057594037931008) (idle_host empty_document)
        (Some (empty_document\<lparr>transactions :=
                 Some [example_transaction ''0x1'' ''1'' ''0x5'' ACCEPTED_ON_L2 72057594037931]\<rparr>))) =
     Inr (empty_document\<lparr>transactions :=
            Some [example_transaction ''0x1'' ''1'' ''0x5'' ACCEPTED_ON_L2 72057594037931]\<rparr>)"
proof -
  have ms: "timestamp_ms (example_transaction ''0x1'' ''1'' ''0x5'' ACCEPTED_ON_L2 72057594037931)
       = Finite 72057594037931008"
    by (simp add: timestamp_ms_def example_transaction_def binary64_defs
        floor_numeral_quotient)
  then show ?thesis
    by (simp add: removeAcceptedTransaction_def runExclusive_def fetch_state_def Let_def
        kept_by_pruning_def) (simp add: example_transaction_def)
qed

section \<open>Upserts\<close>

lemma getAccount_ref_found:
  assumes "getAccount_ref s a c = Inr (Some (i, x))"
  shows "\<exists>accs. accContracts s = Some accs \<and> i < length accs \<and> accs ! i = x"
  using assms find_ref_found
  by (fastforce simp: getAccount_ref_def split: option.splits)

text \<open>
  C3. When the locator finds the stored account \<open>A1\<close> for the key of the incoming
  account \<open>A2\<close>, \<^verbatim>\<open>upsertAccount\<close> leaves a document that differs from the one it
  worked on at most in that one record, whose address and chain id are those of
  \<open>A1\<close>, whose salt, index, derivation path and public key are those of \<open>A2\<close>, and
  whose deploy transaction hash is that of \<open>A2\<close> when \<open>A2\<close> has one, else that of
  \<open>A1\<close>.
\<close>

theorem upsertAccount_merge_frame:
  assumes "getAccount_ref (the_document state h) (acc_address A2) (acc_chainId A2)
             = Inr (Some (i, A1))"
  shows "\<exists>accs. accContracts (the_document state h) = Some accs \<and> i < length accs
     \<and> accs ! i = A1
     \<and> fst (upsertAccount A2 h state) =
         Inr ((the_document state h)\<lparr>accContracts := Some (accs[i :=
                A1\<lparr>acc_addressSalt := acc_addressSalt A2,
                   acc_addressIndex := acc_addressIndex A2,
                   acc_derivationPath := acc_derivationPath A2,
                   acc_publicKey := acc_publicKey A2,
                   acc_deployTxnHash :=
                     (if truthy (acc_deployTxnHash A2) then acc_deployTxnHash A2
                      else acc_deployTxnHash A1)\<rparr>])\<rparr>)"
proof -
  let ?doc = "the_document state h"
  obtain accs where accs: "accContracts ?doc = Some accs" "i < length accs" "accs ! i = A1"
    using getAccount_ref_found [OF assms] by blast
  show ?thesis
  proof (cases "A1 = A2")
    case True
    have "accs[i := accs ! i] = accs" by simp
    then have "accs[i := A1] = accs" using accs by simp
    then have "?doc\<lparr>accContracts := Some (accs[i := A1])\<rparr> = ?doc" using accs by simp
    with True accs assms show ?thesis
      by (simp add: upsertAccount_def runExclusive_def Let_def split_beta toJson_equal_def)
  next
    case False
    with accs assms show ?thesis
      by (simp add: upsertAccount_def runExclusive_def Let_def split_beta toJson_equal_def
          merge_account_def js_or_def or_empty_def)
  qed
qed

theorem upsertAccount_merge_frame_witness:
  "getAccount_ref
     (the_document
        (Some (empty_document\<lparr>accContracts :=
                 Some [(example_account ''0x1'' ''1'' 0)\<lparr>acc_deployTxnHash := Some ''0xabc''\<rparr>]\<rparr>))
        (idle_host empty_document))
     (acc_address (example_account ''1'' ''0x1'' 5)) (acc_chainId (example_account ''1'' ''0x1'' 5))
     = Inr (Some (0, (example_account ''0x1'' ''1'' 0)\<lparr>acc_deployTxnHash := Some ''0xabc''\<rparr>))
   \<and> fst (upsertAccount (example_account ''1'' ''0x1'' 5) (idle_host empty_document)
        (Some (empty_document\<lparr>accContracts :=
                 Some [(example_account ''0x1'' ''1'' 0)\<lparr>acc_deployTxnHash := Some ''0xabc''\<rparr>]\<rparr>)))
     = Inr (empty_document\<lparr>accContracts :=
              Some [(example_account ''0x1'' ''1'' 5)\<lparr>acc_deployTxnHash := Some ''0xabc''\<rparr>]\<rparr>)"
proof -
  let ?A1 = "(example_account ''0x1'' ''1'' 0)\<lparr>acc_deployTxnHash := Some ''0xabc''\<rparr>"
  let ?doc = "empty_document\<lparr>accContracts := Some [?A1]\<rparr>"
  have found: "getAccount_ref (the_document (Some ?doc) (idle_host empty_document))
      (acc_address (example_account ''1'' ''0x1'' 5)) (acc_chainId (example_account ''1'' ''0x1'' 5))
      = Inr (Some (0, ?A1))"
    by (simp add: getAccount_ref_def account_matches_def example_account_def literal_values
        strict_equals_def)
  from upsertAccount_merge_frame [OF found] found show ?thesis
    by (auto simp: example_account_def truthy_def)
qed

subsection \<open>The batch upsert completes when the hashes are integer literals\<close>

lemma transaction_matches_total:
  "toBigInt (txn_txnHash t) \<noteq> None \<Longrightarrow> \<exists>b. transaction_matches v c t = Inr b"
  by (auto simp: transaction_matches_def)

lemma getTransaction_ref_total:
  assumes "toBigInt txnHash \<noteq> None" "hashes_parse (or_empty (transactions s))"
  shows "\<exists>r. getTransaction_ref s txnHash chainId = Inr r"
proof -
  obtain v where v: "toBigInt txnHash = Some v" using assms(1) by auto
  have "\<exists>r. find_ref (transaction_matches v chainId) (or_empty (transactions s)) = Inr r"
    using assms(2) transaction_matches_total
    by (intro find_ref_no_error) (auto simp: hashes_parse_def list_all_iff)
  then show ?thesis using v
    by (auto simp: getTransaction_ref_def or_empty_def split: option.splits)
qed

lemma getTransaction_ref_found:
  assumes "getTransaction_ref s a c = Inr (Some (i, x))"
  shows "i < length (or_empty (transactions s)) \<and> or_empty (transactions s) ! i = x"
  using assms find_ref_found
  by (fastforce simp: getTransaction_ref_def or_empty_def split: option.splits)

lemma upsert_one_ok:
  assumes "toBigInt (txn_txnHash t) \<noteq> None" "hashes_parse (or_empty (transactions s))"
  shows "\<exists>s'. upsert_one t s = Inr s' \<and> hashes_parse (or_empty (transactions s'))"
proof -
  obtain r where r: "getTransaction_ref s (txn_txnHash t) (txn_chainId t) = Inr r"
    using getTransaction_ref_total [OF assms] by blast
  show ?thesis
  proof (cases r)
    case None
    with r assms show ?thesis
      by (simp add: upsert_one_def hashes_parse_def or_empty_def)
  next
    case (Some a)
    obtain i stored where a: "a = (i, stored)" by (cases a)
    have "stored \<in> set (or_empty (transactions s))"
      using getTransaction_ref_found [of s _ _ i stored] r Some a by (metis nth_mem)
    then have "toBigInt (txn_txnHash (merge_transaction stored t)) \<noteq> None"
      using assms(2) by (simp add: merge_transaction_def hashes_parse_def list_all_iff)
    then have "hashes_parse ((or_empty (transactions s))[i := merge_transaction stored t])"
      using assms(2) set_update_subset_insert [of "or_empty (transactions s)" i]
      by (auto simp: hashes_parse_def list_all_iff)
    with r Some a show ?thesis
      by (simp add: upsert_one_def or_empty_def)
  qed
qed

lemma upsert_each_ok:
  "hashes_parse txns \<Longrightarrow> hashes_parse (or_empty (transactions s)) \<Longrightarrow>
   \<exists>s'. upsert_each txns s = Inr s'"
proof (induction txns arbitrary: s)
  case Nil
  then show ?case by simp
next
  case (Cons t txns)
  then obtain s1 where "upsert_one t s = Inr s1" "hashes_parse (or_empty (transactions s1))"
    using upsert_one_ok [of t s] by (auto simp: hashes_parse_def)
  with Cons show ?case by (auto simp: hashes_parse_def)
qed

subsection \<open>Upserting the same record twice\<close>

lemma twice_writes_onceI:
  assumes "fst (upsert h state) = Inr s1"
    and "updates (snd (upsert h state)) = updates h @ [s1]"
    and "fst (upsert (snd (upsert h state)) None) = Inr s1"
    and "updates (snd (upsert (snd (upsert h state)) None)) = updates (snd (upsert h state))"
    and "fst (upsert (snd (upsert h state)) (Some s1)) = Inr s1"
    and "updates (snd (upsert (snd (upsert h state)) (Some s1))) = updates (snd (upsert h state))"
  shows "twice_writes_once upsert h state"
  using assms by (cases "upsert h state") (simp add: twice_writes_once_def)

lemma twice_writes_onceD:
  assumes "twice_writes_once upsert h state"
  shows "\<exists>s1. fst (upsert h state) = Inr s1
    \<and> updates (snd (upsert h state)) = updates h @ [s1]
    \<and> updates (snd (upsert (snd (upsert h state)) (Some s1))) = updates (snd (upsert h state))"
  using assms
  by (cases "upsert h state") (auto simp: twice_writes_once_def split: sum.splits)

lemma twice_writes_twiceI:
  assumes "fst (upsert h state) = Inr s1"
    and "updates (snd (upsert h state)) = updates h @ [s1]"
    and "fst (upsert (snd (upsert h state)) None) = Inr s2"
    and "updates (snd (upsert (snd (upsert h state)) None)) = updates (snd (upsert h state)) @ [s2]"
    and "fst (upsert (snd (upsert h state)) (Some s1)) = Inr s3"
    and "updates (snd (upsert (snd (upsert h state)) (Some s1)))
           = updates (snd (upsert h state)) @ [s3]"
  shows "twice_writes_twice upsert h state"
proof -
  obtain r1 h1 where c1: "upsert h state = (r1, h1)" by (cases "upsert h state")
  obtain r2 h2 where c2: "upsert h1 None = (r2, h2)" by (cases "upsert h1 None")
  obtain r3 h3 where c3: "upsert h1 (Some s1) = (r3, h3)" by (cases "upsert h1 (Some s1)")
  from assms c1 c2 c3 show ?thesis
    by (simp add: twice_writes_twice_def)
qed

text \<open>Accounts.\<close>

lemma account_matches_self:
  "toBigInt (acc_address u) = Some v \<Longrightarrow> Number (acc_chainId u) \<noteq> NaN \<Longrightarrow>
   account_matches v (acc_chainId u) u = Inr True"
  by (simp add: account_matches_def strict_equals_def)

lemma account_matches_self_not:
  "toBigInt (acc_address u) = Some v \<Longrightarrow> Number (acc_chainId u) = NaN \<Longrightarrow>
   account_matches v (acc_chainId u) u = Inr False"
  by (simp add: account_matches_def strict_equals_def)

lemma account_matches_merged:
  "account_matches v c (merge_account stored u) = account_matches v c stored"
proof -
  have "acc_address (merge_account stored u) = acc_address stored" "acc_chainId (merge_account stored u) = acc_chainId stored"
    by (simp_all add: merge_account_def)
  then show ?thesis
    by (simp only: account_matches_def)
qed

lemma merge_account_same: "merge_account u u = u"
  by (simp add: merge_account_def js_or_def)

lemma merge_account_twice:
  "merge_account (merge_account stored u) u = merge_account stored u"
  by (simp add: merge_account_def js_or_def)

lemma upsertAccount_throws:
  assumes "getAccount_ref (the_document state h) (acc_address u) (acc_chainId u) = Inl e"
  shows "fst (upsertAccount u h state) = Inl e"
  using assms
  by (simp add: upsertAccount_def runExclusive_def Let_def split_beta)

lemma upsertAccount_inserts:
  assumes "getAccount_ref (the_document state h) (acc_address u) (acc_chainId u) = Inr None"
  defines "s1 \<equiv> (the_document state h)
      \<lparr>accContracts := Some (or_empty (accContracts (the_document state h)) @ [u])\<rparr>"
  shows "fst (upsertAccount u h state) = Inr s1"
    and "updates (snd (upsertAccount u h state)) = updates h @ [s1]"
    and "persisted (snd (upsertAccount u h state)) = s1"
  using assms
  by (simp_all add: upsertAccount_def runExclusive_def Let_def split_beta)

lemma upsertAccount_skips:
  assumes "getAccount_ref (the_document state h) (acc_address u) (acc_chainId u)
             = Inr (Some (i, u))"
  shows "fst (upsertAccount u h state) = Inr (the_document state h)"
    and "updates (snd (upsertAccount u h state)) = updates h"
  using assms
  by (simp_all add: upsertAccount_def runExclusive_def Let_def split_beta toJson_equal_def)

lemma upsertAccount_merges:
  assumes "getAccount_ref (the_document state h) (acc_address u) (acc_chainId u)
             = Inr (Some (i, stored))"
    and "stored \<noteq> u"
  defines "s1 \<equiv> (the_document state h)
      \<lparr>accContracts := Some ((or_empty (accContracts (the_document state h)))
                                [i := merge_account stored u])\<rparr>"
  shows "fst (upsertAccount u h state) = Inr s1"
    and "updates (snd (upsertAccount u h state)) = updates h @ [s1]"
    and "persisted (snd (upsertAccount u h state)) = s1"
  using assms
  by (simp_all add: upsertAccount_def runExclusive_def Let_def split_beta toJson_equal_def)

lemma getAccount_ref_after_insert:
  assumes "getAccount_ref s (acc_address u) (acc_chainId u) = Inr None"
  shows "getAccount_ref (s\<lparr>accContracts := Some (or_empty (accContracts s) @ [u])\<rparr>)
           (acc_address u) (acc_chainId u)
         = (if Number (acc_chainId u) = NaN then Inr None
            else Inr (Some (length (or_empty (accContracts s)), u)))"
proof -
  obtain v where v: "toBigInt (acc_address u) = Some v"
    using assms by (auto simp: getAccount_ref_def split: option.splits)
  have "find_ref (account_matches v (acc_chainId u)) (or_empty (accContracts s)) = Inr None"
    using assms v by (auto simp: getAccount_ref_def or_empty_def split: option.splits)
  then show ?thesis
    using v
    by (simp add: getAccount_ref_def find_ref_append_hit find_ref_append_miss
        account_matches_self account_matches_self_not)
qed

lemma getAccount_ref_after_merge:
  assumes "getAccount_ref s (acc_address u) (acc_chainId u) = Inr (Some (i, stored))"
  shows "getAccount_ref
           (s\<lparr>accContracts := Some ((or_empty (accContracts s))[i := merge_account stored u])\<rparr>)
           (acc_address u) (acc_chainId u)
         = Inr (Some (i, merge_account stored u))"
proof -
  obtain v where v: "toBigInt (acc_address u) = Some v"
    using assms by (auto simp: getAccount_ref_def split: option.splits)
  have f: "find_ref (account_matches v (acc_chainId u)) (or_empty (accContracts s))
             = Inr (Some (i, stored))"
    using assms v by (auto simp: getAccount_ref_def or_empty_def split: option.splits)
  have "account_matches v (acc_chainId u) stored = Inr True"
    using find_ref_found [OF f] by simp
  then have "account_matches v (acc_chainId u) (merge_account stored u) = Inr True"
    by (simp only: account_matches_merged)
  then show ?thesis
    using v f by (simp add: getAccount_ref_def find_ref_update_hit)
qed

lemma upsertAccount_twice:
  assumes "(getAccount_ref (the_document state h) (acc_address u) (acc_chainId u) = Inr None
            \<and> Number (acc_chainId u) \<noteq> NaN)
         \<or> (\<exists>i stored.
               getAccount_ref (the_document state h) (acc_address u) (acc_chainId u)
                 = Inr (Some (i, stored))
               \<and> stored \<noteq> u \<and> merge_account stored u = u)"
  shows "twice_writes_once (upsertAccount u) h state"
proof -
  let ?h1 = "snd (upsertAccount u h state)"
  from assms have "\<exists>s1 j. fst (upsertAccount u h state) = Inr s1
      \<and> updates ?h1 = updates h @ [s1] \<and> persisted ?h1 = s1
      \<and> getAccount_ref s1 (acc_address u) (acc_chainId u) = Inr (Some (j, u))"
  proof
    assume a: "getAccount_ref (the_document state h) (acc_address u) (acc_chainId u) = Inr None
      \<and> Number (acc_chainId u) \<noteq> NaN"
    with upsertAccount_inserts [of state h u] getAccount_ref_after_insert [of "the_document state h" u]
    show ?thesis by auto
  next
    assume "\<exists>i stored.
               getAccount_ref (the_document state h) (acc_address u) (acc_chainId u)
                 = Inr (Some (i, stored))
               \<and> stored \<noteq> u \<and> merge_account stored u = u"
    then obtain i stored where a:
      "getAccount_ref (the_document state h) (acc_address u) (acc_chainId u) = Inr (Some (i, stored))"
      "stored \<noteq> u" "merge_account stored u = u" by blast
    with upsertAccount_merges [of state h u i stored]
      getAccount_ref_after_merge [of "the_document state h" u i stored]
    show ?thesis by auto
  qed
  then obtain s1 j where s1: "fst (upsertAccount u h state) = Inr s1"
    "updates ?h1 = updates h @ [s1]" "persisted ?h1 = s1"
    "getAccount_ref s1 (acc_address u) (acc_chainId u) = Inr (Some (j, u))"
    by blast
  have fetched: "getAccount_ref (the_document None ?h1) (acc_address u) (acc_chainId u)
      = Inr (Some (j, u))"
    using s1 by simp
  have given: "getAccount_ref (the_document (Some s1) ?h1) (acc_address u) (acc_chainId u)
      = Inr (Some (j, u))"
    using s1 by simp
  show ?thesis
    using s1 upsertAccount_skips [OF fetched] upsertAccount_skips [OF given]
    by (intro twice_writes_onceI [where ?s1.0 = s1]) simp_all
qed

lemma upsertAccount_twice_again:
  assumes "getAccount_ref (the_document state h) (acc_address u) (acc_chainId u)
             = Inr (Some (i, stored))"
    and "merge_account stored u \<noteq> u"
  shows "twice_writes_twice (upsertAccount u) h state"
proof -
  let ?h1 = "snd (upsertAccount u h state)"
  let ?m = "merge_account stored u"
  have differ: "stored \<noteq> u"
    using assms(2) merge_account_same by auto
  define s1 where "s1 = (the_document state h)
      \<lparr>accContracts := Some ((or_empty (accContracts (the_document state h)))[i := ?m])\<rparr>"
  have first: "fst (upsertAccount u h state) = Inr s1" "updates ?h1 = updates h @ [s1]"
    "persisted ?h1 = s1"
    using upsertAccount_merges [OF assms(1) differ] by (simp_all add: s1_def)
  have again: "getAccount_ref s1 (acc_address u) (acc_chainId u) = Inr (Some (i, ?m))"
    using getAccount_ref_after_merge [OF assms(1)] by (simp add: s1_def)
  have fetched: "getAccount_ref (the_document None ?h1) (acc_address u) (acc_chainId u)
      = Inr (Some (i, ?m))"
    using again first by simp
  have given: "getAccount_ref (the_document (Some s1) ?h1) (acc_address u) (acc_chainId u)
      = Inr (Some (i, ?m))"
    using again by simp
  show ?thesis
    using first upsertAccount_merges(1,2) [OF fetched assms(2)]
      upsertAccount_merges(1,2) [OF given assms(2)]
    by (intro twice_writes_twiceI [where ?s1.0 = s1]) simp_all
qed

lemma upsertAccount_twice_only:
  assumes "twice_writes_once (upsertAccount u) h state"
  shows "(getAccount_ref (the_document state h) (acc_address u) (acc_chainId u) = Inr None
            \<and> Number (acc_chainId u) \<noteq> NaN)
         \<or> (\<exists>i stored.
               getAccount_ref (the_document state h) (acc_address u) (acc_chainId u)
                 = Inr (Some (i, stored))
               \<and> stored \<noteq> u \<and> merge_account stored u = u)"
proof -
  let ?h1 = "snd (upsertAccount u h state)"
  obtain s1 where once: "fst (upsertAccount u h state) = Inr s1"
    "updates ?h1 = updates h @ [s1]"
    "updates (snd (upsertAccount u ?h1 (Some s1))) = updates ?h1"
    using twice_writes_onceD [OF assms] by blast
  show ?thesis
  proof (cases "getAccount_ref (the_document state h) (acc_address u) (acc_chainId u)")
    case (Inl e)
    from upsertAccount_throws [OF Inl] once(1) show ?thesis by simp
  next
    case (Inr r)
    show ?thesis
    proof (cases r)
      case None
      show ?thesis
      proof (cases "Number (acc_chainId u) = NaN")
        case False
        with Inr None show ?thesis by simp
      next
        case True
        have found: "getAccount_ref (the_document state h) (acc_address u) (acc_chainId u) = Inr None"
          using Inr None by simp
        have s1: "s1 = (the_document state h)
            \<lparr>accContracts := Some (or_empty (accContracts (the_document state h)) @ [u])\<rparr>"
          using upsertAccount_inserts(1) [OF found] once(1) by simp
        have "getAccount_ref (the_document (Some s1) ?h1) (acc_address u) (acc_chainId u) = Inr None"
          using getAccount_ref_after_insert [OF found] True by (simp add: s1)
        from upsertAccount_inserts(2) [OF this] once(3) show ?thesis by simp
      qed
    next
      case (Some a)
      obtain i stored where a: "a = (i, stored)" by (cases a)
      have found: "getAccount_ref (the_document state h) (acc_address u) (acc_chainId u)
          = Inr (Some (i, stored))"
        using Inr Some a by simp
      show ?thesis
      proof (cases "stored = u")
        case True
        with upsertAccount_skips(2) [of state h u i] found once(2) show ?thesis by simp
      next
        case differ: False
        show ?thesis
        proof (cases "merge_account stored u = u")
          case True
          with found differ show ?thesis by blast
        next
          case False
          have s1: "s1 = (the_document state h)
              \<lparr>accContracts := Some ((or_empty (accContracts (the_document state h)))
                                        [i := merge_account stored u])\<rparr>"
            using upsertAccount_merges(1) [OF found differ] once(1) by simp
          have "getAccount_ref (the_document (Some s1) ?h1) (acc_address u) (acc_chainId u)
              = Inr (Some (i, merge_account stored u))"
            using getAccount_ref_after_merge [OF found] by (simp add: s1)
          from upsertAccount_merges(2) [OF this False] once(3) show ?thesis by simp
        qed
      qed
    qed
  qed
qed

lemma merge_account_fixes:
  "merge_account stored u = u
   \<longleftrightarrow> acc_address stored = acc_address u \<and> acc_chainId stored = acc_chainId u
       \<and> (truthy (acc_deployTxnHash u) \<or> acc_deployTxnHash stored = acc_deployTxnHash u)"
  by (cases stored; cases u) (auto simp: merge_account_def js_or_def)

text \<open>Tokens.\<close>

lemma token_matches_self:
  "toBigInt (tok_address u) = Some v \<Longrightarrow> Number (tok_chainId u) \<noteq> NaN \<Longrightarrow>
   token_matches v (tok_chainId u) u = Inr True"
  by (simp add: token_matches_def strict_equals_def)

lemma token_matches_self_not:
  "toBigInt (tok_address u) = Some v \<Longrightarrow> Number (tok_chainId u) = NaN \<Longrightarrow>
   token_matches v (tok_chainId u) u = Inr False"
  by (simp add: token_matches_def strict_equals_def)

lemma token_matches_merged:
  "token_matches v c (merge_token stored u) = token_matches v c stored"
proof -
  have "tok_address (merge_token stored u) = tok_address stored" "tok_chainId (merge_token stored u) = tok_chainId stored"
    by (simp_all add: merge_token_def)
  then show ?thesis
    by (simp only: token_matches_def)
qed

lemma merge_token_same: "merge_token u u = u"
  by (simp add: merge_token_def )

lemma merge_token_twice:
  "merge_token (merge_token stored u) u = merge_token stored u"
  by (simp add: merge_token_def )

lemma upsertErc20Token_throws:
  assumes "getErc20Token_ref (the_document state h) (tok_address u) (tok_chainId u) = Inl e"
  shows "fst (upsertErc20Token u h state) = Inl e"
  using assms
  by (simp add: upsertErc20Token_def runExclusive_def Let_def split_beta)

lemma upsertErc20Token_inserts:
  assumes "getErc20Token_ref (the_document state h) (tok_address u) (tok_chainId u) = Inr None"
  defines "s1 \<equiv> (the_document state h)
      \<lparr>erc20Tokens := Some (or_empty (erc20Tokens (the_document state h)) @ [u])\<rparr>"
  shows "fst (upsertErc20Token u h state) = Inr s1"
    and "updates (snd (upsertErc20Token u h state)) = updates h @ [s1]"
    and "persisted (snd (upsertErc20Token u h state)) = s1"
  using assms
  by (simp_all add: upsertErc20Token_def runExclusive_def Let_def split_beta)

lemma upsertErc20Token_skips:
  assumes "getErc20Token_ref (the_document state h) (tok_address u) (tok_chainId u)
             = Inr (Some (i, u))"
  shows "fst (upsertErc20Token u h state) = Inr (the_document state h)"
    and "updates (snd (upsertErc20Token u h state)) = updates h"
  using assms
  by (simp_all add: upsertErc20Token_def runExclusive_def Let_def split_beta toJson_equal_def)

lemma upsertErc20Token_merges:
  assumes "getErc20Token_ref (the_document state h) (tok_address u) (tok_chainId u)
             = Inr (Some (i, stored))"
    and "stored \<noteq> u"
  defines "s1 \<equiv> (the_document state h)
      \<lparr>erc20Tokens := Some ((or_empty (erc20Tokens (the_document state h)))
                                [i := merge_token stored u])\<rparr>"
  shows "fst (upsertErc20Token u h state) = Inr s1"
    and "updates (snd (upsertErc20Token u h state)) = updates h @ [s1]"
    and "persisted (snd (upsertErc20Token u h state)) = s1"
  using assms
  by (simp_all add: upsertErc20Token_def runExclusive_def Let_def split_beta toJson_equal_def)

lemma getErc20Token_ref_after_insert:
  assumes "getErc20Token_ref s (tok_address u) (tok_chainId u) = Inr None"
  shows "getErc20Token_ref (s\<lparr>erc20Tokens := Some (or_empty (erc20Tokens s) @ [u])\<rparr>)
           (tok_address u) (tok_chainId u)
         = (if Number (tok_chainId u) = NaN then Inr None
            else Inr (Some (length (or_empty (erc20Tokens s)), u)))"
proof -
  obtain v where v: "toBigInt (tok_address u) = Some v"
    using assms by (auto simp: getErc20Token_ref_def split: option.splits)
  have "find_ref (token_matches v (tok_chainId u)) (or_empty (erc20Tokens s)) = Inr None"
    using assms v by (auto simp: getErc20Token_ref_def or_empty_def split: option.splits)
  then show ?thesis
    using v
    by (simp add: getErc20Token_ref_def find_ref_append_hit find_ref_append_miss
        token_matches_self token_matches_self_not)
qed

lemma getErc20Token_ref_after_merge:
  assumes "getErc20Token_ref s (tok_address u) (tok_chainId u) = Inr (Some (i, stored))"
  shows "getErc20Token_ref
           (s\<lparr>erc20Tokens := Some ((or_empty (erc20Tokens s))[i := merge_token stored u])\<rparr>)
           (tok_address u) (tok_chainId u)
         = Inr (Some (i, merge_token stored u))"
proof -
  obtain v where v: "toBigInt (tok_address u) = Some v"
    using assms by (auto simp: getErc20Token_ref_def split: option.splits)
  have f: "find_ref (token_matches v (tok_chainId u)) (or_empty (erc20Tokens s))
             = Inr (Some (i, stored))"
    using assms v by (auto simp: getErc20Token_ref_def or_empty_def split: option.splits)
  have "token_matches v (tok_chainId u) stored = Inr True"
    using find_ref_found [OF f] by simp
  then have "token_matches v (tok_chainId u) (merge_token stored u) = Inr True"
    by (simp only: token_matches_merged)
  then show ?thesis
    using v f by (simp add: getErc20Token_ref_def find_ref_update_hit)
qed

lemma upsertErc20Token_twice:
  assumes "(getErc20Token_ref (the_document state h) (tok_address u) (tok_chainId u) = Inr None
            \<and> Number (tok_chainId u) \<noteq> NaN)
         \<or> (\<exists>i stored.
               getErc20Token_ref (the_document state h) (tok_address u) (tok_chainId u)
                 = Inr (Some (i, stored))
               \<and> stored \<noteq> u \<and> merge_token stored u = u)"
  shows "twice_writes_once (upsertErc20Token u) h state"
proof -
  let ?h1 = "snd (upsertErc20Token u h state)"
  from assms have "\<exists>s1 j. fst (upsertErc20Token u h state) = Inr s1
      \<and> updates ?h1 = updates h @ [s1] \<and> persisted ?h1 = s1
      \<and> getErc20Token_ref s1 (tok_address u) (tok_chainId u) = Inr (Some (j, u))"
  proof
    assume a: "getErc20Token_ref (the_document state h) (tok_address u) (tok_chainId u) = Inr None
      \<and> Number (tok_chainId u) \<noteq> NaN"
    with upsertErc20Token_inserts [of state h u] getErc20Token_ref_after_insert [of "the_document state h" u]
    show ?thesis by auto
  next
    assume "\<exists>i stored.
               getErc20Token_ref (the_document state h) (tok_address u) (tok_chainId u)
                 = Inr (Some (i, stored))
               \<and> stored \<noteq> u \<and> merge_token stored u = u"
    then obtain i stored where a:
      "getErc20Token_ref (the_document state h) (tok_address u) (tok_chainId u) = Inr (Some (i, stored))"
      "stored \<noteq> u" "merge_token stored u = u" by blast
    with upsertErc20Token_merges [of state h u i stored]
      getErc20Token_ref_after_merge [of "the_document state h" u i stored]
    show ?thesis by auto
  qed
  then obtain s1 j where s1: "fst (upsertErc20Token u h state) = Inr s1"
    "updates ?h1 = updates h @ [s1]" "persisted ?h1 = s1"
    "getErc20Token_ref s1 (tok_address u) (tok_chainId u) = Inr (Some (j, u))"
    by blast
  have fetched: "getErc20Token_ref (the_document None ?h1) (tok_address u) (tok_chainId u)
      = Inr (Some (j, u))"
    using s1 by simp
  have given: "getErc20Token_ref (the_document (Some s1) ?h1) (tok_address u) (tok_chainId u)
      = Inr (Some (j, u))"
    using s1 by simp
  show ?thesis
    using s1 upsertErc20Token_skips [OF fetched] upsertErc20Token_skips [OF given]
    by (intro twice_writes_onceI [where ?s1.0 = s1]) simp_all
qed

lemma upsertErc20Token_twice_again:
  assumes "getErc20Token_ref (the_document state h) (tok_address u) (tok_chainId u)
             = Inr (Some (i, stored))"
    and "merge_token stored u \<noteq> u"
  shows "twice_writes_twice (upsertErc20Token u) h state"
proof -
  let ?h1 = "snd (upsertErc20Token u h state)"
  let ?m = "merge_token stored u"
  have differ: "stored \<noteq> u"
    using assms(2) merge_token_same by auto
  define s1 where "s1 = (the_document state h)
      \<lparr>erc20Tokens := Some ((or_empty (erc20Tokens (the_document state h)))[i := ?m])\<rparr>"
  have first: "fst (upsertErc20Token u h state) = Inr s1" "updates ?h1 = updates h @ [s1]"
    "persisted ?h1 = s1"
    using upsertErc20Token_merges [OF assms(1) differ] by (simp_all add: s1_def)
  have again: "getErc20Token_ref s1 (tok_address u) (tok_chainId u) = Inr (Some (i, ?m))"
    using getErc20Token_ref_after_merge [OF assms(1)] by (simp add: s1_def)
  have fetched: "getErc20Token_ref (the_document None ?h1) (tok_address u) (tok_chainId u)
      = Inr (Some (i, ?m))"
    using again first by simp
  have given: "getErc20Token_ref (the_document (Some s1) ?h1) (tok_address u) (tok_chainId u)
      = Inr (Some (i, ?m))"
    using again by simp
  show ?thesis
    using first upsertErc20Token_merges(1,2) [OF fetched assms(2)]
      upsertErc20Token_merges(1,2) [OF given assms(2)]
    by (intro twice_writes_twiceI [where ?s1.0 = s1]) simp_all
qed

lemma upsertErc20Token_twice_only:
  assumes "twice_writes_once (upsertErc20Token u) h state"
  shows "(getErc20Token_ref (the_document state h) (tok_address u) (tok_chainId u) = Inr None
            \<and> Number (tok_chainId u) \<noteq> NaN)
         \<or> (\<exists>i stored.
               getErc20Token_ref (the_document state h) (tok_address u) (tok_chainId u)
                 = Inr (Some (i, stored))
               \<and> stored \<noteq> u \<and> merge_token stored u = u)"
proof -
  let ?h1 = "snd (upsertErc20Token u h state)"
  obtain s1 where once: "fst (upsertErc20Token u h state) = Inr s1"
    "updates ?h1 = updates h @ [s1]"
    "updates (snd (upsertErc20Token u ?h1 (Some s1))) = updates ?h1"
    using twice_writes_onceD [OF assms] by blast
  show ?thesis
  proof (cases "getErc20Token_ref (the_document state h) (tok_address u) (tok_chainId u)")
    case (Inl e)
    from upsertErc20Token_throws [OF Inl] once(1) show ?thesis by simp
  next
    case (Inr r)
    show ?thesis
    proof (cases r)
      case None
      show ?thesis
      proof (cases "Number (tok_chainId u) = NaN")
        case False
        with Inr None show ?thesis by simp
      next
        case True
        have found: "getErc20Token_ref (the_document state h) (tok_address u) (tok_chainId u) = Inr None"
          using Inr None by simp
        have s1: "s1 = (the_document state h)
            \<lparr>erc20Tokens := Some (or_empty (erc20Tokens (the_document state h)) @ [u])\<rparr>"
          using upsertErc20Token_inserts(1) [OF found] once(1) by simp
        have "getErc20Token_ref (the_document (Some s1) ?h1) (tok_address u) (tok_chainId u) = Inr None"
          using getErc20Token_ref_after_insert [OF found] True by (simp add: s1)
        from upsertErc20Token_inserts(2) [OF this] once(3) show ?thesis by simp
      qed
    next
      case (Some a)
      obtain i stored where a: "a = (i, stored)" by (cases a)
      have found: "getErc20Token_ref (the_document state h) (tok_address u) (tok_chainId u)
          = Inr (Some (i, stored))"
        using Inr Some a by simp
      show ?thesis
      proof (cases "stored = u")
        case True
        with upsertErc20Token_skips(2) [of state h u i] found once(2) show ?thesis by simp
      next
        case differ: False
        show ?thesis
        proof (cases "merge_token stored u = u")
          case True
          with found differ show ?thesis by blast
        next
          case False
          have s1: "s1 = (the_document state h)
              \<lparr>erc20Tokens := Some ((or_empty (erc20Tokens (the_document state h)))
                                        [i := merge_token stored u])\<rparr>"
            using upsertErc20Token_merges(1) [OF found differ] once(1) by simp
          have "getErc20Token_ref (the_document (Some s1) ?h1) (tok_address u) (tok_chainId u)
              = Inr (Some (i, merge_token stored u))"
            using getErc20Token_ref_after_merge [OF found] by (simp add: s1)
          from upsertErc20Token_merges(2) [OF this False] once(3) show ?thesis by simp
        qed
      qed
    qed
  qed
qed

lemma merge_token_fixes:
  "merge_token stored u = u
   \<longleftrightarrow> tok_address stored = tok_address u \<and> tok_chainId stored = tok_chainId u"
  by (cases stored; cases u) (auto simp: merge_token_def)

text \<open>Transactions.\<close>

lemma transaction_matches_self:
  "toBigInt (txn_txnHash u) = Some v \<Longrightarrow> Number (txn_chainId u) \<noteq> NaN \<Longrightarrow>
   transaction_matches v (txn_chainId u) u = Inr True"
  by (simp add: transaction_matches_def strict_equals_def)

lemma transaction_matches_self_not:
  "toBigInt (txn_txnHash u) = Some v \<Longrightarrow> Number (txn_chainId u) = NaN \<Longrightarrow>
   transaction_matches v (txn_chainId u) u = Inr False"
  by (simp add: transaction_matches_def strict_equals_def)

lemma transaction_matches_merged:
  "transaction_matches v c (merge_transaction stored u) = transaction_matches v c stored"
proof -
  have "txn_txnHash (merge_transaction stored u) = txn_txnHash stored" "txn_chainId (merge_transaction stored u) = txn_chainId stored"
    by (simp_all add: merge_transaction_def)
  then show ?thesis
    by (simp only: transaction_matches_def)
qed

lemma merge_transaction_same: "merge_transaction u u = u"
  by (simp add: merge_transaction_def )

lemma merge_transaction_twice:
  "merge_transaction (merge_transaction stored u) u = merge_transaction stored u"
  by (simp add: merge_transaction_def )

lemma upsertTransaction_throws:
  assumes "getTransaction_ref (the_document state h) (txn_txnHash u) (txn_chainId u) = Inl e"
  shows "fst (upsertTransaction u h state) = Inl e"
  using assms
  by (simp add: upsertTransaction_def runExclusive_def Let_def split_beta)

lemma upsertTransaction_inserts:
  assumes "getTransaction_ref (the_document state h) (txn_txnHash u) (txn_chainId u) = Inr None"
  defines "s1 \<equiv> (the_document state h)
      \<lparr>transactions := Some (or_empty (transactions (the_document state h)) @ [u])\<rparr>"
  shows "fst (upsertTransaction u h state) = Inr s1"
    and "updates (snd (upsertTransaction u h state)) = updates h @ [s1]"
    and "persisted (snd (upsertTransaction u h state)) = s1"
  using assms
  by (simp_all add: upsertTransaction_def runExclusive_def Let_def split_beta)

lemma upsertTransaction_skips:
  assumes "getTransaction_ref (the_document state h) (txn_txnHash u) (txn_chainId u)
             = Inr (Some (i, u))"
  shows "fst (upsertTransaction u h state) = Inr (the_document state h)"
    and "updates (snd (upsertTransaction u h state)) = updates h"
  using assms
  by (simp_all add: upsertTransaction_def runExclusive_def Let_def split_beta toJson_equal_def)

lemma upsertTransaction_merges:
  assumes "getTransaction_ref (the_document state h) (txn_txnHash u) (txn_chainId u)
             = Inr (Some (i, stored))"
    and "stored \<noteq> u"
  defines "s1 \<equiv> (the_document state h)
      \<lparr>transactions := Some ((or_empty (transactions (the_document state h)))
                                [i := merge_transaction stored u])\<rparr>"
  shows "fst (upsertTransaction u h state) = Inr s1"
    and "updates (snd (upsertTransaction u h state)) = updates h @ [s1]"
    and "persisted (snd (upsertTransaction u h state)) = s1"
  using assms
  by (simp_all add: upsertTransaction_def runExclusive_def Let_def split_beta toJson_equal_def)

lemma getTransaction_ref_after_insert:
  assumes "getTransaction_ref s (txn_txnHash u) (txn_chainId u) = Inr None"
  shows "getTransaction_ref (s\<lparr>transactions := Some (or_empty (transactions s) @ [u])\<rparr>)
           (txn_txnHash u) (txn_chainId u)
         = (if Number (txn_chainId u) = NaN then Inr None
            else Inr (Some (length (or_empty (transactions s)), u)))"
proof -
  obtain v where v: "toBigInt (txn_txnHash u) = Some v"
    using assms by (auto simp: getTransaction_ref_def split: option.splits)
  have "find_ref (transaction_matches v (txn_chainId u)) (or_empty (transactions s)) = Inr None"
    using assms v by (auto simp: getTransaction_ref_def or_empty_def split: option.splits)
  then show ?thesis
    using v
    by (simp add: getTransaction_ref_def find_ref_append_hit find_ref_append_miss
        transaction_matches_self transaction_matches_self_not)
qed

lemma getTransaction_ref_after_merge:
  assumes "getTransaction_ref s (txn_txnHash u) (txn_chainId u) = Inr (Some (i, stored))"
  shows "getTransaction_ref
           (s\<lparr>transactions := Some ((or_empty (transactions s))[i := merge_transaction stored u])\<rparr>)
           (txn_txnHash u) (txn_chainId u)
         = Inr (Some (i, merge_transaction stored u))"
proof -
  obtain v where v: "toBigInt (txn_txnHash u) = Some v"
    using assms by (auto simp: getTransaction_ref_def split: option.splits)
  have f: "find_ref (transaction_matches v (txn_chainId u)) (or_empty (transactions s))
             = Inr (Some (i, stored))"
    using assms v by (auto simp: getTransaction_ref_def or_empty_def split: option.splits)
  have "transaction_matches v (txn_chainId u) stored = Inr True"
    using find_ref_found [OF f] by simp
  then have "transaction_matches v (txn_chainId u) (merge_transaction stored u) = Inr True"
    by (simp only: transaction_matches_merged)
  then show ?thesis
    using v f by (simp add: getTransaction_ref_def find_ref_update_hit)
qed

lemma upsertTransaction_twice:
  assumes "(getTransaction_ref (the_document state h) (txn_txnHash u) (txn_chainId u) = Inr None
            \<and> Number (txn_chainId u) \<noteq> NaN)
         \<or> (\<exists>i stored.
               getTransaction_ref (the_document state h) (txn_txnHash u) (txn_chainId u)
                 = Inr (Some (i, stored))
               \<and> stored \<noteq> u \<and> merge_transaction stored u = u)"
  shows "twice_writes_once (upsertTransaction u) h state"
proof -
  let ?h1 = "snd (upsertTransaction u h state)"
  from assms have "\<exists>s1 j. fst (upsertTransaction u h state) = Inr s1
      \<and> updates ?h1 = updates h @ [s1] \<and> persisted ?h1 = s1
      \<and> getTransaction_ref s1 (txn_txnHash u) (txn_chainId u) = Inr (Some (j, u))"
  proof
    assume a: "getTransaction_ref (the_document state h) (txn_txnHash u) (txn_chainId u) = Inr None
      \<and> Number (txn_chainId u) \<noteq> NaN"
    with upsertTransaction_inserts [of state h u] getTransaction_ref_after_insert [of "the_document state h" u]
    show ?thesis by auto
  next
    assume "\<exists>i stored.
               getTransaction_ref (the_document state h) (txn_txnHash u) (txn_chainId u)
                 = Inr (Some (i, stored))
               \<and> stored \<noteq> u \<and> merge_transaction stored u = u"
    then obtain i stored where a:
      "getTransaction_ref (the_document state h) (txn_txnHash u) (txn_chainId u) = Inr (Some (i, stored))"
      "stored \<noteq> u" "merge_transaction stored u = u" by blast
    with upsertTransaction_merges [of state h u i stored]
      getTransaction_ref_after_merge [of "the_document state h" u i stored]
    show ?thesis by auto
  qed
  then obtain s1 j where s1: "fst (upsertTransaction u h state) = Inr s1"
    "updates ?h1 = updates h @ [s1]" "persisted ?h1 = s1"
    "getTransaction_ref s1 (txn_txnHash u) (txn_chainId u) = Inr (Some (j, u))"
    by blast
  have fetched: "getTransaction_ref (the_document None ?h1) (txn_txnHash u) (txn_chainId u)
      = Inr (Some (j, u))"
    using s1 by simp
  have given: "getTransaction_ref (the_document (Some s1) ?h1) (txn_txnHash u) (txn_chainId u)
      = Inr (Some (j, u))"
    using s1 by simp
  show ?thesis
    using s1 upsertTransaction_skips [OF fetched] upsertTransaction_skips [OF given]
    by (intro twice_writes_onceI [where ?s1.0 = s1]) simp_all
qed

lemma upsertTransaction_twice_again:
  assumes "getTransaction_ref (the_document state h) (txn_txnHash u) (txn_chainId u)
             = Inr (Some (i, stored))"
    and "merge_transaction stored u \<noteq> u"
  shows "twice_writes_twice (upsertTransaction u) h state"
proof -
  let ?h1 = "snd (upsertTransaction u h state)"
  let ?m = "merge_transaction stored u"
  have differ: "stored \<noteq> u"
    using assms(2) merge_transaction_same by auto
  define s1 where "s1 = (the_document state h)
      \<lparr>transactions := Some ((or_empty (transactions (the_document state h)))[i := ?m])\<rparr>"
  have first: "fst (upsertTransaction u h state) = Inr s1" "updates ?h1 = updates h @ [s1]"
    "persisted ?h1 = s1"
    using upsertTransaction_merges [OF assms(1) differ] by (simp_all add: s1_def)
  have again: "getTransaction_ref s1 (txn_txnHash u) (txn_chainId u) = Inr (Some (i, ?m))"
    using getTransaction_ref_after_merge [OF assms(1)] by (simp add: s1_def)
  have fetched: "getTransaction_ref (the_document None ?h1) (txn_txnHash u) (txn_chainId u)
      = Inr (Some (i, ?m))"
    using again first by simp
  have given: "getTransaction_ref (the_document (Some s1) ?h1) (txn_txnHash u) (txn_chainId u)
      = Inr (Some (i, ?m))"
    using again by simp
  show ?thesis
    using first upsertTransaction_merges(1,2) [OF fetched assms(2)]
      upsertTransaction_merges(1,2) [OF given assms(2)]
    by (intro twice_writes_twiceI [where ?s1.0 = s1]) simp_all
qed

lemma upsertTransaction_twice_only:
  assumes "twice_writes_once (upsertTransaction u) h state"
  shows "(getTransaction_ref (the_document state h) (txn_txnHash u) (txn_chainId u) = Inr None
            \<and> Number (txn_chainId u) \<noteq> NaN)
         \<or> (\<exists>i stored.
               getTransaction_ref (the_document state h) (txn_txnHash u) (txn_chainId u)
                 = Inr (Some (i, stored))
               \<and> stored \<noteq> u \<and> merge_transaction stored u = u)"
proof -
  let ?h1 = "snd (upsertTransaction u h state)"
  obtain s1 where once: "fst (upsertTransaction u h state) = Inr s1"
    "updates ?h1 = updates h @ [s1]"
    "updates (snd (upsertTransaction u ?h1 (Some s1))) = updates ?h1"
    using twice_writes_onceD [OF assms] by blast
  show ?thesis
  proof (cases "getTransaction_ref (the_document state h) (txn_txnHash u) (txn_chainId u)")
    case (Inl e)
    from upsertTransaction_throws [OF Inl] once(1) show ?thesis by simp
  next
    case (Inr r)
    show ?thesis
    proof (cases r)
      case None
      show ?thesis
      proof (cases "Number (txn_chainId u) = NaN")
        case False
        with Inr None show ?thesis by simp
      next
        case True
        have found: "getTransaction_ref (the_document state h) (txn_txnHash u) (txn_chainId u) = Inr None"
          using Inr None by simp
        have s1: "s1 = (the_document state h)
            \<lparr>transactions := Some (or_empty (transactions (the_document state h)) @ [u])\<rparr>"
          using upsertTransaction_inserts(1) [OF found] once(1) by simp
        have "getTransaction_ref (the_document (Some s1) ?h1) (txn_txnHash u) (txn_chainId u) = Inr None"
          using getTransaction_ref_after_insert [OF found] True by (simp add: s1)
        from upsertTransaction_inserts(2) [OF this] once(3) show ?thesis by simp
      qed
    next
      case (Some a)
      obtain i stored where a: "a = (i, stored)" by (cases a)
      have found: "getTransaction_ref (the_document state h) (txn_txnHash u) (txn_chainId u)
          = Inr (Some (i, stored))"
        using Inr Some a by simp
      show ?thesis
      proof (cases "stored = u")
        case True
        with upsertTransaction_skips(2) [of state h u i] found once(2) show ?thesis by simp
      next
        case differ: False
        show ?thesis
        proof (cases "merge_transaction stored u = u")
          case True
          with found differ show ?thesis by blast
        next
          case False
          have s1: "s1 = (the_document state h)
              \<lparr>transactions := Some ((or_empty (transactions (the_document state h)))
                                        [i := merge_transaction stored u])\<rparr>"
            using upsertTransaction_merges(1) [OF found differ] once(1) by simp
          have "getTransaction_ref (the_document (Some s1) ?h1) (txn_txnHash u) (txn_chainId u)
              = Inr (Some (i, merge_transaction stored u))"
            using getTransaction_ref_after_merge [OF found] by (simp add: s1)
          from upsertTransaction_merges(2) [OF this False] once(3) show ?thesis by simp
        qed
      qed
    qed
  qed
qed

lemma merge_transaction_fixes:
  "merge_transaction stored u = u
   \<longleftrightarrow> txn_txnHash stored = txn_txnHash u \<and> txn_txnType stored = txn_txnType u
       \<and> txn_chainId stored = txn_chainId u
       \<and> txn_senderAddress stored = txn_senderAddress u
       \<and> txn_contractAddress stored = txn_contractAddress u"
  by (cases stored; cases u) (auto simp: merge_transaction_def)

text \<open>Networks.\<close>

lemma find_ref_pure:
  "\<exists>r. find_ref (\<lambda>x. Inr (P x)) xs = Inr r"
  by (rule find_ref_no_error) simp

lemma getNetwork_ref_eq:
  "find_ref (\<lambda>n. Inr (network_matches chainId n)) (or_empty (networks s)) = Inr r \<Longrightarrow>
   getNetwork_ref s chainId = r"
  by (simp add: getNetwork_ref_def or_empty_def split: option.splits)

lemma getNetwork_ref_find:
  "find_ref (\<lambda>n. Inr (network_matches chainId n)) (or_empty (networks s))
     = Inr (getNetwork_ref s chainId)"
  using find_ref_pure [of "network_matches chainId" "or_empty (networks s)"]
    getNetwork_ref_eq [of chainId s] by auto

lemma network_matches_self:
  "network_matches (net_chainId u) u
   \<longleftrightarrow> Number (net_chainId u) \<noteq> NaN \<and> net_useOldAccounts u \<noteq> Some True"
  by (simp add: network_matches_def strict_equals_def)

lemma network_matches_merged:
  "network_matches c (merge_network stored u) = network_matches c stored"
proof -
  have "net_chainId (merge_network stored u) = net_chainId stored"
    "net_useOldAccounts (merge_network stored u) = net_useOldAccounts stored"
    by (simp_all add: merge_network_def)
  then show ?thesis
    by (simp only: network_matches_def)
qed

lemma merge_network_same: "merge_network u u = u"
  by (simp add: merge_network_def)

lemma merge_network_fixes:
  "merge_network stored u = u
   \<longleftrightarrow> net_chainId stored = net_chainId u
       \<and> net_useOldAccounts stored = net_useOldAccounts u"
  by (cases stored; cases u) (auto simp: merge_network_def)

lemma upsertNetwork_inserts:
  assumes "getNetwork_ref (the_document state h) (net_chainId u) = None"
  defines "s1 \<equiv> (the_document state h)
      \<lparr>networks := Some (or_empty (networks (the_document state h)) @ [u])\<rparr>"
  shows "fst (upsertNetwork u h state) = Inr s1"
    and "updates (snd (upsertNetwork u h state)) = updates h @ [s1]"
    and "persisted (snd (upsertNetwork u h state)) = s1"
  using assms
  by (simp_all add: upsertNetwork_def runExclusive_def Let_def split_beta)

lemma upsertNetwork_skips:
  assumes "getNetwork_ref (the_document state h) (net_chainId u) = Some (i, u)"
  shows "fst (upsertNetwork u h state) = Inr (the_document state h)"
    and "updates (snd (upsertNetwork u h state)) = updates h"
  using assms
  by (simp_all add: upsertNetwork_def runExclusive_def Let_def split_beta toJson_equal_def)

lemma upsertNetwork_merges:
  assumes "getNetwork_ref (the_document state h) (net_chainId u) = Some (i, stored)"
    and "stored \<noteq> u"
  defines "s1 \<equiv> (the_document state h)
      \<lparr>networks := Some ((or_empty (networks (the_document state h)))
                            [i := merge_network stored u])\<rparr>"
  shows "fst (upsertNetwork u h state) = Inr s1"
    and "updates (snd (upsertNetwork u h state)) = updates h @ [s1]"
    and "persisted (snd (upsertNetwork u h state)) = s1"
  using assms
  by (simp_all add: upsertNetwork_def runExclusive_def Let_def split_beta toJson_equal_def)

lemma getNetwork_ref_after_insert:
  assumes "getNetwork_ref s (net_chainId u) = None"
  shows "getNetwork_ref (s\<lparr>networks := Some (or_empty (networks s) @ [u])\<rparr>) (net_chainId u)
         = (if network_matches (net_chainId u) u
            then Some (length (or_empty (networks s)), u) else None)"
proof -
  have "find_ref (\<lambda>n. Inr (network_matches (net_chainId u) n)) (or_empty (networks s)) = Inr None"
    using getNetwork_ref_find [of "net_chainId u" s] assms by simp
  then have "find_ref (\<lambda>n. Inr (network_matches (net_chainId u) n))
      (or_empty (networks s) @ [u])
      = Inr (if network_matches (net_chainId u) u
             then Some (length (or_empty (networks s)), u) else None)"
    by (simp add: find_ref_append_hit find_ref_append_miss)
  then show ?thesis
    by (intro getNetwork_ref_eq) (simp add: or_empty_def)
qed

lemma getNetwork_ref_after_merge:
  assumes "getNetwork_ref s (net_chainId u) = Some (i, stored)"
  shows "getNetwork_ref
           (s\<lparr>networks := Some ((or_empty (networks s))[i := merge_network stored u])\<rparr>)
           (net_chainId u)
         = Some (i, merge_network stored u)"
proof -
  have f: "find_ref (\<lambda>n. Inr (network_matches (net_chainId u) n)) (or_empty (networks s))
      = Inr (Some (i, stored))"
    using getNetwork_ref_find [of "net_chainId u" s] assms by simp
  have "network_matches (net_chainId u) stored"
    using find_ref_found [OF f] by simp
  then have "network_matches (net_chainId u) (merge_network stored u)"
    by (simp only: network_matches_merged)
  with f have "find_ref (\<lambda>n. Inr (network_matches (net_chainId u) n))
      ((or_empty (networks s))[i := merge_network stored u])
      = Inr (Some (i, merge_network stored u))"
    by (simp add: find_ref_update_hit)
  then show ?thesis
    by (intro getNetwork_ref_eq) (simp add: or_empty_def)
qed

lemma upsertNetwork_twice:
  assumes "(getNetwork_ref (the_document state h) (net_chainId u) = None
            \<and> Number (net_chainId u) \<noteq> NaN \<and> net_useOldAccounts u \<noteq> Some True)
         \<or> (\<exists>i stored.
               getNetwork_ref (the_document state h) (net_chainId u) = Some (i, stored)
               \<and> stored \<noteq> u \<and> merge_network stored u = u)"
  shows "twice_writes_once (upsertNetwork u) h state"
proof -
  let ?h1 = "snd (upsertNetwork u h state)"
  from assms have "\<exists>s1 j. fst (upsertNetwork u h state) = Inr s1
      \<and> updates ?h1 = updates h @ [s1] \<and> persisted ?h1 = s1
      \<and> getNetwork_ref s1 (net_chainId u) = Some (j, u)"
  proof
    assume a: "getNetwork_ref (the_document state h) (net_chainId u) = None
      \<and> Number (net_chainId u) \<noteq> NaN \<and> net_useOldAccounts u \<noteq> Some True"
    with upsertNetwork_inserts [of state h u] getNetwork_ref_after_insert [of "the_document state h" u]
    show ?thesis by (auto simp: network_matches_self)
  next
    assume "\<exists>i stored.
               getNetwork_ref (the_document state h) (net_chainId u) = Some (i, stored)
               \<and> stored \<noteq> u \<and> merge_network stored u = u"
    then obtain i stored where a:
      "getNetwork_ref (the_document state h) (net_chainId u) = Some (i, stored)"
      "stored \<noteq> u" "merge_network stored u = u" by blast
    with upsertNetwork_merges [of state h u i stored]
      getNetwork_ref_after_merge [of "the_document state h" u i stored]
    show ?thesis by auto
  qed
  then obtain s1 j where s1: "fst (upsertNetwork u h state) = Inr s1"
    "updates ?h1 = updates h @ [s1]" "persisted ?h1 = s1"
    "getNetwork_ref s1 (net_chainId u) = Some (j, u)"
    by blast
  have fetched: "getNetwork_ref (the_document None ?h1) (net_chainId u) = Some (j, u)"
    using s1 by simp
  have given: "getNetwork_ref (the_document (Some s1) ?h1) (net_chainId u) = Some (j, u)"
    using s1 by simp
  show ?thesis
    using s1 upsertNetwork_skips [OF fetched] upsertNetwork_skips [OF given]
    by (intro twice_writes_onceI [where ?s1.0 = s1]) simp_all
qed

lemma upsertNetwork_twice_again:
  assumes "getNetwork_ref (the_document state h) (net_chainId u) = Some (i, stored)"
    and "merge_network stored u \<noteq> u"
  shows "twice_writes_twice (upsertNetwork u) h state"
proof -
  let ?h1 = "snd (upsertNetwork u h state)"
  let ?m = "merge_network stored u"
  have differ: "stored \<noteq> u"
    using assms(2) merge_network_same by auto
  define s1 where "s1 = (the_document state h)
      \<lparr>networks := Some ((or_empty (networks (the_document state h)))[i := ?m])\<rparr>"
  have first: "fst (upsertNetwork u h state) = Inr s1" "updates ?h1 = updates h @ [s1]"
    "persisted ?h1 = s1"
    using upsertNetwork_merges [OF assms(1) differ] by (simp_all add: s1_def)
  have again: "getNetwork_ref s1 (net_chainId u) = Some (i, ?m)"
    using getNetwork_ref_after_merge [OF assms(1)] by (simp add: s1_def)
  have fetched: "getNetwork_ref (the_document None ?h1) (net_chainId u) = Some (i, ?m)"
    using again first by simp
  have given: "getNetwork_ref (the_document (Some s1) ?h1) (net_chainId u) = Some (i, ?m)"
    using again by simp
  show ?thesis
    using first upsertNetwork_merges(1,2) [OF fetched assms(2)]
      upsertNetwork_merges(1,2) [OF given assms(2)]
    by (intro twice_writes_twiceI [where ?s1.0 = s1]) simp_all
qed

lemma upsertNetwork_twice_only:
  assumes "twice_writes_once (upsertNetwork u) h state"
  shows "(getNetwork_ref (the_document state h) (net_chainId u) = None
            \<and> Number (net_chainId u) \<noteq> NaN \<and> net_useOldAccounts u \<noteq> Some True)
         \<or> (\<exists>i stored.
               getNetwork_ref (the_document state h) (net_chainId u) = Some (i, stored)
               \<and> stored \<noteq> u \<and> merge_network stored u = u)"
proof -
  let ?h1 = "snd (upsertNetwork u h state)"
  obtain s1 where once: "fst (upsertNetwork u h state) = Inr s1"
    "updates ?h1 = updates h @ [s1]"
    "updates (snd (upsertNetwork u ?h1 (Some s1))) = updates ?h1"
    using twice_writes_onceD [OF assms] by blast
  show ?thesis
  proof (cases "getNetwork_ref (the_document state h) (net_chainId u)")
    case None
    show ?thesis
    proof (cases "network_matches (net_chainId u) u")
      case True
      with None show ?thesis by (simp add: network_matches_self)
    next
      case False
      have s1: "s1 = (the_document state h)
          \<lparr>networks := Some (or_empty (networks (the_document state h)) @ [u])\<rparr>"
        using upsertNetwork_inserts(1) [OF None] once(1) by simp
      have "getNetwork_ref (the_document (Some s1) ?h1) (net_chainId u) = None"
        using getNetwork_ref_after_insert [OF None] False by (simp add: s1)
      from upsertNetwork_inserts(2) [OF this] once(3) show ?thesis by simp
    qed
  next
    case (Some a)
    obtain i stored where a: "a = (i, stored)" by (cases a)
    have found: "getNetwork_ref (the_document state h) (net_chainId u) = Some (i, stored)"
      using Some a by simp
    show ?thesis
    proof (cases "stored = u")
      case True
      with upsertNetwork_skips(2) [of state h u i] found once(2) show ?thesis by simp
    next
      case differ: False
      show ?thesis
      proof (cases "merge_network stored u = u")
        case True
        with found differ show ?thesis by blast
      next
        case False
        have s1: "s1 = (the_document state h)
            \<lparr>networks := Some ((or_empty (networks (the_document state h)))
                                  [i := merge_network stored u])\<rparr>"
          using upsertNetwork_merges(1) [OF found differ] once(1) by simp
        have "getNetwork_ref (the_document (Some s1) ?h1) (net_chainId u)
            = Some (i, merge_network stored u)"
          using getNetwork_ref_after_merge [OF found] by (simp add: s1)
        from upsertNetwork_merges(2) [OF this False] once(3) show ?thesis by simp
      qed
    qed
  qed
qed

lemma upsertAccount_twice_iff:
  "(twice_writes_once (upsertAccount a) h state
     \<longleftrightarrow> (getAccount_ref (the_document state h) (acc_address a) (acc_chainId a) = Inr None
           \<and> Number (acc_chainId a) \<noteq> NaN)
         \<or> (\<exists>i stored.
               getAccount_ref (the_document state h) (acc_address a) (acc_chainId a)
                 = Inr (Some (i, stored))
               \<and> stored \<noteq> a
               \<and> acc_address stored = acc_address a \<and> acc_chainId stored = acc_chainId a
               \<and> (truthy (acc_deployTxnHash a)
                    \<or> acc_deployTxnHash stored = acc_deployTxnHash a)))
   \<and> ((\<exists>i stored.
          getAccount_ref (the_document state h) (acc_address a) (acc_chainId a)
            = Inr (Some (i, stored))
          \<and> \<not> (acc_address stored = acc_address a \<and> acc_chainId stored = acc_chainId a
                \<and> (truthy (acc_deployTxnHash a)
                     \<or> acc_deployTxnHash stored = acc_deployTxnHash a)))
        \<longrightarrow> twice_writes_twice (upsertAccount a) h state)"
  using upsertAccount_twice [of state h a] upsertAccount_twice_only [of a h state]
    upsertAccount_twice_again [of state h a]
  unfolding merge_account_fixes by blast

lemma upsertNetwork_twice_iff:
  "(twice_writes_once (upsertNetwork n) h state
     \<longleftrightarrow> (getNetwork_ref (the_document state h) (net_chainId n) = None
           \<and> Number (net_chainId n) \<noteq> NaN \<and> net_useOldAccounts n \<noteq> Some True)
         \<or> (\<exists>i stored.
               getNetwork_ref (the_document state h) (net_chainId n) = Some (i, stored)
               \<and> stored \<noteq> n
               \<and> net_chainId stored = net_chainId n
               \<and> net_useOldAccounts stored = net_useOldAccounts n))
   \<and> ((\<exists>i stored.
          getNetwork_ref (the_document state h) (net_chainId n) = Some (i, stored)
          \<and> \<not> (net_chainId stored = net_chainId n
                \<and> net_useOldAccounts stored = net_useOldAccounts n))
        \<longrightarrow> twice_writes_twice (upsertNetwork n) h state)"
  using upsertNetwork_twice [of state h n] upsertNetwork_twice_only [of n h state]
    upsertNetwork_twice_again [of state h n]
  unfolding merge_network_fixes by blast

lemma upsertErc20Token_twice_iff:
  "(twice_writes_once (upsertErc20Token k) h state
     \<longleftrightarrow> (getErc20Token_ref (the_document state h) (tok_address k) (tok_chainId k) = Inr None
           \<and> Number (tok_chainId k) \<noteq> NaN)
         \<or> (\<exists>i stored.
               getErc20Token_ref (the_document state h) (tok_address k) (tok_chainId k)
                 = Inr (Some (i, stored))
               \<and> stored \<noteq> k
               \<and> tok_address stored = tok_address k \<and> tok_chainId stored = tok_chainId k))
   \<and> ((\<exists>i stored.
          getErc20Token_ref (the_document state h) (tok_address k) (tok_chainId k)
            = Inr (Some (i, stored))
          \<and> \<not> (tok_address stored = tok_address k \<and> tok_chainId stored = tok_chainId k))
        \<longrightarrow> twice_writes_twice (upsertErc20Token k) h state)"
  using upsertErc20Token_twice [of state h k] upsertErc20Token_twice_only [of k h state]
    upsertErc20Token_twice_again [of state h k]
  unfolding merge_token_fixes by blast

lemma upsertTransaction_twice_iff:
  "(twice_writes_once (upsertTransaction t) h state
     \<longleftrightarrow> (getTransaction_ref (the_document state h) (txn_txnHash t) (txn_chainId t) = Inr None
           \<and> Number (txn_chainId t) \<noteq> NaN)
         \<or> (\<exists>i stored.
               getTransaction_ref (the_document state h) (txn_txnHash t) (txn_chainId t)
                 = Inr (Some (i, stored))
               \<and> stored \<noteq> t
               \<and> txn_txnHash stored = txn_txnHash t \<and> txn_txnType stored = txn_txnType t
               \<and> txn_chainId stored = txn_chainId t
               \<and> txn_senderAddress stored = txn_senderAddress t
               \<and> txn_contractAddress stored = txn_contractAddress t))
   \<and> ((\<exists>i stored.
          getTransaction_ref (the_document state h) (txn_txnHash t) (txn_chainId t)
            = Inr (Some (i, stored))
          \<and> \<not> (txn_txnHash stored = txn_txnHash t \<and> txn_txnType stored = txn_txnType t
                \<and> txn_chainId stored = txn_chainId t
                \<and> txn_senderAddress stored = txn_senderAddress t
                \<and> txn_contractAddress stored = txn_contractAddress t))
        \<longrightarrow> twice_writes_twice (upsertTransaction t) h state)"
  using upsertTransaction_twice [of state h t] upsertTransaction_twice_only [of t h state]
    upsertTransaction_twice_again [of state h t]
  unfolding merge_transaction_fixes by blast

text \<open>
  C2 (as amended). Upserting the same record twice in succession performs exactly
  one host write-back, the second call finding the stored record equal to the
  incoming one and skipping the update whether it is handed the document of the
  first call or fetches it, in exactly two cases. Either the first call finds no
  record with the natural key of the incoming one, inserts it, and the locator finds
  it again: its chain id is a number and, for a network, it does not carry the
  legacy flag. Or the first call finds a stored record that differs from the
  incoming one and agrees with it, as strings, on every field that the merge does
  not assign (account: address, chain id; network: chain id, legacy flag; token:
  address, chain id; transaction: hash, type, chain id, sender and contract
  address), where for an account the stored deploy transaction hash too must be
  that of the incoming record unless the incoming one is non-empty. When the first
  call finds a stored record without this agreement, each of the two calls merges
  and writes back.
\<close>

theorem upsert_twice_writes_once:
  "((twice_writes_once (upsertAccount a) h state
      \<longleftrightarrow> (getAccount_ref (the_document state h) (acc_address a) (acc_chainId a) = Inr None
            \<and> Number (acc_chainId a) \<noteq> NaN)
          \<or> (\<exists>i stored.
                getAccount_ref (the_document state h) (acc_address a) (acc_chainId a)
                  = Inr (Some (i, stored))
                \<and> stored \<noteq> a
                \<and> acc_address stored = acc_address a \<and> acc_chainId stored = acc_chainId a
                \<and> (truthy (acc_deployTxnHash a)
                     \<or> acc_deployTxnHash stored = acc_deployTxnHash a)))
    \<and> ((\<exists>i stored.
           getAccount_ref (the_document state h) (acc_address a) (acc_chainId a)
             = Inr (Some (i, stored))
           \<and> \<not> (acc_address stored = acc_address a \<and> acc_chainId stored = acc_chainId a
                 \<and> (truthy (acc_deployTxnHash a)
                      \<or> acc_deployTxnHash stored = acc_deployTxnHash a)))
         \<longrightarrow> twice_writes_twice (upsertAccount a) h state))
   \<and> ((twice_writes_once (upsertNetwork n) h state
      \<longleftrightarrow> (getNetwork_ref (the_document state h) (net_chainId n) = None
            \<and> Number (net_chainId n) \<noteq> NaN \<and> net_useOldAccounts n \<noteq> Some True)
          \<or> (\<exists>i stored.
                getNetwork_ref (the_document state h) (net_chainId n) = Some (i, stored)
                \<and> stored \<noteq> n
                \<and> net_chainId stored = net_chainId n
                \<and> net_useOldAccounts stored = net_useOldAccounts n))
    \<and> ((\<exists>i stored.
           getNetwork_ref (the_document state h) (net_chainId n) = Some (i, stored)
           \<and> \<not> (net_chainId stored = net_chainId n
                 \<and> net_useOldAccounts stored = net_useOldAccounts n))
         \<longrightarrow> twice_writes_twice (upsertNetwork n) h state))
   \<and> ((twice_writes_once (upsertErc20Token k) h state
      \<longleftrightarrow> (getErc20Token_ref (the_document state h) (tok_address k) (tok_chainId k) = Inr None
            \<and> Number (tok_chainId k) \<noteq> NaN)
          \<or> (\<exists>i stored.
                getErc20Token_ref (the_document state h) (tok_address k) (tok_chainId k)
                  = Inr (Some (i, stored))
                \<and> stored \<noteq> k
                \<and> tok_address stored = tok_address k \<and> tok_chainId stored = tok_chainId k))
    \<and> ((\<exists>i stored.
           getErc20Token_ref (the_document state h) (tok_address k) (tok_chainId k)
             = Inr (Some (i, stored))
           \<and> \<not> (tok_address stored = tok_address k \<and> tok_chainId stored = tok_chainId k))
         \<longrightarrow> twice_writes_twice (upsertErc20Token k) h state))
   \<and> ((twice_writes_once (upsertTransaction t) h state
      \<longleftrightarrow> (getTransaction_ref (the_document state h) (txn_txnHash t) (txn_chainId t) = Inr None
            \<and> Number (txn_chainId t) \<noteq> NaN)
          \<or> (\<exists>i stored.
                getTransaction_ref (the_document state h) (txn_txnHash t) (txn_chainId t)
                  = Inr (Some (i, stored))
                \<and> stored \<noteq> t
                \<and> txn_txnHash stored = txn_txnHash t \<and> txn_txnType stored = txn_txnType t
                \<and> txn_chainId stored = txn_chainId t
                \<and> txn_senderAddress stored = txn_senderAddress t
                \<and> txn_contractAddress stored = txn_contractAddress t))
    \<and> ((\<exists>i stored.
           getTransaction_ref (the_document state h) (txn_txnHash t) (txn_chainId t)
             = Inr (Some (i, stored))
           \<and> \<not> (txn_txnHash stored = txn_txnHash t \<and> txn_txnType stored = txn_txnType t
                 \<and> txn_chainId stored = txn_chainId t
                 \<and> txn_senderAddress stored = txn_senderAddress t
                 \<and> txn_contractAddress stored = txn_contractAddress t))
         \<longrightarrow> twice_writes_twice (upsertTransaction t) h state))"
  by (intro conjI [OF upsertAccount_twice_iff] conjI [OF upsertNetwork_twice_iff]
      conjI [OF upsertErc20Token_twice_iff] upsertTransaction_twice_iff)

text \<open>
  Three accounts against a document that stores the account with address
  \<^verbatim>\<open>0x1\<close>, index 0 and deploy transaction hash \<^verbatim>\<open>0xabc\<close>: a new one (inserted,
  one write-back), one that differs in the index only and carries the same hash
  (merged, one write-back), and one that carries no hash (two write-backs); and a
  network, a token and a transaction that are new.
\<close>

theorem upsert_twice_writes_once_witness:
  "twice_writes_once (upsertAccount (example_account ''0x2'' ''1'' 0))
     (idle_host (empty_document\<lparr>accContracts :=
        Some [(example_account ''0x1'' ''1'' 0)\<lparr>acc_deployTxnHash := Some ''0xabc''\<rparr>]\<rparr>)) None
   \<and> twice_writes_once
       (upsertAccount ((example_account ''0x1'' ''1'' 5)\<lparr>acc_deployTxnHash := Some ''0xabc''\<rparr>))
       (idle_host (empty_document\<lparr>accContracts :=
          Some [(example_account ''0x1'' ''1'' 0)\<lparr>acc_deployTxnHash := Some ''0xabc''\<rparr>]\<rparr>)) None
   \<and> twice_writes_twice (upsertAccount (example_account ''0x1'' ''1'' 0))
       (idle_host (empty_document\<lparr>accContracts :=
          Some [(example_account ''0x1'' ''1'' 0)\<lparr>acc_deployTxnHash := Some ''0xabc''\<rparr>]\<rparr>)) None
   \<and> twice_writes_once (upsertNetwork (example_network ''devnet'' ''1'' None))
        (idle_host empty_document) None
   \<and> twice_writes_once (upsertErc20Token (example_token ''0x1'' ''1''))
        (idle_host empty_document) None
   \<and> twice_writes_once
        (upsertTransaction (example_transaction ''0x1'' ''1'' ''0x5'' ACCEPTED_ON_L2 50))
        (idle_host empty_document) None"
proof -
  let ?stored = "(example_account ''0x1'' ''1'' 0)\<lparr>acc_deployTxnHash := Some ''0xabc''\<rparr>"
  let ?h = "idle_host (empty_document\<lparr>accContracts := Some [?stored]\<rparr>)"
  let ?new = "example_account ''0x2'' ''1'' 0"
  let ?moved = "(example_account ''0x1'' ''1'' 5)\<lparr>acc_deployTxnHash := Some ''0xabc''\<rparr>"
  let ?bare = "example_account ''0x1'' ''1'' 0"
  have toBigInt_hex_two: "toBigInt ''0x2'' = Some 2"
    by (simp add: toBigInt_def literal_defs)
  have new: "getAccount_ref (the_document None ?h) (acc_address ?new) (acc_chainId ?new) = Inr None"
    "Number (acc_chainId ?new) \<noteq> NaN"
    by (simp_all add: getAccount_ref_def account_matches_def strict_equals_def idle_host_def
        example_account_def literal_values toBigInt_hex_two)
  have moved: "getAccount_ref (the_document None ?h) (acc_address ?moved) (acc_chainId ?moved)
      = Inr (Some (0, ?stored))"
    "?stored \<noteq> ?moved" "acc_address ?stored = acc_address ?moved"
    "acc_chainId ?stored = acc_chainId ?moved"
    "acc_deployTxnHash ?stored = acc_deployTxnHash ?moved"
    by (simp_all add: getAccount_ref_def account_matches_def strict_equals_def idle_host_def
        example_account_def literal_values)
  have bare: "getAccount_ref (the_document None ?h) (acc_address ?bare) (acc_chainId ?bare)
      = Inr (Some (0, ?stored))"
    "\<not> truthy (acc_deployTxnHash ?bare)"
    "acc_deployTxnHash ?stored \<noteq> acc_deployTxnHash ?bare"
    by (simp_all add: getAccount_ref_def account_matches_def strict_equals_def idle_host_def
        example_account_def literal_values truthy_def)
  have n: "getNetwork_ref (the_document None (idle_host empty_document))
        (net_chainId (example_network ''devnet'' ''1'' None)) = None"
    "Number (net_chainId (example_network ''devnet'' ''1'' None)) \<noteq> NaN"
    "net_useOldAccounts (example_network ''devnet'' ''1'' None) \<noteq> Some True"
    by (simp_all add: getNetwork_ref_def idle_host_def empty_document_def example_network_def
        literal_values)
  have k: "getErc20Token_ref (the_document None (idle_host empty_document))
        (tok_address (example_token ''0x1'' ''1'')) (tok_chainId (example_token ''0x1'' ''1''))
      = Inr None"
    "Number (tok_chainId (example_token ''0x1'' ''1'')) \<noteq> NaN"
    by (simp_all add: getErc20Token_ref_def idle_host_def empty_document_def example_token_def
        literal_values)
  have t: "getTransaction_ref (the_document None (idle_host empty_document))
        (txn_txnHash (example_transaction ''0x1'' ''1'' ''0x5'' ACCEPTED_ON_L2 50))
        (txn_chainId (example_transaction ''0x1'' ''1'' ''0x5'' ACCEPTED_ON_L2 50))
      = Inr None"
    "Number (txn_chainId (example_transaction ''0x1'' ''1'' ''0x5'' ACCEPTED_ON_L2 50)) \<noteq> NaN"
    by (simp_all add: getTransaction_ref_def idle_host_def empty_document_def
        example_transaction_def literal_values)
  note rest = upsert_twice_writes_once
    [where h = "idle_host empty_document" and state = None, THEN conjunct2]
  have "twice_writes_once (upsertAccount ?new) ?h None"
    by (rule upsert_twice_writes_once
        [where a = ?new and h = ?h and state = None, THEN conjunct1, THEN conjunct1, THEN iffD2]) (use new in blast)
  moreover have "twice_writes_once (upsertAccount ?moved) ?h None"
    by (rule upsert_twice_writes_once
        [where a = ?moved and h = ?h and state = None, THEN conjunct1, THEN conjunct1, THEN iffD2]) (use moved in blast)
  moreover have "twice_writes_twice (upsertAccount ?bare) ?h None"
    by (rule upsert_twice_writes_once
        [where a = ?bare and h = ?h and state = None, THEN conjunct1, THEN conjunct2, THEN mp]) (use bare in blast)
  moreover have "twice_writes_once (upsertNetwork (example_network ''devnet'' ''1'' None))
        (idle_host empty_document) None"
    by (rule rest [THEN conjunct1, THEN conjunct1, THEN iffD2]) (use n in blast)
  moreover have "twice_writes_once (upsertErc20Token (example_token ''0x1'' ''1''))
        (idle_host empty_document) None"
    by (rule rest [THEN conjunct2, THEN conjunct1, THEN conjunct1, THEN iffD2])
      (use k in blast)
  moreover have "twice_writes_once
        (upsertTransaction (example_transaction ''0x1'' ''1'' ''0x5'' ACCEPTED_ON_L2 50))
        (idle_host empty_document) None"
    by (rule rest [THEN conjunct2, THEN conjunct2, THEN conjunct1, THEN iffD2])
      (use t in blast)
  ultimately show ?thesis
    by (intro conjI)
qed

text \<open>
  The stored account carries its address as \<^verbatim>\<open>0x1\<close>, the incoming one as
  \<^verbatim>\<open>1\<close>, with another index. The first upsert merges the index and writes back;
  the stored address stays \<^verbatim>\<open>0x1\<close>, so the second upsert finds the two records
  different again and writes back a second time.
\<close>

theorem upsert_twice_writes_twice:
  "updates (idle_host (empty_document\<lparr>accContracts := Some [example_account ''0x1'' ''1'' 0]\<rparr>)) = []
   \<and> updates (snd (upsertAccount (example_account ''1'' ''1'' 5)
        (snd (upsertAccount (example_account ''1'' ''1'' 5)
           (idle_host (empty_document\<lparr>accContracts := Some [example_account ''0x1'' ''1'' 0]\<rparr>))
           None))
        None))
     = [empty_document\<lparr>accContracts := Some [example_account ''0x1'' ''1'' 5]\<rparr>,
        empty_document\<lparr>accContracts := Some [example_account ''0x1'' ''1'' 5]\<rparr>]"
proof -
  let ?u = "example_account ''1'' ''1'' 5"
  let ?doc0 = "empty_document\<lparr>accContracts := Some [example_account ''0x1'' ''1'' 0]\<rparr>"
  let ?doc1 = "empty_document\<lparr>accContracts := Some [example_account ''0x1'' ''1'' 5]\<rparr>"
  have merged0: "merge_account (example_account ''0x1'' ''1'' 0) ?u = example_account ''0x1'' ''1'' 5"
    and merged1: "merge_account (example_account ''0x1'' ''1'' 5) ?u = example_account ''0x1'' ''1'' 5"
    by (simp_all add: merge_account_def example_account_def js_or_def truthy_def)
  have differ: "example_account ''0x1'' ''1'' 0 \<noteq> ?u" "example_account ''0x1'' ''1'' 5 \<noteq> ?u"
    by (simp_all add: example_account_def)
  have found0: "getAccount_ref (the_document None (idle_host ?doc0)) (acc_address ?u) (acc_chainId ?u)
      = Inr (Some (0, example_account ''0x1'' ''1'' 0))"
    by (simp add: getAccount_ref_def account_matches_def strict_equals_def idle_host_def
        example_account_def literal_values)
  let ?h1 = "snd (upsertAccount ?u (idle_host ?doc0) None)"
  have first: "updates ?h1 = [?doc1]" "persisted ?h1 = ?doc1"
    using upsertAccount_merges [OF found0 differ(1)] merged0
    by (simp_all add: idle_host_def or_empty_def updates_def)
  have found1: "getAccount_ref (the_document None ?h1) (acc_address ?u) (acc_chainId ?u)
      = Inr (Some (0, example_account ''0x1'' ''1'' 5))"
    using first(2)
    by (simp add: getAccount_ref_def account_matches_def strict_equals_def
        example_account_def literal_values)
  have second: "updates (snd (upsertAccount ?u ?h1 None)) = [?doc1, ?doc1]"
    using upsertAccount_merges(2) [OF found1 differ(2)] merged1 first
    by (simp add: or_empty_def)
  show ?thesis
    using second by (simp add: updates_def idle_host_def)
qed

subsection \<open>What the batch upsert does to the document\<close>

lemma getTransaction_ref_find:
  "toBigInt a = Some v \<Longrightarrow>
   getTransaction_ref s a c = find_ref (transaction_matches v c) (or_empty (transactions s))"
  by (simp add: getTransaction_ref_def or_empty_def split: option.splits)

lemma getTransaction_ref_hit:
  assumes "getTransaction_ref s a c = Inr (Some (i, x))"
  shows "\<exists>v. toBigInt a = Some v \<and> i < length (or_empty (transactions s))
           \<and> or_empty (transactions s) ! i = x \<and> transaction_matches v c x = Inr True"
proof -
  obtain v where v: "toBigInt a = Some v"
    using assms by (auto simp: getTransaction_ref_def split: option.splits)
  then have "find_ref (transaction_matches v c) (or_empty (transactions s)) = Inr (Some (i, x))"
    using assms getTransaction_ref_find by metis
  from find_ref_found [OF this] v show ?thesis by blast
qed

lemma find_ref_error: "find_ref p xs = Inl e \<Longrightarrow> \<exists>x\<in>set xs. p x = Inl e"
  by (induction xs) (auto split: sum.splits if_splits option.splits)

lemma getTransaction_ref_error:
  assumes "getTransaction_ref s a c = Inl e"
  shows "e = SyntaxError"
proof (cases "toBigInt a")
  case None
  with assms show ?thesis by (simp add: getTransaction_ref_def)
next
  case (Some v)
  then have "find_ref (transaction_matches v c) (or_empty (transactions s)) = Inl e"
    using assms getTransaction_ref_find by metis
  then obtain x where "transaction_matches v c x = Inl e"
    using find_ref_error by blast
  then show ?thesis
    by (auto simp: transaction_matches_def split: option.splits)
qed

lemma upsert_one_cases:
  assumes "upsert_one t s = Inr s1"
  shows "(getTransaction_ref s (txn_txnHash t) (txn_chainId t) = Inr None
          \<and> s1 = s\<lparr>transactions := Some (or_empty (transactions s) @ [t])\<rparr>)
       \<or> (\<exists>i stored.
            getTransaction_ref s (txn_txnHash t) (txn_chainId t) = Inr (Some (i, stored))
            \<and> s1 = s\<lparr>transactions :=
                       Some ((or_empty (transactions s))[i := merge_transaction stored t])\<rparr>)"
  using assms by (auto simp: upsert_one_def split: sum.splits option.splits)

lemma upsert_one_parses:
  assumes "upsert_one t s = Inr s1"
  shows "toBigInt (txn_txnHash t) \<noteq> None"
  using assms by (auto simp: upsert_one_def getTransaction_ref_def split: option.splits)

lemma upsert_one_error:
  assumes "upsert_one t s = Inl e"
  shows "e = SyntaxError"
proof -
  from assms have "getTransaction_ref s (txn_txnHash t) (txn_chainId t) = Inl e"
    by (auto simp: upsert_one_def split: sum.splits option.splits)
  then show ?thesis by (rule getTransaction_ref_error)
qed

lemma upsert_each_error: "upsert_each txns s = Inl e \<Longrightarrow> e = SyntaxError"
proof (induction txns arbitrary: s)
  case Nil
  then show ?case by simp
next
  case (Cons t txns)
  show ?case
  proof (cases "upsert_one t s")
    case (Inl e')
    with Cons.prems have "e' = e" by simp
    with Inl upsert_one_error show ?thesis by blast
  next
    case (Inr s1)
    with Cons.prems have "upsert_each txns s1 = Inl e" by simp
    then show ?thesis by (rule Cons.IH)
  qed
qed

lemma upsert_each_malformed:
  "\<not> hashes_parse txns \<Longrightarrow> \<exists>e. upsert_each txns s = Inl e"
proof (induction txns arbitrary: s)
  case Nil
  then show ?case by (simp add: hashes_parse_def)
next
  case (Cons t txns)
  show ?case
  proof (cases "upsert_one t s")
    case (Inl e)
    then show ?thesis by simp
  next
    case (Inr s1)
    then have "toBigInt (txn_txnHash t) \<noteq> None" by (rule upsert_one_parses)
    with Cons.prems have "\<not> hashes_parse txns" by (simp add: hashes_parse_def)
    then obtain e where "upsert_each txns s1 = Inl e" using Cons.IH by blast
    with Inr show ?thesis by simp
  qed
qed

lemma upsert_each_append:
  "upsert_each (pre @ post) s =
     (case upsert_each pre s of Inl e \<Rightarrow> Inl e | Inr s1 \<Rightarrow> upsert_each post s1)"
  by (induction pre arbitrary: s) (auto split: sum.splits)

lemma same_transaction_key_iff:
  "toBigInt (txn_txnHash t) = Some v \<Longrightarrow>
   same_transaction_key t u \<longleftrightarrow> transaction_matches v (txn_chainId t) u = Inr True"
  by (simp add: same_transaction_key_def)

lemma same_kept_fields_merged: "same_kept_fields (merge_transaction stored t) stored"
  by (simp add: same_kept_fields_def merge_transaction_def)

lemma same_merged_fields_merged: "same_merged_fields (merge_transaction stored t) t"
  by (simp add: same_merged_fields_def merge_transaction_def)

lemma same_kept_fields_trans:
  "same_kept_fields a b \<Longrightarrow> same_kept_fields b c \<Longrightarrow> same_kept_fields a c"
  by (simp add: same_kept_fields_def)

lemma upsert_one_frame:
  assumes "upsert_one t s = Inr s1"
  shows "length (or_empty (transactions s)) \<le> length (or_empty (transactions s1))"
    and "i < length (or_empty (transactions s)) \<Longrightarrow>
           same_kept_fields (or_empty (transactions s1) ! i) (or_empty (transactions s) ! i)"
    and "i < length (or_empty (transactions s)) \<Longrightarrow>
           \<not> same_transaction_key t (or_empty (transactions s) ! i) \<Longrightarrow>
           or_empty (transactions s1) ! i = or_empty (transactions s) ! i"
    and "s1\<lparr>transactions := None\<rparr> = s\<lparr>transactions := None\<rparr>"
proof -
  let ?xs = "or_empty (transactions s)"
  have refl: "same_kept_fields x x" for x
    by (simp add: same_kept_fields_def)
  from upsert_one_cases [OF assms] consider
    (insert) "s1 = s\<lparr>transactions := Some (?xs @ [t])\<rparr>"
  | (merge) i0 stored where
      "getTransaction_ref s (txn_txnHash t) (txn_chainId t) = Inr (Some (i0, stored))"
      "s1 = s\<lparr>transactions := Some (?xs[i0 := merge_transaction stored t])\<rparr>"
    by blast
  then have "length ?xs \<le> length (or_empty (transactions s1))
    \<and> (i < length ?xs \<longrightarrow> same_kept_fields (or_empty (transactions s1) ! i) (?xs ! i))
    \<and> (i < length ?xs \<longrightarrow> \<not> same_transaction_key t (?xs ! i) \<longrightarrow>
          or_empty (transactions s1) ! i = ?xs ! i)
    \<and> s1\<lparr>transactions := None\<rparr> = s\<lparr>transactions := None\<rparr>"
  proof cases
    case insert
    then have ys: "or_empty (transactions s1) = ?xs @ [t]"
      by (simp add: or_empty_def)
    show ?thesis
      unfolding ys using insert refl by (simp add: nth_append)
  next
    case merge
    from getTransaction_ref_hit [OF merge(1)] obtain v where
      v: "toBigInt (txn_txnHash t) = Some v" and i0: "i0 < length ?xs"
      and at: "?xs ! i0 = stored"
      and hit: "transaction_matches v (txn_chainId t) stored = Inr True"
      by blast
    have key: "same_transaction_key t (?xs ! i0)"
      using v hit at by (simp add: same_transaction_key_iff)
    have ys: "or_empty (transactions s1) = ?xs[i0 := merge_transaction stored t]"
      using merge(2) by (simp add: or_empty_def)
    have "same_kept_fields (or_empty (transactions s1) ! i) (?xs ! i)" if "i < length ?xs"
    proof (cases "i = i0")
      case True
      then show ?thesis
        using that at same_kept_fields_merged [of stored t] by (simp add: ys)
    next
      case False
      then show ?thesis using refl by (simp add: ys)
    qed
    moreover have "or_empty (transactions s1) ! i = ?xs ! i"
      if "\<not> same_transaction_key t (?xs ! i)"
    proof -
      from that key have "i \<noteq> i0" by auto
      then show ?thesis by (simp add: ys)
    qed
    moreover have "s1\<lparr>transactions := None\<rparr> = s\<lparr>transactions := None\<rparr>"
      using merge(2) by simp
    ultimately show ?thesis by (simp add: ys)
  qed
  then show "length (or_empty (transactions s)) \<le> length (or_empty (transactions s1))"
    and "i < length (or_empty (transactions s)) \<Longrightarrow>
           same_kept_fields (or_empty (transactions s1) ! i) (or_empty (transactions s) ! i)"
    and "i < length (or_empty (transactions s)) \<Longrightarrow>
           \<not> same_transaction_key t (or_empty (transactions s) ! i) \<Longrightarrow>
           or_empty (transactions s1) ! i = or_empty (transactions s) ! i"
    and "s1\<lparr>transactions := None\<rparr> = s\<lparr>transactions := None\<rparr>"
    by blast+
qed

lemma same_transaction_key_kept:
  assumes "same_kept_fields r x"
  shows "same_transaction_key u r = same_transaction_key u x"
proof -
  have "txn_txnHash r = txn_txnHash x" "txn_chainId r = txn_chainId x"
    using assms by (simp_all add: same_kept_fields_def)
  then have "transaction_matches v c r = transaction_matches v c x" for v c
    by (simp only: transaction_matches_def)
  then show ?thesis
    by (simp only: same_transaction_key_def)
qed

lemma upsert_each_frame:
  assumes "upsert_each txns s = Inr s'"
  shows "length (or_empty (transactions s)) \<le> length (or_empty (transactions s'))
    \<and> (\<forall>i<length (or_empty (transactions s)).
          same_kept_fields (or_empty (transactions s') ! i) (or_empty (transactions s) ! i))
    \<and> (\<forall>i<length (or_empty (transactions s)).
          list_all (\<lambda>u. \<not> same_transaction_key u (or_empty (transactions s) ! i)) txns \<longrightarrow>
          or_empty (transactions s') ! i = or_empty (transactions s) ! i)
    \<and> s'\<lparr>transactions := None\<rparr> = s\<lparr>transactions := None\<rparr>"
  using assms
proof (induction txns arbitrary: s)
  case Nil
  then show ?case by (simp add: same_kept_fields_def)
next
  case (Cons t txns)
  let ?xs = "or_empty (transactions s)"
  let ?ys = "or_empty (transactions s')"
  from Cons.prems obtain s1 where one: "upsert_one t s = Inr s1"
    and rest: "upsert_each txns s1 = Inr s'"
    by (auto split: sum.splits)
  let ?zs = "or_empty (transactions s1)"
  note step = upsert_one_frame [OF one]
  note ih = Cons.IH [OF rest]
  have len: "length ?xs \<le> length ?ys"
    using step(1) ih by simp
  have kept: "same_kept_fields (?ys ! i) (?xs ! i)" if "i < length ?xs" for i
  proof -
    from that step(1) have "i < length ?zs" by simp
    with ih have "same_kept_fields (?ys ! i) (?zs ! i)" by blast
    from this step(2) [OF that] show ?thesis by (rule same_kept_fields_trans)
  qed
  have same: "?ys ! i = ?xs ! i"
    if "i < length ?xs" "list_all (\<lambda>u. \<not> same_transaction_key u (?xs ! i)) (t # txns)" for i
  proof -
    from that(2) have t: "\<not> same_transaction_key t (?xs ! i)"
      and ts: "list_all (\<lambda>u. \<not> same_transaction_key u (?xs ! i)) txns"
      by simp_all
    from step(3) [OF that(1) t] have eq: "?zs ! i = ?xs ! i" .
    from that(1) step(1) have "i < length ?zs" by simp
    moreover from ts eq have "list_all (\<lambda>u. \<not> same_transaction_key u (?zs ! i)) txns"
      by simp
    ultimately have "?ys ! i = ?zs ! i" using ih by blast
    with eq show ?thesis by simp
  qed
  have other: "s'\<lparr>transactions := None\<rparr> = s\<lparr>transactions := None\<rparr>"
    using step(4) ih by simp
  from len kept same other show ?case by blast
qed

lemma upsert_one_finds:
  assumes "upsert_one t s = Inr s1" "Number (txn_chainId t) \<noteq> NaN"
  shows "\<exists>j r. getTransaction_ref s1 (txn_txnHash t) (txn_chainId t) = Inr (Some (j, r))
           \<and> same_merged_fields r t"
proof -
  from upsert_one_cases [OF assms(1)] consider
    (insert) "getTransaction_ref s (txn_txnHash t) (txn_chainId t) = Inr None"
      "s1 = s\<lparr>transactions := Some (or_empty (transactions s) @ [t])\<rparr>"
  | (merge) i stored where
      "getTransaction_ref s (txn_txnHash t) (txn_chainId t) = Inr (Some (i, stored))"
      "s1 = s\<lparr>transactions :=
                Some ((or_empty (transactions s))[i := merge_transaction stored t])\<rparr>"
    by blast
  then show ?thesis
  proof cases
    case insert
    from getTransaction_ref_after_insert [OF insert(1)] assms(2) insert(2)
    have "getTransaction_ref s1 (txn_txnHash t) (txn_chainId t)
        = Inr (Some (length (or_empty (transactions s)), t))"
      by simp
    then show ?thesis by (simp add: same_merged_fields_def)
  next
    case merge
    from getTransaction_ref_after_merge [OF merge(1)] merge(2)
    have "getTransaction_ref s1 (txn_txnHash t) (txn_chainId t)
        = Inr (Some (i, merge_transaction stored t))"
      by simp
    then show ?thesis using same_merged_fields_merged by blast
  qed
qed

lemma upsert_one_keeps_found:
  assumes one: "upsert_one u s = Inr s1"
    and found: "getTransaction_ref s a c = Inr (Some (j, r))"
    and v: "toBigInt a = Some v"
    and other: "transaction_matches v c u \<noteq> Inr True"
  shows "getTransaction_ref s1 a c = Inr (Some (j, r))"
proof -
  let ?p = "transaction_matches v c"
  let ?xs = "or_empty (transactions s)"
  obtain w where w: "toBigInt (txn_txnHash u) = Some w"
    using upsert_one_parses [OF one] by auto
  then have pu: "?p u = Inr False"
    using other by (auto simp: transaction_matches_def)
  have f: "find_ref ?p ?xs = Inr (Some (j, r))"
    using found getTransaction_ref_find [OF v] by metis
  from upsert_one_cases [OF one] consider
    (insert) "s1 = s\<lparr>transactions := Some (?xs @ [u])\<rparr>"
  | (merge) i stored where
      "getTransaction_ref s (txn_txnHash u) (txn_chainId u) = Inr (Some (i, stored))"
      "s1 = s\<lparr>transactions := Some (?xs[i := merge_transaction stored u])\<rparr>"
    by blast
  then have "find_ref ?p (or_empty (transactions s1)) = Inr (Some (j, r))"
  proof cases
    case insert
    then have "or_empty (transactions s1) = ?xs @ [u]" by (simp add: or_empty_def)
    with find_ref_append_other [of ?p u ?xs, OF pu] f show ?thesis by simp
  next
    case merge
    from getTransaction_ref_hit [OF merge(1)] w have i: "i < length ?xs"
      and at: "?xs ! i = stored"
      and hit: "transaction_matches w (txn_chainId u) stored = Inr True"
      by auto
    from hit have sw: "toBigInt (txn_txnHash stored) = Some w"
      and sc: "strict_equals (Number (txn_chainId stored)) (Number (txn_chainId u))"
      by (auto simp: transaction_matches_def split: option.splits)
    have ps: "?p stored = Inr False"
    proof (rule ccontr)
      assume "?p stored \<noteq> Inr False"
      with sw have "w = v" "strict_equals (Number (txn_chainId stored)) (Number c)"
        by (auto simp: transaction_matches_def)
      with sc have "strict_equals (Number (txn_chainId u)) (Number c)"
        by (auto simp: strict_equals_def)
      with w \<open>w = v\<close> have "?p u = Inr True"
        by (simp add: transaction_matches_def)
      with pu show False by simp
    qed
    have pm: "?p (merge_transaction stored u) = Inr False"
      using ps by (simp only: transaction_matches_merged)
    have "or_empty (transactions s1) = ?xs[i := merge_transaction stored u]"
      using merge(2) by (simp add: or_empty_def)
    moreover have "find_ref ?p (?xs[i := merge_transaction stored u]) = find_ref ?p ?xs"
      using i at ps pm by (intro find_ref_update_other) simp_all
    ultimately show ?thesis using f by simp
  qed
  then show ?thesis
    using getTransaction_ref_find [OF v] by metis
qed

lemma upsert_each_keeps_found:
  assumes "upsert_each post s = Inr s'"
    and "getTransaction_ref s a c = Inr (Some (j, r))"
    and "toBigInt a = Some v"
    and "list_all (\<lambda>u. transaction_matches v c u \<noteq> Inr True) post"
  shows "getTransaction_ref s' a c = Inr (Some (j, r))"
  using assms
proof (induction post arbitrary: s)
  case Nil
  then show ?case by simp
next
  case (Cons u post)
  from Cons.prems(1) obtain s1 where one: "upsert_one u s = Inr s1"
    and rest: "upsert_each post s1 = Inr s'"
    by (auto split: sum.splits)
  from Cons.prems(4) have u: "transaction_matches v c u \<noteq> Inr True"
    and post: "list_all (\<lambda>u. transaction_matches v c u \<noteq> Inr True) post"
    by simp_all
  have "getTransaction_ref s1 a c = Inr (Some (j, r))"
    using upsert_one_keeps_found [OF one Cons.prems(2) Cons.prems(3) u] .
  from Cons.IH [OF rest this Cons.prems(3) post] show ?case .
qed

lemma upsert_each_finds:
  assumes each: "upsert_each (pre @ t # post) s = Inr s'"
    and number: "Number (txn_chainId t) \<noteq> NaN"
    and last: "list_all (\<lambda>u. \<not> same_transaction_key t u) post"
  shows "\<exists>j r. getTransaction_ref s' (txn_txnHash t) (txn_chainId t) = Inr (Some (j, r))
           \<and> same_merged_fields r t"
proof -
  from each obtain s1 where "upsert_each pre s = Inr s1"
    and "upsert_each (t # post) s1 = Inr s'"
    by (auto simp: upsert_each_append split: sum.splits)
  then obtain s2 where one: "upsert_one t s1 = Inr s2"
    and rest: "upsert_each post s2 = Inr s'"
    by (auto split: sum.splits)
  obtain v where v: "toBigInt (txn_txnHash t) = Some v"
    using upsert_one_parses [OF one] by auto
  from upsert_one_finds [OF one number] obtain j r where
    found: "getTransaction_ref s2 (txn_txnHash t) (txn_chainId t) = Inr (Some (j, r))"
    and fields: "same_merged_fields r t"
    by blast
  from last v have "list_all (\<lambda>u. transaction_matches v (txn_chainId t) u \<noteq> Inr True) post"
    by (simp add: same_transaction_key_def)
  from upsert_each_keeps_found [OF rest found v this] fields show ?thesis by blast
qed

lemma upsert_one_step:
  assumes "upsert_one t s = Inr s1"
  shows "s1 =
    (case getTransaction_ref s (txn_txnHash t) (txn_chainId t) of
       Inr (Some (i, storedTxn)) \<Rightarrow>
         s\<lparr>transactions :=
             Some ((or_empty (transactions s))
                     [i := storedTxn\<lparr>txn_status := txn_status t,
                                      txn_executionStatus := txn_executionStatus t,
                                      txn_finalityStatus := txn_finalityStatus t,
                                      txn_failureReason := txn_failureReason t,
                                      txn_timestamp := txn_timestamp t\<rparr>])\<rparr>
     | _ \<Rightarrow> s\<lparr>transactions := Some (or_empty (transactions s) @ [t])\<rparr>)"
  using assms
  by (auto simp: upsert_one_def merge_transaction_def split: sum.splits option.splits)

lemma upsert_each_fold:
  assumes "hashes_parse txns" "hashes_parse (or_empty (transactions s))"
  shows "upsert_each txns s = Inr
    (foldl (\<lambda>s t.
        case getTransaction_ref s (txn_txnHash t) (txn_chainId t) of
          Inr (Some (i, storedTxn)) \<Rightarrow>
            s\<lparr>transactions :=
                Some ((or_empty (transactions s))
                        [i := storedTxn\<lparr>txn_status := txn_status t,
                                         txn_executionStatus := txn_executionStatus t,
                                         txn_finalityStatus := txn_finalityStatus t,
                                         txn_failureReason := txn_failureReason t,
                                         txn_timestamp := txn_timestamp t\<rparr>])\<rparr>
        | _ \<Rightarrow> s\<lparr>transactions := Some (or_empty (transactions s) @ [t])\<rparr>) s txns)"
  using assms
proof (induction txns arbitrary: s)
  case Nil
  then show ?case by simp
next
  case (Cons t txns)
  from Cons.prems have t: "toBigInt (txn_txnHash t) \<noteq> None" and ts: "hashes_parse txns"
    by (simp_all add: hashes_parse_def)
  from upsert_one_ok [OF t Cons.prems(2)] obtain s1 where one: "upsert_one t s = Inr s1"
    and parse: "hashes_parse (or_empty (transactions s1))"
    by blast
  from Cons.IH [OF ts parse] one upsert_one_step [OF one] show ?case
    by simp
qed

lemma upsertTransactions_fst:
  "fst (upsertTransactions txns h state) = upsert_each txns (the_document state h)"
  by (simp add: upsertTransactions_def runExclusive_def Let_def split_beta split: sum.splits)

lemma upsertTransactions_trace:
  "trace (snd (upsertTransactions txns h state)) =
     trace h @ [LockAcquire] @ (if state = None then [HostGet] else [])
       @ (case upsert_each txns (the_document state h) of
            Inl e \<Rightarrow> []
          | Inr s' \<Rightarrow> [HostUpdate s'])
       @ [LockRelease]"
  by (simp add: upsertTransactions_def runExclusive_def Let_def split_beta split: sum.splits)

lemma upsertTransactions_persisted:
  "persisted (snd (upsertTransactions txns h state)) =
     (case upsert_each txns (the_document state h) of
        Inl e \<Rightarrow> persisted h
      | Inr s' \<Rightarrow> s')"
  by (simp add: upsertTransactions_def runExclusive_def Let_def split_beta split: sum.splits)

text \<open>
  C7 (as amended). \<^verbatim>\<open>upsertTransactions\<close> takes the lock once and releases it once,
  fetches the document once if none was supplied and not at all otherwise, and
  sends one update, carrying the final document, exactly when the loop over the
  batch completes: if it throws, no update is sent, and it throws (a
  \<^verbatim>\<open>SyntaxError\<close>, the persisted document left as it was) whenever a hash of the
  batch is not an integer literal. When the hashes of the batch and of the stored
  transactions are integer literals, the loop completes, and the final document is
  obtained from the initial one by going through the batch in order, locating each
  transaction by hash and chain id, assigning its status, execution status,
  finality status, failure reason and timestamp to the stored record if one is
  found, and adding it at the end otherwise; the update is sent whether or not any
  record changed. In the final document the other collections are those of the
  initial one; every transaction of the batch whose chain id is a number is
  located, and the record located has the five assigned fields of that transaction
  if no later transaction of the batch has its key; every stored transaction is at
  its position with its hash, type, chain id, sender and contract address, and is
  unchanged if no transaction of the batch has its key.
\<close>

theorem upsertTransactions_single_write:
  "trace (snd (upsertTransactions txns h state)) =
     trace h @ [LockAcquire] @ (if state = None then [HostGet] else [])
       @ (case fst (upsertTransactions txns h state) of
            Inl e \<Rightarrow> []
          | Inr s' \<Rightarrow> [HostUpdate s'])
       @ [LockRelease]
   \<and> (\<not> hashes_parse txns \<longrightarrow>
        fst (upsertTransactions txns h state) = Inl SyntaxError
        \<and> persisted (snd (upsertTransactions txns h state)) = persisted h)
   \<and> (hashes_parse txns \<and> hashes_parse (or_empty (transactions (the_document state h))) \<longrightarrow>
        (\<exists>s'. fst (upsertTransactions txns h state) = Inr s'
           \<and> persisted (snd (upsertTransactions txns h state)) = s'
           \<and> s' = foldl (\<lambda>s t.
                     case getTransaction_ref s (txn_txnHash t) (txn_chainId t) of
                       Inr (Some (i, storedTxn)) \<Rightarrow>
                         s\<lparr>transactions :=
                             Some ((or_empty (transactions s))
                                     [i := storedTxn\<lparr>txn_status := txn_status t,
                                                      txn_executionStatus := txn_executionStatus t,
                                                      txn_finalityStatus := txn_finalityStatus t,
                                                      txn_failureReason := txn_failureReason t,
                                                      txn_timestamp := txn_timestamp t\<rparr>])\<rparr>
                     | _ \<Rightarrow> s\<lparr>transactions := Some (or_empty (transactions s) @ [t])\<rparr>)
                   (the_document state h) txns
           \<and> s'\<lparr>transactions := None\<rparr> = (the_document state h)\<lparr>transactions := None\<rparr>
           \<and> (\<forall>pre t post.
                 txns = pre @ t # post \<and> Number (txn_chainId t) \<noteq> NaN
                 \<and> list_all (\<lambda>u. \<not> same_transaction_key t u) post \<longrightarrow>
                 (\<exists>j r. getTransaction_ref s' (txn_txnHash t) (txn_chainId t)
                          = Inr (Some (j, r))
                        \<and> same_merged_fields r t))
           \<and> length (or_empty (transactions (the_document state h)))
               \<le> length (or_empty (transactions s'))
           \<and> (\<forall>i<length (or_empty (transactions (the_document state h))).
                 same_kept_fields (or_empty (transactions s') ! i)
                   (or_empty (transactions (the_document state h)) ! i))
           \<and> (\<forall>i<length (or_empty (transactions (the_document state h))).
                 list_all (\<lambda>u. \<not> same_transaction_key u
                                   (or_empty (transactions (the_document state h)) ! i)) txns \<longrightarrow>
                 or_empty (transactions s') ! i
                   = or_empty (transactions (the_document state h)) ! i)))"
proof (intro conjI impI)
  show "trace (snd (upsertTransactions txns h state)) =
     trace h @ [LockAcquire] @ (if state = None then [HostGet] else [])
       @ (case fst (upsertTransactions txns h state) of
            Inl e \<Rightarrow> []
          | Inr s' \<Rightarrow> [HostUpdate s'])
       @ [LockRelease]"
    by (simp only: upsertTransactions_fst upsertTransactions_trace)
next
  assume "\<not> hashes_parse txns"
  then obtain e where e: "upsert_each txns (the_document state h) = Inl e"
    using upsert_each_malformed by blast
  then have "e = SyntaxError" by (rule upsert_each_error)
  with e show "fst (upsertTransactions txns h state) = Inl SyntaxError"
    by (simp add: upsertTransactions_fst)
  from e show "persisted (snd (upsertTransactions txns h state)) = persisted h"
    by (simp add: upsertTransactions_persisted)
next
  let ?D = "the_document state h"
  assume "hashes_parse txns \<and> hashes_parse (or_empty (transactions ?D))"
  then have parse: "hashes_parse txns" "hashes_parse (or_empty (transactions ?D))"
    by simp_all
  obtain s' where each: "upsert_each txns ?D = Inr s'"
    using upsert_each_ok [OF parse] by blast
  have "fst (upsertTransactions txns h state) = Inr s'"
    using each by (simp add: upsertTransactions_fst)
  moreover have "persisted (snd (upsertTransactions txns h state)) = s'"
    using each by (simp add: upsertTransactions_persisted)
  moreover have "s' = foldl (\<lambda>s t.
                     case getTransaction_ref s (txn_txnHash t) (txn_chainId t) of
                       Inr (Some (i, storedTxn)) \<Rightarrow>
                         s\<lparr>transactions :=
                             Some ((or_empty (transactions s))
                                     [i := storedTxn\<lparr>txn_status := txn_status t,
                                                      txn_executionStatus := txn_executionStatus t,
                                                      txn_finalityStatus := txn_finalityStatus t,
                                                      txn_failureReason := txn_failureReason t,
                                                      txn_timestamp := txn_timestamp t\<rparr>])\<rparr>
                     | _ \<Rightarrow> s\<lparr>transactions := Some (or_empty (transactions s) @ [t])\<rparr>)
                   ?D txns"
    using upsert_each_fold [OF parse] each by simp
  moreover have "\<forall>pre t post.
                 txns = pre @ t # post \<and> Number (txn_chainId t) \<noteq> NaN
                 \<and> list_all (\<lambda>u. \<not> same_transaction_key t u) post \<longrightarrow>
                 (\<exists>j r. getTransaction_ref s' (txn_txnHash t) (txn_chainId t)
                          = Inr (Some (j, r))
                        \<and> same_merged_fields r t)"
    using each upsert_each_finds by blast
  ultimately show "\<exists>s'. fst (upsertTransactions txns h state) = Inr s'
           \<and> persisted (snd (upsertTransactions txns h state)) = s'
           \<and> s' = foldl (\<lambda>s t.
                     case getTransaction_ref s (txn_txnHash t) (txn_chainId t) of
                       Inr (Some (i, storedTxn)) \<Rightarrow>
                         s\<lparr>transactions :=
                             Some ((or_empty (transactions s))
                                     [i := storedTxn\<lparr>txn_status := txn_status t,
                                                      txn_executionStatus := txn_executionStatus t,
                                                      txn_finalityStatus := txn_finalityStatus t,
                                                      txn_failureReason := txn_failureReason t,
                                                      txn_timestamp := txn_timestamp t\<rparr>])\<rparr>
                     | _ \<Rightarrow> s\<lparr>transactions := Some (or_empty (transactions s) @ [t])\<rparr>)
                   (the_document state h) txns
           \<and> s'\<lparr>transactions := None\<rparr> = (the_document state h)\<lparr>transactions := None\<rparr>
           \<and> (\<forall>pre t post.
                 txns = pre @ t # post \<and> Number (txn_chainId t) \<noteq> NaN
                 \<and> list_all (\<lambda>u. \<not> same_transaction_key t u) post \<longrightarrow>
                 (\<exists>j r. getTransaction_ref s' (txn_txnHash t) (txn_chainId t)
                          = Inr (Some (j, r))
                        \<and> same_merged_fields r t))
           \<and> length (or_empty (transactions (the_document state h)))
               \<le> length (or_empty (transactions s'))
           \<and> (\<forall>i<length (or_empty (transactions (the_document state h))).
                 same_kept_fields (or_empty (transactions s') ! i)
                   (or_empty (transactions (the_document state h)) ! i))
           \<and> (\<forall>i<length (or_empty (transactions (the_document state h))).
                 list_all (\<lambda>u. \<not> same_transaction_key u
                                   (or_empty (transactions (the_document state h)) ! i)) txns \<longrightarrow>
                 or_empty (transactions s') ! i
                   = or_empty (transactions (the_document state h)) ! i)"
    using upsert_each_frame [OF each] by (intro exI [of _ s']) blast
qed

text \<open>
  A document that stores the transaction with hash \<^verbatim>\<open>0x1\<close> on chain \<^verbatim>\<open>1\<close>,
  pending, and a batch of two: that transaction under the spellings \<^verbatim>\<open>1\<close> and
  \<^verbatim>\<open>0x1\<close>, now accepted on L2 at 50, and a new one with hash \<^verbatim>\<open>2\<close>. The stored
  record takes the finality status and the timestamp and keeps its spellings, the
  new one is added, and one update is sent. With a third transaction whose hash is
  \<^verbatim>\<open>xyz\<close> the call throws and sends nothing.
\<close>

theorem upsertTransactions_single_write_witness:
  "hashes_parse [example_transaction ''1'' ''0x1'' ''0x5'' ACCEPTED_ON_L2 50,
                 example_transaction ''2'' ''1'' ''0x5'' ''PENDING'' 60]
   \<and> hashes_parse (or_empty (transactions (the_document None
         (idle_host (empty_document\<lparr>transactions :=
            Some [example_transaction ''0x1'' ''1'' ''0x5'' ''PENDING'' 10]\<rparr>)))))
   \<and> fst (upsertTransactions
             [example_transaction ''1'' ''0x1'' ''0x5'' ACCEPTED_ON_L2 50,
              example_transaction ''2'' ''1'' ''0x5'' ''PENDING'' 60]
             (idle_host (empty_document\<lparr>transactions :=
                Some [example_transaction ''0x1'' ''1'' ''0x5'' ''PENDING'' 10]\<rparr>)) None)
     = Inr (empty_document\<lparr>transactions :=
              Some [example_transaction ''0x1'' ''1'' ''0x5'' ACCEPTED_ON_L2 50,
                    example_transaction ''2'' ''1'' ''0x5'' ''PENDING'' 60]\<rparr>)
   \<and> trace (snd (upsertTransactions
             [example_transaction ''1'' ''0x1'' ''0x5'' ACCEPTED_ON_L2 50,
              example_transaction ''2'' ''1'' ''0x5'' ''PENDING'' 60]
             (idle_host (empty_document\<lparr>transactions :=
                Some [example_transaction ''0x1'' ''1'' ''0x5'' ''PENDING'' 10]\<rparr>)) None))
     = [LockAcquire, HostGet,
        HostUpdate (empty_document\<lparr>transactions :=
          Some [example_transaction ''0x1'' ''1'' ''0x5'' ACCEPTED_ON_L2 50,
                example_transaction ''2'' ''1'' ''0x5'' ''PENDING'' 60]\<rparr>),
        LockRelease]
   \<and> \<not> hashes_parse [example_transaction ''1'' ''0x1'' ''0x5'' ACCEPTED_ON_L2 50,
                     example_transaction ''2'' ''1'' ''0x5'' ''PENDING'' 60,
                     example_transaction ''xyz'' ''1'' ''0x5'' ''PENDING'' 70]
   \<and> fst (upsertTransactions
             [example_transaction ''1'' ''0x1'' ''0x5'' ACCEPTED_ON_L2 50,
              example_transaction ''2'' ''1'' ''0x5'' ''PENDING'' 60,
              example_transaction ''xyz'' ''1'' ''0x5'' ''PENDING'' 70]
             (idle_host (empty_document\<lparr>transactions :=
                Some [example_transaction ''0x1'' ''1'' ''0x5'' ''PENDING'' 10]\<rparr>)) None)
     = Inl SyntaxError
   \<and> trace (snd (upsertTransactions
             [example_transaction ''1'' ''0x1'' ''0x5'' ACCEPTED_ON_L2 50,
              example_transaction ''2'' ''1'' ''0x5'' ''PENDING'' 60,
              example_transaction ''xyz'' ''1'' ''0x5'' ''PENDING'' 70]
             (idle_host (empty_document\<lparr>transactions :=
                Some [example_transaction ''0x1'' ''1'' ''0x5'' ''PENDING'' 10]\<rparr>)) None))
     = [LockAcquire, HostGet, LockRelease]"
proof -
  let ?a = "example_transaction ''1'' ''0x1'' ''0x5'' ACCEPTED_ON_L2 50"
  let ?b = "example_transaction ''2'' ''1'' ''0x5'' ''PENDING'' 60"
  let ?c = "example_transaction ''xyz'' ''1'' ''0x5'' ''PENDING'' 70"
  let ?doc0 = "empty_document\<lparr>transactions :=
    Some [example_transaction ''0x1'' ''1'' ''0x5'' ''PENDING'' 10]\<rparr>"
  let ?doc1 = "empty_document\<lparr>transactions :=
    Some [example_transaction ''0x1'' ''1'' ''0x5'' ACCEPTED_ON_L2 50, ?b]\<rparr>"
  let ?h = "idle_host ?doc0"
  have batch: "hashes_parse [?a, ?b]"
    by (simp add: hashes_parse_def example_transaction_def literal_values)
  have stored: "hashes_parse (or_empty (transactions (the_document None ?h)))"
    by (simp add: hashes_parse_def or_empty_def idle_host_def example_transaction_def
        literal_values)
  have bad: "\<not> hashes_parse [?a, ?b, ?c]"
    by (simp add: hashes_parse_def example_transaction_def literal_values)
  note good = upsertTransactions_single_write [of "[?a, ?b]" ?h None]
  note fails = upsertTransactions_single_write [of "[?a, ?b, ?c]" ?h None]
  have result: "fst (upsertTransactions [?a, ?b] ?h None) = Inr ?doc1"
    using good [THEN conjunct2, THEN conjunct2, THEN mp, OF conjI [OF batch stored]]
    apply (elim exE conjE)
    subgoal premises p for s'
      using p(1) p(3)
      by (simp add: getTransaction_ref_def transaction_matches_def strict_equals_def
          or_empty_def idle_host_def example_transaction_def empty_document_def
          literal_values)
    done
  have idle: "trace ?h = []"
    by (simp add: idle_host_def)
  have "trace (snd (upsertTransactions [?a, ?b] ?h None))
      = [LockAcquire, HostGet, HostUpdate ?doc1, LockRelease]"
    using good [THEN conjunct1] by (simp add: result idle)
  moreover have thrown: "fst (upsertTransactions [?a, ?b, ?c] ?h None) = Inl SyntaxError"
    using fails [THEN conjunct2, THEN conjunct1, THEN mp, OF bad] by simp
  moreover have "trace (snd (upsertTransactions [?a, ?b, ?c] ?h None))
      = [LockAcquire, HostGet, LockRelease]"
    using fails [THEN conjunct1] by (simp add: thrown idle)
  ultimately show ?thesis
    using batch stored bad result by (intro conjI)
qed

text \<open>
  A batch of one transaction whose hash is \<^verbatim>\<open>xyz\<close>: \<^verbatim>\<open>num.toBigInt\<close> throws in the
  loop, the lock is released, and no update is sent to the host.
\<close>

theorem upsertTransactions_malformed_hash_no_write:
  "fst (upsertTransactions [example_transaction ''xyz'' ''1'' ''0x5'' ''PENDING'' 10]
          (idle_host empty_document) None) = Inl SyntaxError
   \<and> trace (snd (upsertTransactions [example_transaction ''xyz'' ''1'' ''0x5'' ''PENDING'' 10]
          (idle_host empty_document) None)) = [LockAcquire, HostGet, LockRelease]
   \<and> updates (snd (upsertTransactions [example_transaction ''xyz'' ''1'' ''0x5'' ''PENDING'' 10]
          (idle_host empty_document) None)) = []"
  by (simp add: upsertTransactions_def runExclusive_def Let_def split_beta upsert_one_def
      getTransaction_ref_def idle_host_def example_transaction_def updates_def
      literal_values)

section \<open>Lookups\<close>

subsection \<open>Numeric keys\<close>

text \<open>
  A lookup uses the address or hash it is given only through the integer the string
  denotes, and the chain id only through its number: two spellings of one key give
  one result.
\<close>

lemma lookup_key_spelling:
  assumes "toBigInt key = toBigInt key'" "Number chainId = Number chainId'"
  shows "getAccount state key chainId = getAccount state key' chainId'"
    and "getErc20Token state key chainId = getErc20Token state key' chainId'"
    and "getTransaction state key chainId = getTransaction state key' chainId'"
    and "getNetwork state chainId = getNetwork state chainId'"
proof -
  have "account_matches v chainId = account_matches v chainId'"
    and "token_matches v chainId = token_matches v chainId'"
    and "transaction_matches v chainId = transaction_matches v chainId'" for v
    by (simp_all only: fun_eq_iff account_matches_def token_matches_def
        transaction_matches_def assms(2) simp_thms)
  then show "getAccount state key chainId = getAccount state key' chainId'"
    and "getErc20Token state key chainId = getErc20Token state key' chainId'"
    and "getTransaction state key chainId = getTransaction state key' chainId'"
    using assms(1)
    by (simp_all add: getAccount_def getAccount_ref_def getErc20Token_def getErc20Token_ref_def
        getTransaction_def getTransaction_ref_def split: option.splits)
  have "network_matches chainId = network_matches chainId'"
    by (simp only: fun_eq_iff network_matches_def assms(2) simp_thms)
  then show "getNetwork state chainId = getNetwork state chainId'"
    by (simp add: getNetwork_def getNetwork_ref_def split: option.splits)
qed

lemma getAccount_numeric:
  assumes "accContracts state = Some accs" "acc \<in> set accs"
    and "addresses_parse (map acc_address accs)"
    and "toBigInt accountAddress = toBigInt (acc_address acc)"
    and "strict_equals (Number (acc_chainId acc)) (Number chainId)"
  shows "\<exists>found. getAccount state accountAddress chainId = Inr (Some found)
    \<and> found \<in> set accs
    \<and> toBigInt (acc_address found) = toBigInt accountAddress
    \<and> strict_equals (Number (acc_chainId found)) (Number chainId)
    \<and> ((\<forall>x\<in>set accs. toBigInt (acc_address x) = toBigInt (acc_address acc)
                      \<and> strict_equals (Number (acc_chainId x)) (Number chainId) \<longrightarrow> x = acc)
         \<longrightarrow> found = acc)"
proof -
  have parse: "\<forall>x\<in>set accs. toBigInt (acc_address x) \<noteq> None"
    using assms(3) by (simp add: addresses_parse_def list_all_iff)
  then obtain v where v: "toBigInt (acc_address acc) = Some v"
    using assms(2) by auto
  have hit: "account_matches v chainId acc = Inr True"
    using v assms(5) by (simp add: account_matches_def)
  have total: "\<forall>y\<in>set accs. \<exists>b. account_matches v chainId y = Inr b"
    using parse by (auto simp: account_matches_def)
  obtain i y where f: "find_ref (account_matches v chainId) accs = Inr (Some (i, y))"
    and y: "y \<in> set accs" "account_matches v chainId y = Inr True"
    using find_ref_hit_exists [OF assms(2) hit total] by blast
  have "toBigInt (acc_address y) = Some v \<and> strict_equals (Number (acc_chainId y)) (Number chainId)"
    using y(2) by (auto simp: account_matches_def split: option.splits)
  then show ?thesis
    using f y(1) v assms(1,4)
    by (auto simp: getAccount_def getAccount_ref_def found_value_def)
qed

lemma getErc20Token_numeric:
  assumes "erc20Tokens state = Some tokens" "token \<in> set tokens"
    and "addresses_parse (map tok_address tokens)"
    and "toBigInt tokenAddress = toBigInt (tok_address token)"
    and "strict_equals (Number (tok_chainId token)) (Number chainId)"
  shows "\<exists>found. getErc20Token state tokenAddress chainId = Inr (Some found)
    \<and> found \<in> set tokens
    \<and> toBigInt (tok_address found) = toBigInt tokenAddress
    \<and> strict_equals (Number (tok_chainId found)) (Number chainId)
    \<and> ((\<forall>x\<in>set tokens. toBigInt (tok_address x) = toBigInt (tok_address token)
                      \<and> strict_equals (Number (tok_chainId x)) (Number chainId) \<longrightarrow> x = token)
         \<longrightarrow> found = token)"
proof -
  have parse: "\<forall>x\<in>set tokens. toBigInt (tok_address x) \<noteq> None"
    using assms(3) by (simp add: addresses_parse_def list_all_iff)
  then obtain v where v: "toBigInt (tok_address token) = Some v"
    using assms(2) by auto
  have hit: "token_matches v chainId token = Inr True"
    using v assms(5) by (simp add: token_matches_def)
  have total: "\<forall>y\<in>set tokens. \<exists>b. token_matches v chainId y = Inr b"
    using parse by (auto simp: token_matches_def)
  obtain i y where f: "find_ref (token_matches v chainId) tokens = Inr (Some (i, y))"
    and y: "y \<in> set tokens" "token_matches v chainId y = Inr True"
    using find_ref_hit_exists [OF assms(2) hit total] by blast
  have "toBigInt (tok_address y) = Some v \<and> strict_equals (Number (tok_chainId y)) (Number chainId)"
    using y(2) by (auto simp: token_matches_def split: option.splits)
  then show ?thesis
    using f y(1) v assms(1,4)
    by (auto simp: getErc20Token_def getErc20Token_ref_def found_value_def)
qed

lemma getTransaction_numeric:
  assumes "transactions state = Some txns" "txn \<in> set txns"
    and "addresses_parse (map txn_txnHash txns)"
    and "toBigInt txnHash = toBigInt (txn_txnHash txn)"
    and "strict_equals (Number (txn_chainId txn)) (Number chainId)"
  shows "\<exists>found. getTransaction state txnHash chainId = Inr (Some found)
    \<and> found \<in> set txns
    \<and> toBigInt (txn_txnHash found) = toBigInt txnHash
    \<and> strict_equals (Number (txn_chainId found)) (Number chainId)
    \<and> ((\<forall>x\<in>set txns. toBigInt (txn_txnHash x) = toBigInt (txn_txnHash txn)
                      \<and> strict_equals (Number (txn_chainId x)) (Number chainId) \<longrightarrow> x = txn)
         \<longrightarrow> found = txn)"
proof -
  have parse: "\<forall>x\<in>set txns. toBigInt (txn_txnHash x) \<noteq> None"
    using assms(3) by (simp add: addresses_parse_def list_all_iff)
  then obtain v where v: "toBigInt (txn_txnHash txn) = Some v"
    using assms(2) by auto
  have hit: "transaction_matches v chainId txn = Inr True"
    using v assms(5) by (simp add: transaction_matches_def)
  have total: "\<forall>y\<in>set txns. \<exists>b. transaction_matches v chainId y = Inr b"
    using parse by (auto simp: transaction_matches_def)
  obtain i y where f: "find_ref (transaction_matches v chainId) txns = Inr (Some (i, y))"
    and y: "y \<in> set txns" "transaction_matches v chainId y = Inr True"
    using find_ref_hit_exists [OF assms(2) hit total] by blast
  have "toBigInt (txn_txnHash y) = Some v \<and> strict_equals (Number (txn_chainId y)) (Number chainId)"
    using y(2) by (auto simp: transaction_matches_def split: option.splits)
  then show ?thesis
    using f y(1) v assms(1,4)
    by (auto simp: getTransaction_def getTransaction_ref_def found_value_def)
qed

lemma getNetwork_found:
  "getNetwork s c = Some n \<Longrightarrow> n \<in> set (or_empty (networks s)) \<and> network_matches c n"
proof -
  assume a: "getNetwork s c = Some n"
  then obtain i where "getNetwork_ref s c = Some (i, n)"
    by (auto simp: getNetwork_def)
  then have "find_ref (\<lambda>n. Inr (network_matches c n)) (or_empty (networks s)) = Inr (Some (i, n))"
    using getNetwork_ref_find [of c s] by simp
  from find_ref_found [OF this] show ?thesis
    by (metis nth_mem old.sum.inject(2))
qed

lemma getNetwork_none:
  "getNetwork s c = None \<Longrightarrow> \<forall>n\<in>set (or_empty (networks s)). \<not> network_matches c n"
proof -
  assume "getNetwork s c = None"
  then have "find_ref (\<lambda>n. Inr (network_matches c n)) (or_empty (networks s)) = Inr None"
    using getNetwork_ref_find [of c s] by (simp add: getNetwork_def)
  from find_ref_none [OF this] show ?thesis by simp
qed

lemma getNetwork_numeric:
  assumes "networks state = Some ns" "network \<in> set ns"
    and "strict_equals (Number (net_chainId network)) (Number chainId)"
    and "net_useOldAccounts network \<noteq> Some True"
  shows "\<exists>found. getNetwork state chainId = Some found
    \<and> found \<in> set ns
    \<and> strict_equals (Number (net_chainId found)) (Number chainId)
    \<and> net_useOldAccounts found \<noteq> Some True
    \<and> ((\<forall>x\<in>set ns. strict_equals (Number (net_chainId x)) (Number chainId)
                      \<and> net_useOldAccounts x \<noteq> Some True \<longrightarrow> x = network)
         \<longrightarrow> found = network)"
proof -
  have mem: "network \<in> set (or_empty (networks state))"
    using assms(1,2) by (simp add: or_empty_def)
  have hit: "network_matches chainId network"
    using assms(3,4) by (simp add: network_matches_def)
  have "getNetwork state chainId \<noteq> None"
    using getNetwork_none [of state chainId] mem hit by blast
  then obtain found where f: "getNetwork state chainId = Some found"
    by blast
  have "found \<in> set (or_empty (networks state))" and m: "network_matches chainId found"
    using getNetwork_found [OF f] by simp_all
  then have fmem: "found \<in> set ns"
    using assms(1) by (simp add: or_empty_def)
  have fprops: "strict_equals (Number (net_chainId found)) (Number chainId)"
    "net_useOldAccounts found \<noteq> Some True"
    using m by (simp_all add: network_matches_def)
  have "found = network"
    if "\<forall>x\<in>set ns. strict_equals (Number (net_chainId x)) (Number chainId)
                      \<and> net_useOldAccounts x \<noteq> Some True \<longrightarrow> x = network"
    using that fmem fprops by blast
  with f fmem fprops show ?thesis
    by blast
qed

text \<open>
  C5. Where the stored keys are integer literals and a stored record has the
  integer and the chain number asked for, whatever the spelling (hexadecimal or
  decimal) of either, the lookup finds a stored record with that integer and that
  chain number: that very record when no other stored record shares the key. For a
  network the key is the chain number, among the networks without the legacy flag.
  In general (last part of the statement) a lookup depends on the address or hash it
  is given only through the integer the string denotes, and on the chain id only
  through its number.
\<close>

theorem lookup_by_numeric_key:
  "(accContracts state = Some accs \<and> acc \<in> set accs
      \<and> addresses_parse (map acc_address accs)
      \<and> toBigInt accountAddress = toBigInt (acc_address acc)
      \<and> strict_equals (Number (acc_chainId acc)) (Number chainId)
    \<longrightarrow> (\<exists>found. getAccount state accountAddress chainId = Inr (Some found)
           \<and> found \<in> set accs
           \<and> toBigInt (acc_address found) = toBigInt accountAddress
           \<and> strict_equals (Number (acc_chainId found)) (Number chainId)
           \<and> ((\<forall>x\<in>set accs. toBigInt (acc_address x) = toBigInt (acc_address acc)
                             \<and> strict_equals (Number (acc_chainId x)) (Number chainId) \<longrightarrow> x = acc)
                \<longrightarrow> found = acc)))
   \<and> (erc20Tokens state = Some tokens \<and> token \<in> set tokens
      \<and> addresses_parse (map tok_address tokens)
      \<and> toBigInt tokenAddress = toBigInt (tok_address token)
      \<and> strict_equals (Number (tok_chainId token)) (Number chainId)
    \<longrightarrow> (\<exists>found. getErc20Token state tokenAddress chainId = Inr (Some found)
           \<and> found \<in> set tokens
           \<and> toBigInt (tok_address found) = toBigInt tokenAddress
           \<and> strict_equals (Number (tok_chainId found)) (Number chainId)
           \<and> ((\<forall>x\<in>set tokens. toBigInt (tok_address x) = toBigInt (tok_address token)
                             \<and> strict_equals (Number (tok_chainId x)) (Number chainId) \<longrightarrow> x = token)
                \<longrightarrow> found = token)))
   \<and> (transactions state = Some txns \<and> txn \<in> set txns
      \<and> addresses_parse (map txn_txnHash txns)
      \<and> toBigInt txnHash = toBigInt (txn_txnHash txn)
      \<and> strict_equals (Number (txn_chainId txn)) (Number chainId)
    \<longrightarrow> (\<exists>found. getTransaction state txnHash chainId = Inr (Some found)
           \<and> found \<in> set txns
           \<and> toBigInt (txn_txnHash found) = toBigInt txnHash
           \<and> strict_equals (Number (txn_chainId found)) (Number chainId)
           \<and> ((\<forall>x\<in>set txns. toBigInt (txn_txnHash x) = toBigInt (txn_txnHash txn)
                             \<and> strict_equals (Number (txn_chainId x)) (Number chainId) \<longrightarrow> x = txn)
                \<longrightarrow> found = txn)))
   \<and> (networks state = Some ns \<and> network \<in> set ns
      \<and> strict_equals (Number (net_chainId network)) (Number chainId)
      \<and> net_useOldAccounts network \<noteq> Some True
    \<longrightarrow> (\<exists>found. getNetwork state chainId = Some found
           \<and> found \<in> set ns
           \<and> strict_equals (Number (net_chainId found)) (Number chainId)
           \<and> net_useOldAccounts found \<noteq> Some True
           \<and> ((\<forall>x\<in>set ns. strict_equals (Number (net_chainId x)) (Number chainId)
                             \<and> net_useOldAccounts x \<noteq> Some True \<longrightarrow> x = network)
                \<longrightarrow> found = network)))
   \<and> (toBigInt key = toBigInt key' \<and> Number chain = Number chain'
    \<longrightarrow> getAccount state key chain = getAccount state key' chain'
        \<and> getErc20Token state key chain = getErc20Token state key' chain'
        \<and> getTransaction state key chain = getTransaction state key' chain'
        \<and> getNetwork state chain = getNetwork state chain')"
proof (intro conjI impI)
  assume "accContracts state = Some accs \<and> acc \<in> set accs
      \<and> addresses_parse (map acc_address accs)
      \<and> toBigInt accountAddress = toBigInt (acc_address acc)
      \<and> strict_equals (Number (acc_chainId acc)) (Number chainId)"
  then show "\<exists>found. getAccount state accountAddress chainId = Inr (Some found)
           \<and> found \<in> set accs
           \<and> toBigInt (acc_address found) = toBigInt accountAddress
           \<and> strict_equals (Number (acc_chainId found)) (Number chainId)
           \<and> ((\<forall>x\<in>set accs. toBigInt (acc_address x) = toBigInt (acc_address acc)
                             \<and> strict_equals (Number (acc_chainId x)) (Number chainId) \<longrightarrow> x = acc)
                \<longrightarrow> found = acc)"
    by (elim conjE) (rule getAccount_numeric [of state accs acc accountAddress chainId])
next
  assume "erc20Tokens state = Some tokens \<and> token \<in> set tokens
      \<and> addresses_parse (map tok_address tokens)
      \<and> toBigInt tokenAddress = toBigInt (tok_address token)
      \<and> strict_equals (Number (tok_chainId token)) (Number chainId)"
  then show "\<exists>found. getErc20Token state tokenAddress chainId = Inr (Some found)
           \<and> found \<in> set tokens
           \<and> toBigInt (tok_address found) = toBigInt tokenAddress
           \<and> strict_equals (Number (tok_chainId found)) (Number chainId)
           \<and> ((\<forall>x\<in>set tokens. toBigInt (tok_address x) = toBigInt (tok_address token)
                             \<and> strict_equals (Number (tok_chainId x)) (Number chainId) \<longrightarrow> x = token)
                \<longrightarrow> found = token)"
    by (elim conjE) (rule getErc20Token_numeric [of state tokens token tokenAddress chainId])
next
  assume "transactions state = Some txns \<and> txn \<in> set txns
      \<and> addresses_parse (map txn_txnHash txns)
      \<and> toBigInt txnHash = toBigInt (txn_txnHash txn)
      \<and> strict_equals (Number (txn_chainId txn)) (Number chainId)"
  then show "\<exists>found. getTransaction state txnHash chainId = Inr (Some found)
           \<and> found \<in> set txns
           \<and> toBigInt (txn_txnHash found) = toBigInt txnHash
           \<and> strict_equals (Number (txn_chainId found)) (Number chainId)
           \<and> ((\<forall>x\<in>set txns. toBigInt (txn_txnHash x) = toBigInt (txn_txnHash txn)
                             \<and> strict_equals (Number (txn_chainId x)) (Number chainId) \<longrightarrow> x = txn)
                \<longrightarrow> found = txn)"
    by (elim conjE) (rule getTransaction_numeric [of state txns txn txnHash chainId])
next
  assume "networks state = Some ns \<and> network \<in> set ns
      \<and> strict_equals (Number (net_chainId network)) (Number chainId)
      \<and> net_useOldAccounts network \<noteq> Some True"
  then show "\<exists>found. getNetwork state chainId = Some found
           \<and> found \<in> set ns
           \<and> strict_equals (Number (net_chainId found)) (Number chainId)
           \<and> net_useOldAccounts found \<noteq> Some True
           \<and> ((\<forall>x\<in>set ns. strict_equals (Number (net_chainId x)) (Number chainId)
                             \<and> net_useOldAccounts x \<noteq> Some True \<longrightarrow> x = network)
                \<longrightarrow> found = network)"
    by (elim conjE) (rule getNetwork_numeric [of state ns network chainId])
next
  assume "toBigInt key = toBigInt key' \<and> Number chain = Number chain'"
  then show "getAccount state key chain = getAccount state key' chain'"
    and "getErc20Token state key chain = getErc20Token state key' chain'"
    and "getTransaction state key chain = getTransaction state key' chain'"
    and "getNetwork state chain = getNetwork state chain'"
    using lookup_key_spelling [of key key' chain chain' state] by simp_all
qed


theorem lookup_by_numeric_key_witness:
  "getAccount example_document ''0x1'' ''0x1'' = Inr (Some (example_account ''1'' ''1'' 0))
   \<and> getErc20Token example_document ''0x1'' ''0x1'' = Inr (Some (example_token ''1'' ''1''))
   \<and> getTransaction example_document ''0x1'' ''0x1''
       = Inr (Some (example_transaction ''1'' ''1'' ''0x5'' ''PENDING'' 10))
   \<and> getNetwork example_document ''0x1'' = Some (example_network ''devnet'' ''1'' None)"
proof -
  note inst = lookup_by_numeric_key
    [of example_document "[example_account ''1'' ''1'' 0]" "example_account ''1'' ''1'' 0"
        "''0x1''" "''0x1''"
        "[example_token ''1'' ''1'']" "example_token ''1'' ''1''" "''0x1''"
        "[example_transaction ''1'' ''1'' ''0x5'' ''PENDING'' 10]"
        "example_transaction ''1'' ''1'' ''0x5'' ''PENDING'' 10" "''0x1''"
        "[example_network ''devnet'' ''1'' None]" "example_network ''devnet'' ''1'' None"]
  have stored:
    "accContracts example_document = Some [example_account ''1'' ''1'' 0]"
    "erc20Tokens example_document = Some [example_token ''1'' ''1'']"
    "transactions example_document = Some [example_transaction ''1'' ''1'' ''0x5'' ''PENDING'' 10]"
    "networks example_document = Some [example_network ''devnet'' ''1'' None]"
    by (simp_all add: example_document_def)
  have keys:
    "addresses_parse (map acc_address [example_account ''1'' ''1'' 0])"
    "toBigInt ''0x1'' = toBigInt (acc_address (example_account ''1'' ''1'' 0))"
    "strict_equals (Number (acc_chainId (example_account ''1'' ''1'' 0))) (Number ''0x1'')"
    "addresses_parse (map tok_address [example_token ''1'' ''1''])"
    "toBigInt ''0x1'' = toBigInt (tok_address (example_token ''1'' ''1''))"
    "strict_equals (Number (tok_chainId (example_token ''1'' ''1''))) (Number ''0x1'')"
    "addresses_parse (map txn_txnHash [example_transaction ''1'' ''1'' ''0x5'' ''PENDING'' 10])"
    "toBigInt ''0x1'' = toBigInt (txn_txnHash (example_transaction ''1'' ''1'' ''0x5'' ''PENDING'' 10))"
    "strict_equals (Number (txn_chainId (example_transaction ''1'' ''1'' ''0x5'' ''PENDING'' 10)))
       (Number ''0x1'')"
    "strict_equals (Number (net_chainId (example_network ''devnet'' ''1'' None))) (Number ''0x1'')"
    "net_useOldAccounts (example_network ''devnet'' ''1'' None) \<noteq> Some True"
    by (simp_all add: addresses_parse_def strict_equals_def example_account_def
        example_token_def example_transaction_def example_network_def literal_values)
  from inst stored keys show ?thesis
    by auto
qed

subsection \<open>The current network of a chain\<close>



section \<open>Reading transactions and collections\<close>







text \<open>
  C10. On a document without a token collection \<^verbatim>\<open>getErc20Tokens\<close> returns
  \<^verbatim>\<open>undefined\<close>, not a list, and it returns a list exactly when the collection is
  present; on a document without a transaction collection \<^verbatim>\<open>getTransactions\<close>
  returns the empty list.
\<close>

theorem absent_collections:
  "(erc20Tokens state = None \<longrightarrow> getErc20Tokens state chainId = None)
   \<and> (\<forall>tokens. erc20Tokens state = Some tokens
         \<longrightarrow> getErc20Tokens state chainId
               = Some (filter (\<lambda>token. strict_equals (Number (tok_chainId token)) (Number chainId))
                         tokens))
   \<and> (transactions state = None
        \<longrightarrow> getTransactions state chainId senderAddress contractAddress txnType
              finalityStatus executionStatus minTimestamp = Inr [])"
  by (simp add: getErc20Tokens_def getTransactions_def)

theorem absent_collections_witness:
  "erc20Tokens absent_document = None
   \<and> transactions absent_document = None
   \<and> getErc20Tokens absent_document ''1'' = None
   \<and> getTransactions absent_document ''1'' (Some ''xyz'') None None None None None = Inr []
   \<and> getErc20Tokens example_document ''0x1'' = Some [example_token ''1'' ''1'']"
proof -
  have absent: "erc20Tokens absent_document = None" "transactions absent_document = None"
    by (simp_all add: absent_document_def)
  have present: "erc20Tokens example_document = Some [example_token ''1'' ''1'']"
    by (simp add: example_document_def)
  from absent_collections [of absent_document "''1''" "Some ''xyz''" None None None None None]
    absent_collections [of example_document "''0x1''"] absent present
  show ?thesis
    by (simp add: example_token_def strict_equals_def literal_values)
qed

section \<open>What the accessors do on an absent collection\<close>

text \<open>
  C4. \<^verbatim>\<open>getAccounts\<close> throws on a document whose account collection is absent,
  where the other accessors, on the same document, report that nothing was found.
\<close>

theorem getAccounts_absent_collection_throws:
  "getAccounts absent_document ''1'' = Inl TypeError
   \<and> getAccount absent_document ''0x1'' ''1'' = Inr None
   \<and> getErc20Token absent_document ''0x1'' ''1'' = Inr None
   \<and> getTransaction absent_document ''0x1'' ''1'' = Inr None
   \<and> getNetwork absent_document ''1'' = None
   \<and> getErc20Tokens absent_document ''1'' = None"
  by (simp add: getAccounts_def getAccount_def getAccount_ref_def getErc20Token_def
      getErc20Token_ref_def getTransaction_def getTransaction_ref_def getNetwork_def
      getNetwork_ref_def getErc20Tokens_def found_value_def absent_document_def
      literal_values)

text \<open>
  The locators by address or hash do not throw when the key they are given and the
  stored keys are integer literals, whether the collection is present or not.
\<close>

lemma locators_return:
  assumes "toBigInt key \<noteq> None"
  shows "addresses_parse (map acc_address (or_empty (accContracts state)))
           \<Longrightarrow> \<exists>r. getAccount state key chainId = Inr r"
    and "addresses_parse (map tok_address (or_empty (erc20Tokens state)))
           \<Longrightarrow> \<exists>r. getErc20Token state key chainId = Inr r"
    and "addresses_parse (map txn_txnHash (or_empty (transactions state)))
           \<Longrightarrow> \<exists>r. getTransaction state key chainId = Inr r"
proof -
  obtain v where v: "toBigInt key = Some v" using assms by auto
  {
    assume "addresses_parse (map acc_address (or_empty (accContracts state)))"
    then have "\<forall>x\<in>set (or_empty (accContracts state)). \<exists>b. account_matches v chainId x = Inr b"
      by (auto simp: addresses_parse_def list_all_iff account_matches_def)
    from find_ref_no_error [OF this] v
    show "\<exists>r. getAccount state key chainId = Inr r"
      by (auto simp: getAccount_def getAccount_ref_def found_value_def or_empty_def
          split: option.splits)
  next
    assume "addresses_parse (map tok_address (or_empty (erc20Tokens state)))"
    then have "\<forall>x\<in>set (or_empty (erc20Tokens state)). \<exists>b. token_matches v chainId x = Inr b"
      by (auto simp: addresses_parse_def list_all_iff token_matches_def)
    from find_ref_no_error [OF this] v
    show "\<exists>r. getErc20Token state key chainId = Inr r"
      by (auto simp: getErc20Token_def getErc20Token_ref_def found_value_def or_empty_def
          split: option.splits)
  next
    assume "addresses_parse (map txn_txnHash (or_empty (transactions state)))"
    then have "\<forall>x\<in>set (or_empty (transactions state)). \<exists>b. transaction_matches v chainId x = Inr b"
      by (auto simp: addresses_parse_def list_all_iff transaction_matches_def)
    from find_ref_no_error [OF this] v
    show "\<exists>r. getTransaction state key chainId = Inr r"
      by (auto simp: getTransaction_def getTransaction_ref_def found_value_def or_empty_def
          split: option.splits)
  }
qed

end
